theory Spec2Isabelle
  imports Main
begin

section \<open>The SSD detector of ssds/modeling/ssds/ssd.py\<close>

text \<open>
  The file builds a Single Shot Multibox Detector from a base network, extra layers and
  one pair of convolutions per feature map, and runs its forward pass. The numeric engine
  (torch) and the layer parser are outside the file. The model keeps of them what the
  file relies on: the dimensions and the strides of a tensor, the order of its elements,
  the errors the engine raises, and the state a module call may change. Element types,
  devices and the exhaustion of memory are not modelled.
\<close>

subsection \<open>Errors and tensors\<close>

text \<open>
  Python exceptions are values. \<open>RuntimeError\<close>, \<open>IndexError\<close>, \<open>TypeError\<close> and
  \<open>ValueError\<close> are the ones the engine raises on the operations used here;
  \<open>Raised\<close> is any other exception of a module or of the layer parser.
\<close>

datatype error = RuntimeError | IndexError | TypeError | ValueError | Raised string

text \<open>
  A tensor is its list of dimensions, its list of strides (how far apart in memory two
  neighbours along each dimension lie) and its elements in row-major order of the
  dimensions, whatever the strides. The element type is a parameter: floating-point
  arithmetic is not modelled.
\<close>

record 'a tensor =
  shape :: "nat list"
  strides :: "nat list"
  elems :: "'a list"

definition numel :: "'a tensor \<Rightarrow> nat" where
  "numel t = prod_list (shape t)"

text \<open>
  The strides the engine gives a tensor it lays out densely in row-major order: the last
  is 1, and each other is the stride after it times the dimension after it, a dimension
  of 0 counting as 1.
\<close>

fun contiguous_strides :: "nat list \<Rightarrow> nat list" where
  "contiguous_strides [] = []"
| "contiguous_strides (d # ds) = prod_list (map (max 1) ds) # contiguous_strides ds"

text \<open>
  The strides of the channels-last layout of a batch \<open>[b, c, h, w]\<close>: the channels of
  one position lie next to each other.
\<close>

definition channels_last_strides :: "nat \<Rightarrow> nat \<Rightarrow> nat \<Rightarrow> nat \<Rightarrow> nat list" where
  "channels_last_strides b c h w = [h * w * c, 1, w * c, c]"

text \<open>
  \<open>t.is_contiguous()\<close>: a tensor without elements is contiguous; otherwise, from the
  last dimension to the first and skipping the dimensions of size 1, each stride must be
  the product of the dimensions after it. The list argument holds the pairs of a
  dimension and its stride, the last dimension first.
\<close>

fun dense_from :: "(nat \<times> nat) list \<Rightarrow> nat \<Rightarrow> bool" where
  "dense_from [] z = True"
| "dense_from ((sz, st) # rest) z =
     (if sz = 1 then dense_from rest z else st = z \<and> dense_from rest (z * sz))"

definition is_contiguous :: "'a tensor \<Rightarrow> bool" where
  "is_contiguous t \<longleftrightarrow> numel t = 0 \<or> dense_from (rev (zip (shape t) (strides t))) 1"

text \<open>
  \<open>t.contiguous()\<close>: the tensor itself when it is contiguous, otherwise a copy with the
  same dimensions and elements, laid out densely.
\<close>

definition contiguous :: "'a tensor \<Rightarrow> 'a tensor" where
  "contiguous t = (if is_contiguous t then t else t\<lparr>strides := contiguous_strides (shape t)\<rparr>)"

subsection \<open>The tensor operations of forward\<close>

text \<open>\<open>x.size(0)\<close>: the first dimension; a tensor without dimensions has none.\<close>

definition size0 :: "'a tensor \<Rightarrow> error + nat" where
  "size0 x = (case shape x of [] \<Rightarrow> Inl IndexError | b # _ \<Rightarrow> Inr b)"

text \<open>An integer the engine can take as a size: it fits in 64 bits, signed.\<close>

definition fits64 :: "int \<Rightarrow> bool" where
  "fits64 v \<longleftrightarrow> - (2 ^ 63) \<le> v \<and> v < 2 ^ 63"

text \<open>
  The strides of a view. A view shares the memory of its tensor, so the new dimensions
  must cut the old ones into the same runs of memory: the engine walks the old dimensions
  from the last to the first, gathers those that follow each other densely into a chunk,
  and at the end of each chunk takes as many of the new dimensions, also from the last,
  as make up the elements of the chunk; it fails when they do not make them up exactly
  or when new dimensions are left over.
  \<open>take_view_dims tn cbs vn news acc\<close> takes new dimensions from \<open>news\<close> (last
  dimension first) while they hold fewer than the \<open>tn\<close> elements of the chunk, or are
  1, and puts their strides in front of \<open>acc\<close>; \<open>cbs\<close> is the stride of the chunk's
  last dimension and \<open>vn\<close> the elements the new dimensions taken so far hold.
\<close>

fun take_view_dims :: "nat \<Rightarrow> nat \<Rightarrow> nat \<Rightarrow> nat list \<Rightarrow> nat list \<Rightarrow> nat \<times> nat list \<times> nat list" where
  "take_view_dims tn cbs vn [] acc = (vn, [], acc)"
| "take_view_dims tn cbs vn (d # ds) acc =
     (if vn < tn \<or> d = 1 then take_view_dims tn cbs (vn * d) ds ((vn * cbs) # acc)
      else (vn, d # ds, acc))"

fun chunk_loop ::
  "(nat \<times> nat) list \<Rightarrow> nat \<Rightarrow> nat \<Rightarrow> nat \<Rightarrow> nat list \<Rightarrow> nat list \<Rightarrow> nat list option" where
  "chunk_loop [] cbs tn vn news acc = (if news = [] then Some acc else None)"
| "chunk_loop [(sz, st)] cbs tn vn news acc =
     (case take_view_dims (tn * sz) cbs vn news acc of
        (vn', news', acc') \<Rightarrow>
          if vn' \<noteq> tn * sz then None else if news' = [] then Some acc' else None)"
| "chunk_loop ((sz, st) # (sz1, st1) # rest) cbs tn vn news acc =
     (if sz1 \<noteq> 1 \<and> st1 \<noteq> tn * sz * cbs
      then (case take_view_dims (tn * sz) cbs vn news acc of
              (vn', news', acc') \<Rightarrow>
                if vn' \<noteq> tn * sz then None
                else chunk_loop ((sz1, st1) # rest) st1 1 1 news' acc')
      else chunk_loop ((sz1, st1) # rest) cbs (tn * sz) vn news acc)"

definition view_strides :: "nat list \<Rightarrow> nat list \<Rightarrow> nat list \<Rightarrow> nat list option" where
  "view_strides oldshape oldstride newshape =
     (if oldshape = [] then Some (replicate (length newshape) 1)
      else if prod_list oldshape = 0
        then (if oldshape = newshape then Some oldstride else Some (contiguous_strides newshape))
      else chunk_loop (rev (zip oldshape oldstride)) (last oldstride) 1 1 (rev newshape) [])"

text \<open>
  \<open>t.view(b, n, -1)\<close>: the same elements under the dimensions \<open>[b, n, numel / (b * n)]\<close>.
  The engine refuses an \<open>n\<close> beyond 64 bits (TypeError), a dimension below \<open>-1\<close>, a
  second inferred dimension, a product \<open>b * n\<close> of zero (the inferred dimension would be
  ambiguous or the sizes do not match), a number of elements that \<open>b * n\<close> does not
  divide, and strides that do not allow the view.
\<close>

definition view :: "'a tensor \<Rightarrow> nat \<Rightarrow> int \<Rightarrow> error + 'a tensor" where
  "view t b n =
     (if \<not> fits64 n then Inl TypeError
      else if n \<le> 0 \<or> b = 0 then Inl RuntimeError
      else if numel t mod (b * nat n) \<noteq> 0 then Inl RuntimeError
      else
        (case view_strides (shape t) (strides t) [b, nat n, numel t div (b * nat n)] of
           None \<Rightarrow> Inl RuntimeError
         | Some st \<Rightarrow>
             Inr \<lparr>shape = [b, nat n, numel t div (b * nat n)], strides = st, elems = elems t\<rparr>))"

text \<open>
  \<open>torch.cat(ts, 2)\<close>. The list must not be empty (ValueError), the tensors must have
  the same number of dimensions, more than two, and agree in every dimension but the
  third. The result is laid out densely and has the sum of the third dimensions there;
  in row-major order its elements are, for each index of the two leading dimensions in
  turn, the block of each tensor in turn. (Forward passes results of \<open>view\<close>, of three
  dimensions.)
\<close>

fun chunks :: "nat \<Rightarrow> nat \<Rightarrow> 'a list \<Rightarrow> 'a list list" where
  "chunks 0 n xs = []"
| "chunks (Suc k) n xs = take n xs # chunks k n (drop n xs)"

definition same_but_dim2 :: "nat list \<Rightarrow> nat list \<Rightarrow> bool" where
  "same_but_dim2 s1 s2 \<longleftrightarrow> take 2 s1 = take 2 s2 \<and> drop 3 s1 = drop 3 s2"

definition cat2 :: "'a tensor list \<Rightarrow> error + 'a tensor" where
  "cat2 ts =
     (case ts of
        [] \<Rightarrow> Inl ValueError
      | t # _ \<Rightarrow>
          if \<not> list_all (\<lambda>u. length (shape u) = length (shape t)) ts then Inl RuntimeError
          else if length (shape t) \<le> 2 then Inl IndexError
          else if \<not> list_all (\<lambda>u. same_but_dim2 (shape u) (shape t)) ts then Inl RuntimeError
          else
            let outer = prod_list (take 2 (shape t));
                blocks = map (\<lambda>u. chunks outer (prod_list (drop 2 (shape u))) (elems u)) ts;
                dims = (shape t)[2 := sum_list (map (\<lambda>u. shape u ! 2) ts)]
            in Inr \<lparr>shape = dims,
                    strides = contiguous_strides dims,
                    elems = concat (map (\<lambda>r. concat (map (\<lambda>bl. bl ! r) blocks)) [0..<outer])\<rparr>)"

subsection \<open>Modules\<close>

text \<open>
  The hyperparameters of an \<open>nn.Conv2d\<close> (stride 1, dilation 1, one group). Its weights
  are not modelled: they are drawn at random when it is built and belong to the engine.
\<close>

record conv2d =
  in_channels :: nat
  out_channels :: nat
  kernel_size :: nat
  padding :: nat

text \<open>
  A module is a convolution, a softmax along one dimension, or any other module: a
  function from the input tensor and the state of the modules (buffers, counters, random
  generators) of type \<open>'s\<close> to a tensor or an exception, and the state afterwards.
\<close>

datatype ('a, 's) module =
    Conv2d conv2d
  | Softmax int
  | Custom "'a tensor \<Rightarrow> 's \<Rightarrow> (error + 'a tensor) \<times> 's"

text \<open>
  What is the engine's own and a parameter of every function that calls a module: the
  elements a convolution or a softmax computes from its input, and whether it lays the
  output of a convolution out channels-last (as most backends do for a channels-last
  input) and not densely.
\<close>

record 'a engine =
  conv2d_values :: "conv2d \<Rightarrow> 'a tensor \<Rightarrow> 'a list"
  conv2d_channels_last :: "conv2d \<Rightarrow> 'a tensor \<Rightarrow> bool"
  softmax_values :: "int \<Rightarrow> 'a tensor \<Rightarrow> 'a list"

text \<open>
  \<open>nn.Conv2d(in_channels, out_channels, kernel_size=k, padding=p)\<close>: the engine
  allocates a weight of dimensions \<open>[out_channels, in_channels, k, k]\<close>. It refuses a
  dimension beyond 64 bits (TypeError) and a negative one (RuntimeError); it accepts 0.
  Whether the memory of the machine holds a weight of these dimensions is not modelled.
\<close>

definition nn_Conv2d :: "int \<Rightarrow> int \<Rightarrow> nat \<Rightarrow> nat \<Rightarrow> error + ('a, 's) module" where
  "nn_Conv2d i out k p =
     (if \<not> fits64 i \<or> \<not> fits64 out then Inl TypeError
      else if i < 0 \<or> out < 0 then Inl RuntimeError
      else Inr (Conv2d \<lparr>in_channels = nat i, out_channels = nat out,
                        kernel_size = k, padding = p\<rparr>))"

text \<open>
  A convolution on a batch of dimensions \<open>[b, ch, h, w]\<close>. The engine refuses a
  convolution without output channels, channels that are not the convolution's input
  channels, a kernel larger than the padded input, and an input without elements unless
  it is the batch or the channels that are 0. The result has dimensions
  \<open>[b, out_channels, h + 2p - k + 1, w + 2p - k + 1]\<close>; for an input of 0 channels it has
  0 channels. It is laid out densely, or channels-last when the engine chooses so.
\<close>

definition conv2d_batch ::
  "'a engine \<Rightarrow> conv2d \<Rightarrow> 'a tensor \<Rightarrow> nat \<Rightarrow> nat \<Rightarrow> nat \<Rightarrow> nat \<Rightarrow> error + 'a tensor" where
  "conv2d_batch E c x b ch h w =
     (if out_channels c = 0 then Inl RuntimeError
      else if ch \<noteq> in_channels c then Inl RuntimeError
      else if h + 2 * padding c < kernel_size c \<or> w + 2 * padding c < kernel_size c
        then Inl RuntimeError
      else
        let h' = h + 2 * padding c + 1 - kernel_size c;
            w' = w + 2 * padding c + 1 - kernel_size c
        in if b = 0 \<or> ch = 0
           then Inr \<lparr>shape = [b, if ch = 0 then 0 else out_channels c, h', w'],
                     strides = contiguous_strides [b, if ch = 0 then 0 else out_channels c, h', w'],
                     elems = conv2d_values E c x\<rparr>
           else if h = 0 \<or> w = 0 then Inl RuntimeError
           else Inr \<lparr>shape = [b, out_channels c, h', w'],
                     strides = (if conv2d_channels_last E c x
                                then channels_last_strides b (out_channels c) h' w'
                                else contiguous_strides [b, out_channels c, h', w']),
                     elems = conv2d_values E c x\<rparr>)"

text \<open>
  Calling a convolution: on four dimensions a batch; on three dimensions \<open>[ch, h, w]\<close>
  a batch of one, whose batch dimension is dropped from the result; nothing else.
\<close>

definition conv2d_forward :: "'a engine \<Rightarrow> conv2d \<Rightarrow> 'a tensor \<Rightarrow> error + 'a tensor" where
  "conv2d_forward E c x =
     (case shape x of
        [b, ch, h, w] \<Rightarrow> conv2d_batch E c x b ch h w
      | [ch, h, w] \<Rightarrow>
          (case conv2d_batch E c x 1 ch h w of
             Inl e \<Rightarrow> Inl e
           | Inr t \<Rightarrow> Inr (t\<lparr>shape := tl (shape t), strides := tl (strides t)\<rparr>))
      | _ \<Rightarrow> Inl RuntimeError)"

text \<open>
  Softmax keeps the dimensions and returns a dense tensor; \<open>dim\<close> must name a dimension
  of the input (a tensor without dimensions counts as having one).
\<close>

definition softmax_forward :: "'a engine \<Rightarrow> int \<Rightarrow> 'a tensor \<Rightarrow> error + 'a tensor" where
  "softmax_forward E dim x =
     (let r = max 1 (int (length (shape x)))
      in if dim < - r \<or> r \<le> dim then Inl IndexError
         else Inr \<lparr>shape = shape x, strides = contiguous_strides (shape x),
                   elems = softmax_values E dim x\<rparr>)"

fun call :: "'a engine \<Rightarrow> ('a, 's) module \<Rightarrow> 'a tensor \<Rightarrow> 's \<Rightarrow> (error + 'a tensor) \<times> 's" where
  "call E (Conv2d c) x s = (conv2d_forward E c x, s)"
| "call E (Softmax dim) x s = (softmax_forward E dim x, s)"
| "call E (Custom f) x s = f x s"

subsection \<open>Sequencing: state and exceptions\<close>

text \<open>
  A computation takes the state of the modules and returns a value or an exception, and
  the state it left. An exception stops the computation and keeps the state.
\<close>

type_synonym ('s, 'r) action = "'s \<Rightarrow> (error + 'r) \<times> 's"

definition returnS :: "'r \<Rightarrow> ('s, 'r) action" where
  "returnS v = (\<lambda>s. (Inr v, s))"

definition liftS :: "error + 'r \<Rightarrow> ('s, 'r) action" where
  "liftS r = (\<lambda>s. (r, s))"

definition bindS :: "('s, 'r) action \<Rightarrow> ('r \<Rightarrow> ('s, 'q) action) \<Rightarrow> ('s, 'q) action" where
  "bindS m f = (\<lambda>s. case m s of (Inl e, s') \<Rightarrow> (Inl e, s') | (Inr v, s') \<Rightarrow> f v s')"

subsection \<open>The detector\<close>

text \<open>
  An entry of \<open>feature_layer[0]\<close> is the index of a base layer or the name of an extra
  layer (\<open>'S'\<close>, \<open>''\<close>, ...).
\<close>

datatype layer = Index int | Name string

record ('a, 's) SSD =
  num_classes :: int
  base :: "('a, 's) module list"
  extras :: "('a, 's) module list"
  loc :: "('a, 's) module list"
  conf :: "('a, 's) module list"
  softmax :: "('a, 's) module"
  feature_layer :: "layer list"

text \<open>\<open>SSD.__init__\<close>\<close>

definition SSD_init ::
  "('a, 's) module list \<Rightarrow> ('a, 's) module list \<Rightarrow> ('a, 's) module list \<times> ('a, 's) module list
     \<Rightarrow> layer list \<times> int list \<Rightarrow> int \<Rightarrow> ('a, 's) SSD" where
  "SSD_init base' extras' head' feature_layer' num_classes' =
     \<lparr>num_classes = num_classes',
      base = base',
      extras = extras',
      loc = fst head',
      conf = snd head',
      softmax = Softmax (- 1),
      feature_layer = fst feature_layer'\<rparr>"

text \<open>What forward returns: the list of sources, or the pair \<open>(loc, conf)\<close>.\<close>

datatype 'a forward_result = Sources "'a tensor list" | Heads "'a tensor" "'a tensor"

text \<open>
  The loop over the base layers (lines 60-63): layer \<open>k\<close> is applied to \<open>x\<close>, and
  its output is appended to the sources when \<open>k\<close> is in \<open>feature_layer\<close> (an index
  equals no name). The list argument holds the layers from index \<open>k\<close> on.
\<close>

fun base_loop ::
  "'a engine \<Rightarrow> layer list \<Rightarrow> ('a, 's) module list \<Rightarrow> nat \<Rightarrow> 'a tensor \<Rightarrow> 'a tensor list
     \<Rightarrow> ('s, 'a tensor \<times> 'a tensor list) action" where
  "base_loop E fl [] k x sources = returnS (x, sources)"
| "base_loop E fl (m # ms) k x sources =
     bindS (call E m x) (\<lambda>x'.
       base_loop E fl ms (Suc k) x'
         (if Index (int k) \<in> set fl then sources @ [x'] else sources))"

text \<open>The loop over the extra layers (lines 66-68): every output is a source.\<close>

fun extras_loop ::
  "'a engine \<Rightarrow> ('a, 's) module list \<Rightarrow> 'a tensor \<Rightarrow> 'a tensor list
     \<Rightarrow> ('s, 'a tensor \<times> 'a tensor list) action" where
  "extras_loop E [] x sources = returnS (x, sources)"
| "extras_loop E (v # vs) x sources =
     bindS (call E v x) (\<lambda>x'. extras_loop E vs x' (sources @ [x']))"

text \<open>
  The loop over \<open>zip(sources, self.loc, self.conf)\<close> (lines 74-76): it ends with the
  shortest of the three lists.
\<close>

fun head_loop ::
  "'a engine \<Rightarrow> int \<Rightarrow> 'a tensor list \<Rightarrow> ('a, 's) module list \<Rightarrow> ('a, 's) module list
     \<Rightarrow> 'a tensor list \<Rightarrow> 'a tensor list \<Rightarrow> ('s, 'a tensor list \<times> 'a tensor list) action" where
  "head_loop E nc (x # xs) (l # ls) (c # cs) loc' conf' =
     bindS (call E l x) (\<lambda>lx.
     bindS (liftS (size0 x)) (\<lambda>b.
     bindS (liftS (view lx b 4)) (\<lambda>lv.
     bindS (call E c x) (\<lambda>cx.
     bindS (liftS (size0 x)) (\<lambda>b'.
     bindS (liftS (view cx b' nc)) (\<lambda>cv.
       head_loop E nc xs ls cs (loc' @ [lv]) (conf' @ [cv])))))))"
| "head_loop E nc xs ls cs loc' conf' = returnS (loc', conf')"

text \<open>Lines 57-68 of forward: the sources.\<close>

definition forward_sources ::
  "'a engine \<Rightarrow> ('a, 's) SSD \<Rightarrow> 'a tensor \<Rightarrow> ('s, 'a tensor list) action" where
  "forward_sources E d x =
     bindS (base_loop E (feature_layer d) (base d) 0 x []) (\<lambda>(x1, sources1).
     bindS (extras_loop E (extras d) x1 sources1) (\<lambda>(x2, sources2).
       returnS sources2))"

text \<open>Lines 73-80 of forward: the heads, the two concatenations, the result.\<close>

definition forward_heads ::
  "'a engine \<Rightarrow> ('a, 's) SSD \<Rightarrow> 'a tensor list \<Rightarrow> ('s, 'a forward_result) action" where
  "forward_heads E d sources =
     bindS (head_loop E (num_classes d) sources (loc d) (conf d) [] []) (\<lambda>(loc', conf').
     bindS (liftS (cat2 loc')) (\<lambda>lt.
     bindS (liftS (cat2 conf')) (\<lambda>ct.
       returnS (Heads (contiguous lt) (contiguous ct)))))"

text \<open>
  \<open>SSD.forward\<close>. The mode is compared with \<open>'feature'\<close> and with nothing else; a
  caller that passes none gets \<open>'eval'\<close>.
\<close>

definition forward ::
  "'a engine \<Rightarrow> ('a, 's) SSD \<Rightarrow> 'a tensor \<Rightarrow> string \<Rightarrow> ('s, 'a forward_result) action" where
  "forward E d x phase =
     bindS (forward_sources E d x) (\<lambda>sources.
       if phase = ''feature'' then returnS (Sources sources)
       else forward_heads E d sources)"

text \<open>
  A call \<open>self.forward(x, phase)\<close> on the object and the state of its modules. Forward
  reads the attributes of \<open>self\<close> and assigns none: no statement of lines 57-80 has an
  attribute on its left side, and \<open>sources\<close>, \<open>loc\<close> and \<open>conf\<close> are local lists,
  empty at line 57 of every call. So the object after the call is the object before it,
  whatever the modules did to their own state.
\<close>

record ('a, 's) heap =
  detector :: "('a, 's) SSD"
  module_state :: 's

definition forward_call ::
  "'a engine \<Rightarrow> 'a tensor \<Rightarrow> string \<Rightarrow> ('a, 's) heap \<Rightarrow> (error + 'a forward_result) \<times> ('a, 's) heap" where
  "forward_call E x phase h =
     (case forward E (detector h) x phase (module_state h) of
        (r, s') \<Rightarrow> (r, h\<lparr>module_state := s'\<rparr>))"

subsection \<open>The builder\<close>

text \<open>
  \<open>parse_feature_layer(layer, in_channels, depth)\<close> is imported from another file and is
  a parameter here: it returns the modules of one extra layer, or raises.
  \<open>in_channels\<close> is \<open>None\<close> for the first entry.
\<close>

type_synonym ('a, 's) parser = "layer \<Rightarrow> int option \<Rightarrow> int \<Rightarrow> error + ('a, 's) module list"

text \<open>
  The loop of \<open>add_extras\<close> over \<open>zip(feature_layer[0], feature_layer[1], mbox)\<close>
  (lines 88-93).
\<close>

fun add_extras_loop ::
  "('a, 's) parser \<Rightarrow> int \<Rightarrow> layer list \<Rightarrow> int list \<Rightarrow> int list \<Rightarrow> int option
     \<Rightarrow> ('a, 's) module list \<times> ('a, 's) module list \<times> ('a, 's) module list
     \<Rightarrow> error + ('a, 's) module list \<times> ('a, 's) module list \<times> ('a, 's) module list" where
  "add_extras_loop P nc (layer # ls) (depth # ds) (box # bs) in_ch (extra_layers, loc_layers, conf_layers) =
     (case P layer in_ch depth of
        Inl e \<Rightarrow> Inl e
      | Inr stages \<Rightarrow>
          (case nn_Conv2d depth (box * 4) 3 1 of
             Inl e \<Rightarrow> Inl e
           | Inr l \<Rightarrow>
               (case nn_Conv2d depth (box * nc) 3 1 of
                  Inl e \<Rightarrow> Inl e
                | Inr c \<Rightarrow>
                    add_extras_loop P nc ls ds bs (Some depth)
                      (extra_layers @ stages, loc_layers @ [l], conf_layers @ [c]))))"
| "add_extras_loop P nc ls ds bs in_ch acc = Inr acc"

definition add_extras ::
  "('a, 's) parser \<Rightarrow> ('a, 's) module list \<Rightarrow> layer list \<times> int list \<Rightarrow> int list \<Rightarrow> int
     \<Rightarrow> error + ('a, 's) module list \<times> ('a, 's) module list
                 \<times> (('a, 's) module list \<times> ('a, 's) module list)" where
  "add_extras P base' feature_layer' mbox nc =
     (case add_extras_loop P nc (fst feature_layer') (snd feature_layer') mbox None ([], [], []) of
        Inl e \<Rightarrow> Inl e
      | Inr (extra_layers, loc_layers, conf_layers) \<Rightarrow>
          Inr (base', extra_layers, (loc_layers, conf_layers)))"

text \<open>\<open>build_ssd\<close>; \<open>base\<close> is the factory of the base layers.\<close>

definition build_ssd ::
  "('a, 's) parser \<Rightarrow> (unit \<Rightarrow> error + ('a, 's) module list) \<Rightarrow> layer list \<times> int list
     \<Rightarrow> int list \<Rightarrow> int \<Rightarrow> error + ('a, 's) SSD" where
  "build_ssd P base_factory feature_layer' mbox nc =
     (case base_factory () of
        Inl e \<Rightarrow> Inl e
      | Inr b \<Rightarrow>
          (case add_extras P b feature_layer' mbox nc of
             Inl e \<Rightarrow> Inl e
           | Inr (base', extras', head') \<Rightarrow>
               Inr (SSD_init base' extras' head' feature_layer' nc)))"

subsection \<open>Notions used to state the properties\<close>

text \<open>
  A channel count the constructor of a convolution takes: not negative and within 64
  bits, signed.
\<close>

definition channels_ok :: "int \<Rightarrow> bool" where
  "channels_ok v \<longleftrightarrow> 0 \<le> v \<and> v < 2 ^ 63"

text \<open>
  The value of the variable \<open>in_channels\<close> of \<open>add_extras\<close> when the parser is called
  for entry \<open>i\<close>: its start value at the first entry, the depth of the entry before
  otherwise.
\<close>

definition in_channels_at :: "int option \<Rightarrow> int list \<Rightarrow> nat \<Rightarrow> int option" where
  "in_channels_at start ds i = (if i = 0 then start else Some (ds ! (i - 1)))"

text \<open>
  The outputs of modules applied one after the other, the first to \<open>x\<close> and each other
  to the output of the one before, in order.
\<close>

fun outputs :: "'a engine \<Rightarrow> ('a, 's) module list \<Rightarrow> 'a tensor \<Rightarrow> ('s, 'a tensor list) action" where
  "outputs E [] x = returnS []"
| "outputs E (m # ms) x =
     bindS (call E m x) (\<lambda>y. bindS (outputs E ms y) (\<lambda>ys. returnS (y # ys)))"

text \<open>The base-layer indices listed in \<open>feature_layer[0]\<close>, in order.\<close>

definition base_taps :: "layer list \<Rightarrow> int list" where
  "base_taps fl = concat (map (\<lambda>l. case l of Index k \<Rightarrow> [k] | Name _ \<Rightarrow> []) fl)"

subsection \<open>A small detector for concrete runs\<close>

text \<open>
  Elements are natural numbers and the state is a counter. \<open>resize\<close> stands for a layer
  that maps a batch to \<open>ch\<close> channels of \<open>h\<close> by \<open>w\<close> positions; \<open>counting\<close>
  returns its input and counts its calls in the state. The engine computes zeros, as many
  as a convolution of stride 1 that keeps the positions produces, and lays every output
  out densely.
\<close>

definition resize :: "nat \<Rightarrow> nat \<Rightarrow> nat \<Rightarrow> (nat, nat) module" where
  "resize ch h w =
     Custom (\<lambda>x s. (case shape x of
                       [] \<Rightarrow> Inl RuntimeError
                     | b # _ \<Rightarrow> Inr \<lparr>shape = [b, ch, h, w],
                                     strides = contiguous_strides [b, ch, h, w],
                                     elems = replicate (b * ch * h * w) 0\<rparr>, s))"

definition counting :: "(nat, nat) module" where
  "counting = Custom (\<lambda>x s. (Inr x, Suc s))"

definition zero_engine :: "nat engine" where
  "zero_engine =
     \<lparr>conv2d_values = (\<lambda>c x. replicate (numel x div in_channels c * out_channels c) 0),
      conv2d_channels_last = (\<lambda>c x. False),
      softmax_values = (\<lambda>dim x. elems x)\<rparr>"

text \<open>
  Layer parsers: an index adds no layer; a name adds one layer of the given depth
  (\<open>sample_parser\<close>) or two (\<open>twofold_parser\<close>); \<open>failing_parser\<close> raises.
\<close>

definition sample_parser :: "(nat, nat) parser" where
  "sample_parser l i depth =
     (case l of
        Index k \<Rightarrow> Inr []
      | Name n \<Rightarrow> if depth < 0 then Inl (Raised ''depth'') else Inr [resize (nat depth) 1 1])"

definition twofold_parser :: "(nat, nat) parser" where
  "twofold_parser l i depth =
     (case l of
        Index k \<Rightarrow> Inr []
      | Name n \<Rightarrow> if depth < 0 then Inl (Raised ''depth'')
                  else Inr [resize (nat depth) 2 2, resize (nat depth) 1 1])"

definition failing_parser :: "(nat, nat) parser" where
  "failing_parser l i depth = Inl (Raised ''parser'')"

definition sample_base :: "unit \<Rightarrow> error + (nat, nat) module list" where
  "sample_base u = Inr [resize 2 4 4, resize 2 2 2]"

definition sample_input :: "nat tensor" where
  "sample_input = \<lparr>shape = [1, 3, 4, 4], strides = [48, 16, 4, 1], elems = replicate 48 0\<rparr>"

text \<open>
  The detectors \<open>build_ssd\<close> returns for the feature layers \<open>[[1, 'S'], [2, 3]]\<close>, box
  counts \<open>[1, 2]\<close> and two classes, with each of the two parsers.
\<close>

definition sample_ssd :: "(nat, nat) SSD" where
  "sample_ssd = SSD_init [resize 2 4 4, resize 2 2 2] [resize 3 1 1]
     ([Conv2d \<lparr>in_channels = 2, out_channels = 4, kernel_size = 3, padding = 1\<rparr>,
       Conv2d \<lparr>in_channels = 3, out_channels = 8, kernel_size = 3, padding = 1\<rparr>],
      [Conv2d \<lparr>in_channels = 2, out_channels = 2, kernel_size = 3, padding = 1\<rparr>,
       Conv2d \<lparr>in_channels = 3, out_channels = 4, kernel_size = 3, padding = 1\<rparr>])
     ([Index 1, Name ''S''], [2, 3]) 2"

definition twofold_ssd :: "(nat, nat) SSD" where
  "twofold_ssd = SSD_init [resize 2 4 4, resize 2 2 2] [resize 3 2 2, resize 3 1 1]
     ([Conv2d \<lparr>in_channels = 2, out_channels = 4, kernel_size = 3, padding = 1\<rparr>,
       Conv2d \<lparr>in_channels = 3, out_channels = 8, kernel_size = 3, padding = 1\<rparr>],
      [Conv2d \<lparr>in_channels = 2, out_channels = 2, kernel_size = 3, padding = 1\<rparr>,
       Conv2d \<lparr>in_channels = 3, out_channels = 4, kernel_size = 3, padding = 1\<rparr>])
     ([Index 1, Name ''S''], [2, 3]) 2"

text \<open>
  The detector \<open>build_ssd\<close> returns for the feature layers \<open>[[1], [2]]\<close> and no box
  count: one source, no heads.
\<close>

definition headless_ssd :: "(nat, nat) SSD" where
  "headless_ssd = SSD_init [resize 2 4 4, resize 2 2 2] [] ([], []) ([Index 1], [2]) 2"

text \<open>
  The detector \<open>build_ssd\<close> returns with \<open>twofold_parser\<close> for the feature layers
  \<open>[[1, 'S', 'S'], [2, 3, 4]]\<close> and box counts \<open>[1, 2, 2]\<close>: five sources, three pairs of
  heads, and the third pair meets the second output of the first named layer.
\<close>

definition fivefold_ssd :: "(nat, nat) SSD" where
  "fivefold_ssd = SSD_init [resize 2 4 4, resize 2 2 2]
     [resize 3 2 2, resize 3 1 1, resize 4 2 2, resize 4 1 1]
     ([Conv2d \<lparr>in_channels = 2, out_channels = 4, kernel_size = 3, padding = 1\<rparr>,
       Conv2d \<lparr>in_channels = 3, out_channels = 8, kernel_size = 3, padding = 1\<rparr>,
       Conv2d \<lparr>in_channels = 4, out_channels = 8, kernel_size = 3, padding = 1\<rparr>],
      [Conv2d \<lparr>in_channels = 2, out_channels = 2, kernel_size = 3, padding = 1\<rparr>,
       Conv2d \<lparr>in_channels = 3, out_channels = 4, kernel_size = 3, padding = 1\<rparr>,
       Conv2d \<lparr>in_channels = 4, out_channels = 4, kernel_size = 3, padding = 1\<rparr>])
     ([Index 1, Name ''S'', Name ''S''], [2, 3, 4]) 2"

section \<open>Properties of the loops and of the tensor operations\<close>

subsection \<open>Sequencing\<close>

lemma bindS_returnS [simp]: "bindS (returnS v) f = f v"
  by (simp add: bindS_def returnS_def fun_eq_iff)

lemma bindS_apply_Inr: "m s = (Inr v, s') \<Longrightarrow> bindS m f s = f v s'"
  by (simp add: bindS_def)

lemma bindS_apply_Inl: "m s = (Inl e, s') \<Longrightarrow> bindS m f s = (Inl e, s')"
  by (simp add: bindS_def)

lemma bindS_Inr_iff:
  "bindS m f s = (Inr r, t) \<longleftrightarrow> (\<exists>v s'. m s = (Inr v, s') \<and> f v s' = (Inr r, t))"
  by (auto simp: bindS_def split: prod.splits sum.splits)

lemma liftS_apply [simp]: "liftS r s = (r, s)"
  by (simp add: liftS_def)

lemma returnS_apply [simp]: "returnS v s = (Inr v, s)"
  by (simp add: returnS_def)

subsection \<open>How many sources and head outputs the loops collect\<close>

lemma base_loop_length:
  "base_loop E fl ms k x srcs s = (Inr (x', srcs'), s') \<Longrightarrow>
   length srcs' = length srcs + length (filter (\<lambda>j. Index (int j) \<in> set fl) [k..<k + length ms])"
proof (induction ms arbitrary: k x srcs s)
  case Nil
  then show ?case by simp
next
  case (Cons m ms)
  from Cons.prems obtain x1 s1 where
    c: "call E m x s = (Inr x1, s1)" and
    r: "base_loop E fl ms (Suc k) x1 (if Index (int k) \<in> set fl then srcs @ [x1] else srcs) s1 = (Inr (x', srcs'), s')"
    by (auto simp: bindS_Inr_iff)
  have "[k..<k + length (m # ms)] = k # [Suc k..<Suc k + length ms]"
    by (subst upt_rec) simp
  with Cons.IH [OF r] show ?case by simp
qed

lemma extras_loop_length:
  "extras_loop E vs x srcs s = (Inr (x', srcs'), s') \<Longrightarrow> length srcs' = length srcs + length vs"
proof (induction vs arbitrary: x srcs s)
  case Nil
  then show ?case by simp
next
  case (Cons v vs)
  from Cons.prems obtain x1 s1 where
    r: "extras_loop E vs x1 (srcs @ [x1]) s1 = (Inr (x', srcs'), s')"
    by (auto simp: bindS_Inr_iff)
  from Cons.IH [OF r] show ?case by simp
qed

lemma forward_sources_length:
  assumes "forward_sources E d x s = (Inr srcs, s')"
  shows "length srcs = length (filter (\<lambda>j. Index (int j) \<in> set (feature_layer d)) [0..<length (base d)]) + length (extras d)"
proof -
  from assms obtain x1 s1 srcs1 x2 where
    b: "base_loop E (feature_layer d) (base d) 0 x [] s = (Inr (x1, srcs1), s1)" and
    e: "extras_loop E (extras d) x1 srcs1 s1 = (Inr (x2, srcs), s')"
    by (auto simp: forward_sources_def bindS_Inr_iff)
  from base_loop_length [OF b] extras_loop_length [OF e] show ?thesis by simp
qed

lemma head_loop_take:
  "head_loop E nc xs ls cs lo co =
   head_loop E nc (take (min (length xs) (min (length ls) (length cs))) xs)
     (take (min (length xs) (min (length ls) (length cs))) ls)
     (take (min (length xs) (min (length ls) (length cs))) cs) lo co"
proof (induction E nc xs ls cs lo co rule: head_loop.induct)
  case (1 E nc x xs l ls c cs lo co)
  then show ?case by simp
qed simp_all

lemma head_loop_length:
  "head_loop E nc xs ls cs lo co s = (Inr (lo', co'), s') \<Longrightarrow>
   length lo' = length lo + min (length xs) (min (length ls) (length cs)) \<and>
   length co' = length co + min (length xs) (min (length ls) (length cs))"
proof (induction E nc xs ls cs lo co arbitrary: s rule: head_loop.induct)
  case (1 E nc x xs l ls c cs lo co)
  from "1.prems" obtain lv cv s1 where
    r: "head_loop E nc xs ls cs (lo @ [lv]) (co @ [cv]) s1 = (Inr (lo', co'), s')"
    by (auto simp: bindS_Inr_iff)
  from "1.IH" [OF r] show ?case by simp
qed simp_all

subsection \<open>Modules that leave the state alone\<close>

text \<open>If no module called changes the state, no loop does, and forward does not.\<close>

lemma base_loop_state:
  "\<forall>m\<in>set ms. \<forall>x s. snd (call E m x s) = s \<Longrightarrow> snd (base_loop E fl ms k x srcs s) = s"
proof (induction ms arbitrary: k x srcs)
  case Nil
  then show ?case by simp
next
  case (Cons m ms)
  have c: "snd (call E m x s) = s" using Cons.prems by simp
  have r: "\<And>k x srcs. snd (base_loop E fl ms k x srcs s) = s"
    using Cons.IH Cons.prems by simp
  show ?case
  proof (cases "fst (call E m x s)")
    case (Inl e)
    with c have "call E m x s = (Inl e, s)" by (metis prod.collapse)
    then show ?thesis by (simp add: bindS_apply_Inl)
  next
    case (Inr x1)
    with c have "call E m x s = (Inr x1, s)" by (metis prod.collapse)
    then show ?thesis by (simp add: bindS_apply_Inr r)
  qed
qed

lemma extras_loop_state:
  "\<forall>m\<in>set vs. \<forall>x s. snd (call E m x s) = s \<Longrightarrow> snd (extras_loop E vs x srcs s) = s"
proof (induction vs arbitrary: x srcs)
  case Nil
  then show ?case by simp
next
  case (Cons m ms)
  have c: "snd (call E m x s) = s" using Cons.prems by simp
  have r: "\<And>x srcs. snd (extras_loop E ms x srcs s) = s"
    using Cons.IH Cons.prems by simp
  show ?case
  proof (cases "fst (call E m x s)")
    case (Inl e)
    with c have "call E m x s = (Inl e, s)" by (metis prod.collapse)
    then show ?thesis by (simp add: bindS_apply_Inl)
  next
    case (Inr x1)
    with c have "call E m x s = (Inr x1, s)" by (metis prod.collapse)
    then show ?thesis by (simp add: bindS_apply_Inr r)
  qed
qed

lemma bindS_state:
  assumes "snd (m s) = s" and "\<And>v. snd (f v s) = s"
  shows "snd (bindS m f s) = s"
  using assms by (cases "m s") (auto simp: bindS_def split: sum.splits)

lemma head_loop_state:
  "\<forall>m\<in>set ls \<union> set cs. \<forall>x s. snd (call E m x s) = s \<Longrightarrow>
   snd (head_loop E nc xs ls cs lo co s) = s"
proof (induction E nc xs ls cs lo co rule: head_loop.induct)
  case (1 E nc x xs l ls c cs lo co)
  have cl: "\<And>y. snd (call E l y s) = s" and cc: "\<And>y. snd (call E c y s) = s"
    using "1.prems" by simp_all
  have r: "\<And>lv cv. snd (head_loop E nc xs ls cs (lo @ [lv]) (co @ [cv]) s) = s"
    using "1.IH" "1.prems" by simp
  show ?case
    by (simp del: liftS_apply add: cl cc r bindS_state liftS_def)
qed simp_all

lemma forward_sources_state:
  assumes "\<forall>m\<in>set (base d) \<union> set (extras d). \<forall>x s. snd (call E m x s) = s"
  shows "snd (forward_sources E d x s) = s"
  unfolding forward_sources_def
  using assms by (auto intro!: bindS_state simp: base_loop_state extras_loop_state)

lemma forward_heads_state:
  assumes "\<forall>m\<in>set (loc d) \<union> set (conf d). \<forall>x s. snd (call E m x s) = s"
  shows "snd (forward_heads E d srcs s) = s"
  unfolding forward_heads_def
  using assms by (auto intro!: bindS_state simp: head_loop_state)

lemma forward_state:
  assumes "\<forall>m\<in>set (base d) \<union> set (extras d) \<union> set (loc d) \<union> set (conf d). \<forall>x s. snd (call E m x s) = s"
  shows "snd (forward E d x phase s) = s"
  unfolding forward_def
  using assms by (auto intro!: bindS_state simp: forward_sources_state forward_heads_state)


subsection \<open>Counting the base layers that are sources\<close>

lemma set_base_taps: "set (base_taps fl) = {k. Index k \<in> set fl}"
  by (induction fl) (auto simp: base_taps_def split: layer.splits)

lemma tapped_count:
  assumes "distinct (base_taps fl)" and "\<forall>k\<in>set (base_taps fl). 0 \<le> k \<and> k < int n"
  shows "length (filter (\<lambda>j. Index (int j) \<in> set fl) [0..<n]) = length (base_taps fl)"
proof -
  have "length (filter (\<lambda>j. Index (int j) \<in> set fl) [0..<n])
        = card {i. i < n \<and> Index (int ([0..<n] ! i)) \<in> set fl}"
    by (simp add: length_filter_conv_card)
  also have "{i. i < n \<and> Index (int ([0..<n] ! i)) \<in> set fl} = {j. j < n \<and> Index (int j) \<in> set fl}"
    by auto
  also have "{j. j < n \<and> Index (int j) \<in> set fl} = nat ` set (base_taps fl)"
  proof (intro set_eqI iffI)
    fix j assume "j \<in> {j. j < n \<and> Index (int j) \<in> set fl}"
    then have "int j \<in> set (base_taps fl)" by (simp add: set_base_taps)
    then have "nat (int j) \<in> nat ` set (base_taps fl)" by (rule imageI)
    then show "j \<in> nat ` set (base_taps fl)" by simp
  next
    fix j assume "j \<in> nat ` set (base_taps fl)"
    then obtain k where k: "k \<in> set (base_taps fl)" "j = nat k" by auto
    with assms(2) have "0 \<le> k" "k < int n" by auto
    with k show "j \<in> {j. j < n \<and> Index (int j) \<in> set fl}"
      by (auto simp: set_base_taps)
  qed
  also have "card (nat ` set (base_taps fl)) = card (set (base_taps fl))"
  proof (rule card_image)
    show "inj_on nat (set (base_taps fl))"
      using assms(2) by (meson inj_onI nat_eq_iff2 order.refl eq_nat_nat_iff)
  qed
  also have "\<dots> = length (base_taps fl)"
    using assms(1) by (simp add: distinct_card)
  finally show ?thesis .
qed

lemma length_concat_stages:
  "length (concat sts) = sum_list (map length sts)"
  by (induction sts) auto

subsection \<open>What the builder returns, and what it raises\<close>

lemma nn_Conv2d_Inr:
  "nn_Conv2d i out k p = Inr m \<longleftrightarrow>
   channels_ok i \<and> channels_ok out \<and>
   m = Conv2d \<lparr>in_channels = nat i, out_channels = nat out, kernel_size = k, padding = p\<rparr>"
  by (auto simp: nn_Conv2d_def channels_ok_def fits64_def)

lemma nn_Conv2d_Inl:
  "nn_Conv2d i out k p = Inl e \<longleftrightarrow>
   (\<not> fits64 i \<or> \<not> fits64 out) \<and> e = TypeError \<or>
   fits64 i \<and> fits64 out \<and> (i < 0 \<or> out < 0) \<and> e = RuntimeError"
  by (auto simp: nn_Conv2d_def)

lemma nn_Conv2d_cases:
  "(\<exists>e. (nn_Conv2d i out k p :: error + ('a, 's) module) = Inl e) \<or> channels_ok i \<and> channels_ok out"
  by (auto simp: nn_Conv2d_def channels_ok_def fits64_def)

lemma in_channels_at_Suc:
  "in_channels_at inch (depth # ds) (Suc i) = in_channels_at (Some depth) ds i"
  by (cases i) (simp_all add: in_channels_at_def)

lemma in_channels_at_0: "in_channels_at inch ds 0 = inch"
  by (simp add: in_channels_at_def)

text \<open>When the loop of the builder returns.\<close>

lemma add_extras_loop_Inr:
  "add_extras_loop P nc ls ds bs inch (ex, lo, co) = Inr (ex', lo', co') \<Longrightarrow>
   (\<exists>sts. length sts = min (length ls) (min (length ds) (length bs)) \<and>
      ex' = ex @ concat sts \<and>
      (\<forall>i<length sts. P (ls ! i) (in_channels_at inch ds i) (ds ! i) = Inr (sts ! i))) \<and>
   lo' = lo @ map (\<lambda>i. Conv2d \<lparr>in_channels = nat (ds ! i), out_channels = nat (bs ! i * 4),
                                kernel_size = 3, padding = 1\<rparr>)
                 [0..<min (length ls) (min (length ds) (length bs))] \<and>
   co' = co @ map (\<lambda>i. Conv2d \<lparr>in_channels = nat (ds ! i), out_channels = nat (bs ! i * nc),
                                kernel_size = 3, padding = 1\<rparr>)
                 [0..<min (length ls) (min (length ds) (length bs))] \<and>
   (\<forall>i<min (length ls) (min (length ds) (length bs)).
      channels_ok (ds ! i) \<and> channels_ok (bs ! i * 4) \<and> channels_ok (bs ! i * nc))"
proof (induction P nc ls ds bs inch "(ex, lo, co)" arbitrary: ex lo co rule: add_extras_loop.induct)
  case (1 P nc layer ls depth ds box bs in_ch extra_layers loc_layers conf_layers)
  let ?n = "min (length ls) (min (length ds) (length bs))"
  from "1.prems" obtain stages l c where
    p: "P layer in_ch depth = Inr stages" and
    l: "nn_Conv2d depth (box * 4) 3 1 = Inr l" and
    c: "nn_Conv2d depth (box * nc) 3 1 = Inr c" and
    r: "add_extras_loop P nc ls ds bs (Some depth)
          (extra_layers @ stages, loc_layers @ [l], conf_layers @ [c]) = Inr (ex', lo', co')"
    by (auto split: sum.splits)
  note ih = "1.hyps" [OF p l c r]
  from ih obtain sts where
    sts: "length sts = ?n" "ex' = (extra_layers @ stages) @ concat sts"
      "\<forall>i<length sts. P (ls ! i) (in_channels_at (Some depth) ds i) (ds ! i) = Inr (sts ! i)"
    by blast
  have ok0: "channels_ok depth" "channels_ok (box * 4)" "channels_ok (box * nc)"
    and lv: "l = Conv2d \<lparr>in_channels = nat depth, out_channels = nat (box * 4), kernel_size = 3, padding = 1\<rparr>"
    and cv: "c = Conv2d \<lparr>in_channels = nat depth, out_channels = nat (box * nc), kernel_size = 3, padding = 1\<rparr>"
    using l c by (simp_all add: nn_Conv2d_Inr)
  have up: "[0..<Suc ?n] = 0 # map Suc [0..<?n]"
    by (simp add: upt_conv_Cons map_Suc_upt del: upt_Suc)
  have A: "\<exists>sts'. length sts' = min (length (layer # ls)) (min (length (depth # ds)) (length (box # bs))) \<and>
      ex' = extra_layers @ concat sts' \<and>
      (\<forall>i<length sts'. P ((layer # ls) ! i) (in_channels_at in_ch (depth # ds) i) ((depth # ds) ! i) = Inr (sts' ! i))"
  proof (intro exI [of _ "stages # sts"] conjI allI impI)
    show "length (stages # sts) = min (length (layer # ls)) (min (length (depth # ds)) (length (box # bs)))"
      using sts(1) by simp
    show "ex' = extra_layers @ concat (stages # sts)" using sts(2) by simp
    fix i assume i: "i < length (stages # sts)"
    show "P ((layer # ls) ! i) (in_channels_at in_ch (depth # ds) i) ((depth # ds) ! i) = Inr ((stages # sts) ! i)"
    proof (cases i)
      case 0
      then show ?thesis using p by (simp add: in_channels_at_0)
    next
      case (Suc j)
      with i have j: "j < length sts" by simp
      with sts(3) Suc show ?thesis by (simp add: in_channels_at_Suc)
    qed
  qed
  have B: "lo' = loc_layers @ map (\<lambda>i. Conv2d \<lparr>in_channels = nat ((depth # ds) ! i), out_channels = nat ((box # bs) ! i * 4),
                                kernel_size = 3, padding = 1\<rparr>) [0..<Suc ?n]"
    using ih lv unfolding up by (simp add: comp_def)
  have C: "co' = conf_layers @ map (\<lambda>i. Conv2d \<lparr>in_channels = nat ((depth # ds) ! i), out_channels = nat ((box # bs) ! i * nc),
                                kernel_size = 3, padding = 1\<rparr>) [0..<Suc ?n]"
    using ih cv unfolding up by (simp add: comp_def)
  have D: "\<forall>i<Suc ?n. channels_ok ((depth # ds) ! i) \<and> channels_ok ((box # bs) ! i * 4) \<and> channels_ok ((box # bs) ! i * nc)"
  proof (intro allI impI)
    fix i assume i: "i < Suc ?n"
    show "channels_ok ((depth # ds) ! i) \<and> channels_ok ((box # bs) ! i * 4) \<and> channels_ok ((box # bs) ! i * nc)"
    proof (cases i)
      case 0
      then show ?thesis using ok0 by simp
    next
      case (Suc j)
      with i have "j < ?n" by simp
      with ih Suc show ?thesis by simp
    qed
  qed
  have m: "min (length (layer # ls)) (min (length (depth # ds)) (length (box # bs))) = Suc ?n"
    by simp
  from A B C D show ?case unfolding m by blast
qed simp_all

text \<open>When the loop of the builder returns: sufficient conditions.\<close>

lemma add_extras_loop_succeeds:
  assumes "\<forall>i<min (length ls) (min (length ds) (length bs)).
             (\<exists>ms. P (ls ! i) (in_channels_at inch ds i) (ds ! i) = Inr ms) \<and>
             channels_ok (ds ! i) \<and> channels_ok (bs ! i * 4) \<and> channels_ok (bs ! i * nc)"
  shows "\<exists>r. add_extras_loop P nc ls ds bs inch acc = Inr r"
  using assms
proof (induction P nc ls ds bs inch acc rule: add_extras_loop.induct)
  case (1 P nc layer ls depth ds box bs in_ch extra_layers loc_layers conf_layers)
  let ?n = "min (length ls) (min (length ds) (length bs))"
  from "1.prems" [rule_format, of 0] obtain stages where
    p: "P layer in_ch depth = Inr stages" and
    nn: "channels_ok depth" "channels_ok (box * 4)" "channels_ok (box * nc)"
    by (auto simp: in_channels_at_0)
  obtain l c :: "('a, 'b) module" where
    l: "nn_Conv2d depth (box * 4) 3 1 = Inr l" and c: "nn_Conv2d depth (box * nc) 3 1 = Inr c"
    using nn by (simp add: nn_Conv2d_Inr)
  have "\<forall>i<?n. (\<exists>ms. P (ls ! i) (in_channels_at (Some depth) ds i) (ds ! i) = Inr ms) \<and>
             channels_ok (ds ! i) \<and> channels_ok (bs ! i * 4) \<and> channels_ok (bs ! i * nc)"
  proof (intro allI impI)
    fix i assume i: "i < ?n"
    with "1.prems" [rule_format, of "Suc i"]
    show "(\<exists>ms. P (ls ! i) (in_channels_at (Some depth) ds i) (ds ! i) = Inr ms) \<and>
             channels_ok (ds ! i) \<and> channels_ok (bs ! i * 4) \<and> channels_ok (bs ! i * nc)"
      by (simp add: in_channels_at_Suc)
  qed
  from "1.IH" [OF p l c this] show ?case using p l c by simp
qed (simp_all, (metis prod_cases3)+)

text \<open>
  When the loop of the builder raises: at the first entry where the parser or a
  constructor does, after the parser and the constructors returned on the entries before
  and, for a constructor, after the parser returned on this entry.
\<close>

lemma add_extras_loop_Inl:
  "add_extras_loop P nc ls ds bs inch acc = Inl e \<Longrightarrow>
   \<exists>j<min (length ls) (min (length ds) (length bs)).
     (\<forall>i<j. (\<exists>ms. P (ls ! i) (in_channels_at inch ds i) (ds ! i) = Inr ms) \<and>
             channels_ok (ds ! i) \<and> channels_ok (bs ! i * 4) \<and> channels_ok (bs ! i * nc)) \<and>
     (P (ls ! j) (in_channels_at inch ds j) (ds ! j) = Inl e \<or>
      (\<exists>ms. P (ls ! j) (in_channels_at inch ds j) (ds ! j) = Inr ms) \<and>
      ((nn_Conv2d (ds ! j) (bs ! j * 4) 3 1 :: error + ('a, 's) module) = Inl e \<or>
       channels_ok (bs ! j * 4) \<and>
       (nn_Conv2d (ds ! j) (bs ! j * nc) 3 1 :: error + ('a, 's) module) = Inl e))"
  for P :: "('a, 's) parser"
proof (induction P nc ls ds bs inch acc rule: add_extras_loop.induct)
  case (1 P nc layer ls depth ds box bs in_ch extra_layers loc_layers conf_layers)
  let ?n = "min (length ls) (min (length ds) (length bs))"
  let ?goal = "\<lambda>j. (\<forall>i<j. (\<exists>ms. P ((layer # ls) ! i) (in_channels_at in_ch (depth # ds) i) ((depth # ds) ! i) = Inr ms) \<and>
             channels_ok ((depth # ds) ! i) \<and> channels_ok ((box # bs) ! i * 4) \<and> channels_ok ((box # bs) ! i * nc)) \<and>
     (P ((layer # ls) ! j) (in_channels_at in_ch (depth # ds) j) ((depth # ds) ! j) = Inl e \<or>
      (\<exists>ms. P ((layer # ls) ! j) (in_channels_at in_ch (depth # ds) j) ((depth # ds) ! j) = Inr ms) \<and>
      ((nn_Conv2d ((depth # ds) ! j) ((box # bs) ! j * 4) 3 1 :: error + ('a, 's) module) = Inl e \<or>
       channels_ok ((box # bs) ! j * 4) \<and>
       (nn_Conv2d ((depth # ds) ! j) ((box # bs) ! j * nc) 3 1 :: error + ('a, 's) module) = Inl e))"
  have m: "min (length (layer # ls)) (min (length (depth # ds)) (length (box # bs))) = Suc ?n"
    by simp
  show ?case unfolding m
  proof (cases "P layer in_ch depth")
    case (Inl e')
    with "1.prems" have "e' = e" by simp
    with Inl have "?goal 0" by (simp add: in_channels_at_0)
    then show "\<exists>j<Suc ?n. ?goal j" by blast
  next
    case p: (Inr stages)
    show "\<exists>j<Suc ?n. ?goal j"
    proof (cases "nn_Conv2d depth (box * 4) 3 1 :: error + ('a, 's) module")
      case (Inl e')
      with "1.prems" p have "e' = e" by simp
      with Inl p have "?goal 0" by (simp add: in_channels_at_0)
      then show ?thesis by blast
    next
      case l: (Inr l)
      show ?thesis
      proof (cases "nn_Conv2d depth (box * nc) 3 1 :: error + ('a, 's) module")
        case (Inl e')
        with "1.prems" p l have "e' = e" by simp
        moreover have "channels_ok (box * 4)" using l by (simp add: nn_Conv2d_Inr)
        ultimately have "?goal 0" using Inl p by (simp add: in_channels_at_0)
        then show ?thesis by blast
      next
        case c: (Inr c)
        from "1.prems" p l c have
          r: "add_extras_loop P nc ls ds bs (Some depth)
                (extra_layers @ stages, loc_layers @ [l], conf_layers @ [c]) = Inl e"
          by simp
        from "1.IH" [OF p l c r] obtain j where
          j: "j < ?n" and
          before: "\<forall>i<j. (\<exists>ms. P (ls ! i) (in_channels_at (Some depth) ds i) (ds ! i) = Inr ms) \<and>
             channels_ok (ds ! i) \<and> channels_ok (bs ! i * 4) \<and> channels_ok (bs ! i * nc)" and
          at: "P (ls ! j) (in_channels_at (Some depth) ds j) (ds ! j) = Inl e \<or>
            (\<exists>ms. P (ls ! j) (in_channels_at (Some depth) ds j) (ds ! j) = Inr ms) \<and>
            ((nn_Conv2d (ds ! j) (bs ! j * 4) 3 1 :: error + ('a, 's) module) = Inl e \<or>
             channels_ok (bs ! j * 4) \<and>
             (nn_Conv2d (ds ! j) (bs ! j * nc) 3 1 :: error + ('a, 's) module) = Inl e)"
          by blast
        have ok0: "channels_ok depth" "channels_ok (box * 4)" "channels_ok (box * nc)"
          using l c by (simp_all add: nn_Conv2d_Inr)
        have "\<forall>i<Suc j. (\<exists>ms. P ((layer # ls) ! i) (in_channels_at in_ch (depth # ds) i) ((depth # ds) ! i) = Inr ms) \<and>
             channels_ok ((depth # ds) ! i) \<and> channels_ok ((box # bs) ! i * 4) \<and> channels_ok ((box # bs) ! i * nc)"
        proof (intro allI impI)
          fix i assume i: "i < Suc j"
          show "(\<exists>ms. P ((layer # ls) ! i) (in_channels_at in_ch (depth # ds) i) ((depth # ds) ! i) = Inr ms) \<and>
             channels_ok ((depth # ds) ! i) \<and> channels_ok ((box # bs) ! i * 4) \<and> channels_ok ((box # bs) ! i * nc)"
          proof (cases i)
            case 0
            then show ?thesis using p ok0 by (simp add: in_channels_at_0)
          next
            case (Suc k)
            with i have "k < j" by simp
            with before Suc show ?thesis by (simp add: in_channels_at_Suc)
          qed
        qed
        with at have "?goal (Suc j)" by (simp add: in_channels_at_Suc)
        with j show ?thesis by blast
      qed
    qed
  qed
qed simp_all

subsection \<open>Concatenation and contiguity\<close>

lemma chunks_nth: "r < k \<Longrightarrow> chunks k n xs ! r = take n (drop (r * n) xs)"
proof (induction k arbitrary: r xs)
  case 0
  then show ?case by simp
next
  case (Suc k)
  show ?case
  proof (cases r)
    case 0
    then show ?thesis by simp
  next
    case (Suc q)
    with Suc.prems have "q < k" by simp
    from Suc.IH [OF this, of "drop n xs"] Suc show ?thesis by (simp add: add.commute)
  qed
qed

lemma length_chunks [simp]: "length (chunks k n xs) = k"
  by (induction k arbitrary: xs) simp_all

text \<open>
  \<open>cat\<close> on tensors of three dimensions that agree in the first two: the dimensions,
  the dense layout and the elements of the result, row by row.
\<close>

lemma cat2_rank3:
  assumes "ts \<noteq> []" and "\<forall>t\<in>set ts. \<exists>n. shape t = [b, c, n]"
  shows "\<exists>t. cat2 ts = Inr t \<and>
           shape t = [b, c, sum_list (map (\<lambda>u. shape u ! 2) ts)] \<and>
           strides t = contiguous_strides [b, c, sum_list (map (\<lambda>u. shape u ! 2) ts)] \<and>
           elems t = concat (map (\<lambda>r. concat (map (\<lambda>u. take (shape u ! 2) (drop (r * (shape u ! 2)) (elems u))) ts))
                              [0..<b * c])"
proof -
  from assms(1) obtain t0 tr where ts: "ts = t0 # tr" by (cases ts) auto
  from assms(2) ts obtain n0 where t0: "shape t0 = [b, c, n0]" by auto
  have a: "list_all (\<lambda>u. length (shape u) = length (shape t0)) ts"
    using assms(2) t0 by (auto simp: list_all_iff)
  have b: "list_all (\<lambda>u. same_but_dim2 (shape u) (shape t0)) ts"
    using assms(2) t0 by (auto simp: list_all_iff same_but_dim2_def)
  have d2: "\<And>u. u \<in> set ts \<Longrightarrow> prod_list (drop 2 (shape u)) = shape u ! 2"
    using assms(2) by auto
  have rows: "map (\<lambda>r. concat (map (\<lambda>bl. bl ! r)
                  (map (\<lambda>u. chunks (b * c) (prod_list (drop 2 (shape u))) (elems u)) ts))) [0..<b * c] =
              map (\<lambda>r. concat (map (\<lambda>u. take (shape u ! 2) (drop (r * (shape u ! 2)) (elems u))) ts)) [0..<b * c]"
  proof (rule map_cong [OF refl])
    fix r assume "r \<in> set [0..<b * c]"
    then have r: "r < b * c" by simp
    have "map (\<lambda>bl. bl ! r) (map (\<lambda>u. chunks (b * c) (prod_list (drop 2 (shape u))) (elems u)) ts) =
          map (\<lambda>u. take (shape u ! 2) (drop (r * (shape u ! 2)) (elems u))) ts"
      using r d2 by (simp add: chunks_nth)
    then show "concat (map (\<lambda>bl. bl ! r) (map (\<lambda>u. chunks (b * c) (prod_list (drop 2 (shape u))) (elems u)) ts)) =
               concat (map (\<lambda>u. take (shape u ! 2) (drop (r * (shape u ! 2)) (elems u))) ts)"
      by (rule arg_cong)
  qed
  have "cat2 ts = Inr \<lparr>shape = [b, c, sum_list (map (\<lambda>u. shape u ! 2) ts)],
          strides = contiguous_strides [b, c, sum_list (map (\<lambda>u. shape u ! 2) ts)],
          elems = concat (map (\<lambda>r. concat (map (\<lambda>bl. bl ! r)
                  (map (\<lambda>u. chunks (b * c) (prod_list (drop 2 (shape u))) (elems u)) ts))) [0..<b * c])\<rparr>"
    using a b t0 unfolding cat2_def ts by (simp add: Let_def)
  then show ?thesis unfolding rows by simp
qed

lemma is_contiguous_rank3:
  "is_contiguous \<lparr>shape = [b, c, n], strides = contiguous_strides [b, c, n], elems = es\<rparr>"
  by (cases "b = 0 \<or> c = 0 \<or> n = 0") (auto simp: is_contiguous_def numel_def max_def)

lemma contiguous_dense:
  "is_contiguous t \<Longrightarrow> contiguous t = t"
  by (simp add: contiguous_def)

subsection \<open>Views of dense tensors\<close>

lemma contiguous_strides4:
  "0 < C \<Longrightarrow> 0 < h \<Longrightarrow> 0 < w \<Longrightarrow> contiguous_strides [b, C, h, w] = [C * (h * w), h * w, w, 1]"
  by (simp add: max_def)

lemma contiguous_strides3:
  "0 < n \<Longrightarrow> 0 < m \<Longrightarrow> contiguous_strides [b, n, m] = [n * m, m, 1]"
  by (simp add: max_def)

lemma less_mult_pos: "0 < (a::nat) \<Longrightarrow> k < m \<Longrightarrow> k < a * m"
proof -
  assume a: "0 < a" and k: "k < m"
  from a obtain a' where "a = Suc a'" by (auto dest: gr0_implies_Suc)
  then have "m \<le> a * m" by simp
  with k show ?thesis by (rule less_le_trans)
qed

lemma less_mult_gt1: "0 < (m::nat) \<Longrightarrow> 1 < k \<Longrightarrow> m < k * m"
proof -
  assume m: "0 < m" and k: "1 < k"
  from k obtain k' where "k = Suc (Suc k')" by (metis One_nat_def Suc_lessE less_imp_Suc_add)
  then have "2 * m \<le> k * m" by simp
  moreover from m have "m < 2 * m" by simp
  ultimately show ?thesis by (rule less_le_trans [rotated])
qed

text \<open>The view of a dense batch with elements: one chunk, cut into the three new dimensions.\<close>

lemma take_view_dims_all:
  assumes "0 < b" "0 < n" "0 < m"
  shows "take_view_dims (b * n * m) 1 1 [m, n, b] [] = (b * n * m, [], [n * m, m, 1])"
proof -
  have t1: "1 < b * n * m \<or> m = 1"
  proof (cases "m = 1")
    case False
    with assms(3) have "1 < m" by simp
    then have "1 < (b * n) * m" using assms by (intro less_mult_pos) simp_all
    then show ?thesis by simp
  qed simp
  have t2: "m < b * n * m \<or> n = 1"
  proof (cases "n = 1")
    case False
    with assms(2) have "1 < n" by simp
    then have "1 < b * n" using assms(1) by (intro less_mult_pos)
    then have "m < (b * n) * m" using assms(3) by (intro less_mult_gt1)
    then show ?thesis by simp
  qed simp
  have t3: "m * n < b * n * m \<or> b = 1"
  proof (cases "b = 1")
    case False
    with assms(1) have "1 < b" by simp
    moreover have "0 < n * m" using assms by simp
    ultimately have "n * m < b * (n * m)" by (intro less_mult_gt1)
    then show ?thesis by (simp add: mult.commute mult.left_commute)
  qed simp
  show ?thesis
    using t1 t2 t3 by (auto simp: mult.commute mult.left_commute)
qed

lemma view_strides_dense4:
  assumes "0 < b" "0 < C" "0 < h" "0 < w" "0 < n" "0 < m" "C * (h * w) = n * m"
  shows "view_strides [b, C, h, w] [C * (h * w), h * w, w, 1] [b, n, m] = Some [n * m, m, 1]"
proof -
  have tot: "w * h * C * b = b * n * m" using assms(7) by (simp add: mult.commute mult.left_commute)
  have s1: "h * w = w * h" by simp
  have s2: "C * (h * w) = w * h * C" by (simp add: mult.commute mult.left_commute)
  have nz: "b * (C * (h * w)) \<noteq> 0" using assms by simp
  note tk = take_view_dims_all [OF assms(1,5,6), unfolded One_nat_def]
  show ?thesis
    unfolding view_strides_def
    using nz by (simp add: s1 s2 tot tk del: take_view_dims.simps)
qed

subsection \<open>The head loop on convolutions of kernel 3 and padding 1\<close>

lemma view_dense_batch:
  assumes "shape t = [b, C, h, w]" and "strides t = contiguous_strides [b, C, h, w]"
    and "0 < b" "0 < h" "0 < w" "0 < n" "fits64 n" and "C * (h * w) = nat n * m"
  shows "view t b n = Inr \<lparr>shape = [b, nat n, m], strides = contiguous_strides [b, nat n, m],
                           elems = elems t\<rparr>"
proof -
  have n: "0 < nat n" using assms(6) by simp
  have nm: "numel t = b * nat n * m" using assms(1,8) by (simp add: numel_def)
  have dv: "numel t mod (b * nat n) = 0" "numel t div (b * nat n) = m"
    using nm n assms(3) by simp_all
  show ?thesis
  proof (cases "C = 0")
    case True
    with assms(8) n have m: "m = 0" by simp
    have "view_strides (shape t) (strides t) [b, nat n, m] = Some (contiguous_strides [b, nat n, m])"
      using True assms(1) by (simp add: view_strides_def)
    then show ?thesis
      using assms(3,6,7) dv by (simp add: view_def)
  next
    case False
    then have C: "0 < C" by simp
    have m: "0 < m"
    proof (rule ccontr)
      assume "\<not> 0 < m"
      then have "C * (h * w) = 0" using assms(8) by simp
      with C assms(4,5) show False by simp
    qed
    have st: "strides t = [C * (h * w), h * w, w, 1]"
      using assms(2) C assms(4,5) by (simp add: contiguous_strides4)
    have "view_strides (shape t) (strides t) [b, nat n, m] = Some [nat n * m, m, 1]"
      unfolding assms(1) st
      using assms(3) C assms(4,5) n m assms(8) by (rule view_strides_dense4)
    moreover have "contiguous_strides [b, nat n, m] = [nat n * m, m, 1]"
      using n m by (rule contiguous_strides3)
    ultimately show ?thesis
      using assms(3,6,7) dv by (simp add: view_def)
  qed
qed

lemma conv2d_forward_head:
  assumes "shape x = [b, ch, h, w]" and "in_channels c = ch"
    and "kernel_size c = 3" "padding c = 1" and "0 < out_channels c"
    and "0 < b" "0 < h" "0 < w" and "ch = 0 \<or> \<not> conv2d_channels_last E c x"
  shows "conv2d_forward E c x =
           Inr \<lparr>shape = [b, if ch = 0 then 0 else out_channels c, h, w],
                strides = contiguous_strides [b, if ch = 0 then 0 else out_channels c, h, w],
                elems = conv2d_values E c x\<rparr>"
  using assms by (auto simp: conv2d_forward_def conv2d_batch_def Let_def)

text \<open>
  The head loop on convolutions of kernel 3 and padding 1 whose input channels are those of
  their sources and whose outputs the engine lays out densely: it raises nothing, leaves
  the state alone and collects, for each source, the outputs of the two convolutions under
  the dimensions \<open>view\<close> gives them.
\<close>

lemma head_loop_convs:
  assumes "length xs = length ls" "length ls = length cs"
    and "0 < b" "0 < nc" "fits64 nc"
    and "\<forall>i<length xs.
           shape (xs ! i) = [b, in_channels (ls ! i), hs i, ws i] \<and> 0 < hs i \<and> 0 < ws i \<and>
           in_channels (cs ! i) = in_channels (ls ! i) \<and>
           kernel_size (ls ! i) = 3 \<and> padding (ls ! i) = 1 \<and>
           kernel_size (cs ! i) = 3 \<and> padding (cs ! i) = 1 \<and>
           0 < ks i \<and> out_channels (ls ! i) = ks i * 4 \<and> out_channels (cs ! i) = ks i * nat nc \<and>
           (in_channels (ls ! i) = 0 \<or>
            \<not> conv2d_channels_last E (ls ! i) (xs ! i) \<and> \<not> conv2d_channels_last E (cs ! i) (xs ! i))"
  shows "\<exists>lps cps.
           head_loop E nc xs (map Conv2d ls) (map Conv2d cs) lo co s = (Inr (lo @ lps, co @ cps), s) \<and>
           length lps = length xs \<and> length cps = length xs \<and>
           (\<forall>i<length xs.
              (\<exists>lx cx. conv2d_forward E (ls ! i) (xs ! i) = Inr lx \<and> view lx b 4 = Inr (lps ! i) \<and>
                       conv2d_forward E (cs ! i) (xs ! i) = Inr cx \<and> view cx b nc = Inr (cps ! i)) \<and>
              lps ! i = \<lparr>shape = [b, 4, if in_channels (ls ! i) = 0 then 0 else ks i * (hs i * ws i)],
                         strides = contiguous_strides
                           [b, 4, if in_channels (ls ! i) = 0 then 0 else ks i * (hs i * ws i)],
                         elems = conv2d_values E (ls ! i) (xs ! i)\<rparr> \<and>
              cps ! i = \<lparr>shape = [b, nat nc, if in_channels (ls ! i) = 0 then 0 else ks i * (hs i * ws i)],
                         strides = contiguous_strides
                           [b, nat nc, if in_channels (ls ! i) = 0 then 0 else ks i * (hs i * ws i)],
                         elems = conv2d_values E (cs ! i) (xs ! i)\<rparr>)"
  using assms
proof (induction xs ls cs arbitrary: lo co hs ws ks rule: list_induct3)
  case Nil
  then show ?case by simp
next
  case (Cons x xs l ls c cs)
  from Cons.prems(4) [rule_format, of 0] have
    x: "shape x = [b, in_channels l, hs 0, ws 0]" "0 < hs 0" "0 < ws 0" and
    l: "kernel_size l = 3" "padding l = 1" "out_channels l = ks 0 * 4" and
    c: "in_channels c = in_channels l" "kernel_size c = 3" "padding c = 1"
       "out_channels c = ks 0 * nat nc" and
    k: "0 < ks 0" and
    dl: "in_channels l = 0 \<or> \<not> conv2d_channels_last E l x" and
    dc: "in_channels l = 0 \<or> \<not> conv2d_channels_last E c x"
    by auto
  let ?m = "if in_channels l = 0 then 0 else ks 0 * (hs 0 * ws 0)"
  let ?lC = "if in_channels l = 0 then 0 else out_channels l"
  let ?cC = "if in_channels l = 0 then 0 else out_channels c"
  let ?lx = "\<lparr>shape = [b, ?lC, hs 0, ws 0], strides = contiguous_strides [b, ?lC, hs 0, ws 0],
              elems = conv2d_values E l x\<rparr>"
  let ?cx = "\<lparr>shape = [b, ?cC, hs 0, ws 0], strides = contiguous_strides [b, ?cC, hs 0, ws 0],
              elems = conv2d_values E c x\<rparr>"
  let ?lv = "\<lparr>shape = [b, 4, ?m], strides = contiguous_strides [b, 4, ?m], elems = conv2d_values E l x\<rparr>"
  let ?cv = "\<lparr>shape = [b, nat nc, ?m], strides = contiguous_strides [b, nat nc, ?m],
              elems = conv2d_values E c x\<rparr>"
  have ncp: "0 < nat nc" using Cons.prems(2) by simp
  have ol: "0 < out_channels l" using l(3) k by simp
  have oc: "0 < out_channels c" using c(4) k ncp by simp
  have cl: "conv2d_forward E l x = Inr ?lx"
    using conv2d_forward_head [OF x(1) refl l(1,2) ol Cons.prems(1) x(2,3) dl] .
  have cc: "conv2d_forward E c x = Inr ?cx"
    using conv2d_forward_head [OF x(1) c(1) c(2,3) oc Cons.prems(1) x(2,3)] dc c(1) by simp
  have sz: "size0 x = Inr b" using x by (simp add: size0_def)
  have f4: "fits64 4" by (simp add: fits64_def)
  have el: "?lC * (hs 0 * ws 0) = nat 4 * ?m" using l(3) by simp
  have ec: "?cC * (hs 0 * ws 0) = nat nc * ?m" using c(4) by (simp add: mult.commute mult.left_commute)
  have vl: "view ?lx b 4 = Inr ?lv"
    using view_dense_batch [of ?lx b ?lC "hs 0" "ws 0" 4 ?m, OF _ _ Cons.prems(1) x(2,3) _ f4 el]
    by simp
  have vc: "view ?cx b nc = Inr ?cv"
    using view_dense_batch [of ?cx b ?cC "hs 0" "ws 0" nc ?m, OF _ _ Cons.prems(1) x(2,3) Cons.prems(2,3) ec]
    by simp
  have step: "head_loop E nc (x # xs) (map Conv2d (l # ls)) (map Conv2d (c # cs)) lo co s =
              head_loop E nc xs (map Conv2d ls) (map Conv2d cs) (lo @ [?lv]) (co @ [?cv]) s"
    by (simp add: bindS_def cl cc sz vl vc del: contiguous_strides.simps)
  have rest: "\<forall>i<length xs.
           shape (xs ! i) = [b, in_channels (ls ! i), hs (Suc i), ws (Suc i)] \<and> 0 < hs (Suc i) \<and> 0 < ws (Suc i) \<and>
           in_channels (cs ! i) = in_channels (ls ! i) \<and>
           kernel_size (ls ! i) = 3 \<and> padding (ls ! i) = 1 \<and>
           kernel_size (cs ! i) = 3 \<and> padding (cs ! i) = 1 \<and>
           0 < ks (Suc i) \<and> out_channels (ls ! i) = ks (Suc i) * 4 \<and> out_channels (cs ! i) = ks (Suc i) * nat nc \<and>
           (in_channels (ls ! i) = 0 \<or>
            \<not> conv2d_channels_last E (ls ! i) (xs ! i) \<and> \<not> conv2d_channels_last E (cs ! i) (xs ! i))"
  proof (intro allI impI)
    fix i assume "i < length xs"
    with Cons.prems(4) [rule_format, of "Suc i"]
    show "shape (xs ! i) = [b, in_channels (ls ! i), hs (Suc i), ws (Suc i)] \<and> 0 < hs (Suc i) \<and> 0 < ws (Suc i) \<and>
           in_channels (cs ! i) = in_channels (ls ! i) \<and>
           kernel_size (ls ! i) = 3 \<and> padding (ls ! i) = 1 \<and>
           kernel_size (cs ! i) = 3 \<and> padding (cs ! i) = 1 \<and>
           0 < ks (Suc i) \<and> out_channels (ls ! i) = ks (Suc i) * 4 \<and> out_channels (cs ! i) = ks (Suc i) * nat nc \<and>
           (in_channels (ls ! i) = 0 \<or>
            \<not> conv2d_channels_last E (ls ! i) (xs ! i) \<and> \<not> conv2d_channels_last E (cs ! i) (xs ! i))"
      by simp
  qed
  from Cons.IH [of "\<lambda>i. hs (Suc i)" "\<lambda>i. ws (Suc i)" "\<lambda>i. ks (Suc i)" "lo @ [?lv]" "co @ [?cv]",
      OF Cons.prems(1,2,3) rest]
  obtain lps cps where
    r: "head_loop E nc xs (map Conv2d ls) (map Conv2d cs) (lo @ [?lv]) (co @ [?cv]) s =
          (Inr ((lo @ [?lv]) @ lps, (co @ [?cv]) @ cps), s)" and
    len: "length lps = length xs" "length cps = length xs" and
    pcs: "\<forall>i<length xs.
            (\<exists>lx cx. conv2d_forward E (ls ! i) (xs ! i) = Inr lx \<and> view lx b 4 = Inr (lps ! i) \<and>
                     conv2d_forward E (cs ! i) (xs ! i) = Inr cx \<and> view cx b nc = Inr (cps ! i)) \<and>
            lps ! i = \<lparr>shape = [b, 4, if in_channels (ls ! i) = 0 then 0 else ks (Suc i) * (hs (Suc i) * ws (Suc i))],
                       strides = contiguous_strides
                         [b, 4, if in_channels (ls ! i) = 0 then 0 else ks (Suc i) * (hs (Suc i) * ws (Suc i))],
                       elems = conv2d_values E (ls ! i) (xs ! i)\<rparr> \<and>
            cps ! i = \<lparr>shape = [b, nat nc, if in_channels (ls ! i) = 0 then 0 else ks (Suc i) * (hs (Suc i) * ws (Suc i))],
                       strides = contiguous_strides
                         [b, nat nc, if in_channels (ls ! i) = 0 then 0 else ks (Suc i) * (hs (Suc i) * ws (Suc i))],
                       elems = conv2d_values E (cs ! i) (xs ! i)\<rparr>"
    by blast
  have first: "\<exists>lx cx. conv2d_forward E l x = Inr lx \<and> view lx b 4 = Inr ?lv \<and>
                       conv2d_forward E c x = Inr cx \<and> view cx b nc = Inr ?cv"
    using cl cc vl vc by blast
  show ?case
  proof (rule exI [of _ "?lv # lps"], rule exI [of _ "?cv # cps"], intro conjI allI impI)
    show "head_loop E nc (x # xs) (map Conv2d (l # ls)) (map Conv2d (c # cs)) lo co s =
          (Inr (lo @ ?lv # lps, co @ ?cv # cps), s)"
      using step r by simp
    show "length (?lv # lps) = length (x # xs)" "length (?cv # cps) = length (x # xs)"
      using len by simp_all
    fix i assume i: "i < length (x # xs)"
    show "\<exists>lx cx. conv2d_forward E ((l # ls) ! i) ((x # xs) ! i) = Inr lx \<and>
                  view lx b 4 = Inr ((?lv # lps) ! i) \<and>
                  conv2d_forward E ((c # cs) ! i) ((x # xs) ! i) = Inr cx \<and>
                  view cx b nc = Inr ((?cv # cps) ! i)"
    proof (cases i)
      case 0
      show ?thesis unfolding 0 nth_Cons_0 by (rule first)
    next
      case (Suc j)
      with i have j: "j < length xs" by simp
      from pcs [rule_format, OF j] show ?thesis unfolding Suc nth_Cons_Suc by blast
    qed
    show "(?lv # lps) ! i =
          \<lparr>shape = [b, 4, if in_channels ((l # ls) ! i) = 0 then 0 else ks i * (hs i * ws i)],
           strides = contiguous_strides
             [b, 4, if in_channels ((l # ls) ! i) = 0 then 0 else ks i * (hs i * ws i)],
           elems = conv2d_values E ((l # ls) ! i) ((x # xs) ! i)\<rparr>"
    proof (cases i)
      case 0
      show ?thesis unfolding 0 nth_Cons_0 by (rule refl)
    next
      case (Suc j)
      with i have j: "j < length xs" by simp
      from pcs [rule_format, OF j] show ?thesis unfolding Suc nth_Cons_Suc by blast
    qed
    show "(?cv # cps) ! i =
          \<lparr>shape = [b, nat nc, if in_channels ((l # ls) ! i) = 0 then 0 else ks i * (hs i * ws i)],
           strides = contiguous_strides
             [b, nat nc, if in_channels ((l # ls) ! i) = 0 then 0 else ks i * (hs i * ws i)],
           elems = conv2d_values E ((c # cs) ! i) ((x # xs) ! i)\<rparr>"
    proof (cases i)
      case 0
      show ?thesis unfolding 0 nth_Cons_0 by (rule refl)
    next
      case (Suc j)
      with i have j: "j < length xs" by simp
      from pcs [rule_format, OF j] show ?thesis unfolding Suc nth_Cons_Suc by blast
    qed
  qed
qed

subsection \<open>The heads and the concatenation\<close>

lemma sum_list_nth_fun:
  assumes "\<forall>i<length ts. g (ts ! i) = f i"
  shows "sum_list (map g ts) = (\<Sum>i<length ts. f i)"
proof -
  have "sum_list (map g ts) = (\<Sum>i = 0..<length (map g ts). map g ts ! i)"
    by (rule sum_list_sum_nth)
  also have "\<dots> = (\<Sum>i = 0..<length ts. f i)"
    using assms by (intro sum.cong) simp_all
  finally show ?thesis by (simp add: atLeast0LessThan)
qed

text \<open>
  Lines 73-80 on a detector whose heads are convolutions that fit the sources, however
  it was made.
\<close>

lemma forward_heads_convs:
  assumes ls: "loc d = map Conv2d ls" and cs: "conf d = map Conv2d cs"
    and len: "length sources = length ls" "length ls = length cs" "sources \<noteq> []"
    and b: "0 < b" and nc: "0 < num_classes d" "fits64 (num_classes d)"
    and pre: "\<forall>i<length sources.
           shape (sources ! i) = [b, in_channels (ls ! i), hs i, ws i] \<and> 0 < hs i \<and> 0 < ws i \<and>
           in_channels (cs ! i) = in_channels (ls ! i) \<and>
           kernel_size (ls ! i) = 3 \<and> padding (ls ! i) = 1 \<and>
           kernel_size (cs ! i) = 3 \<and> padding (cs ! i) = 1 \<and>
           0 < ks i \<and> out_channels (ls ! i) = ks i * 4 \<and>
           out_channels (cs ! i) = ks i * nat (num_classes d) \<and>
           (in_channels (ls ! i) = 0 \<or>
            \<not> conv2d_channels_last E (ls ! i) (sources ! i) \<and>
            \<not> conv2d_channels_last E (cs ! i) (sources ! i))"
  shows "\<exists>lps cps lt ct.
           forward_heads E d sources s = (Inr (Heads (contiguous lt) (contiguous ct)), s) \<and>
           cat2 lps = Inr lt \<and> cat2 cps = Inr ct \<and>
           length lps = length sources \<and> length cps = length sources \<and>
           (\<forall>i<length sources.
              (\<exists>lx cx. conv2d_forward E (ls ! i) (sources ! i) = Inr lx \<and> view lx b 4 = Inr (lps ! i) \<and>
                       conv2d_forward E (cs ! i) (sources ! i) = Inr cx \<and>
                       view cx b (num_classes d) = Inr (cps ! i)) \<and>
              lps ! i = \<lparr>shape = [b, 4, if in_channels (ls ! i) = 0 then 0 else ks i * (hs i * ws i)],
                         strides = contiguous_strides
                           [b, 4, if in_channels (ls ! i) = 0 then 0 else ks i * (hs i * ws i)],
                         elems = conv2d_values E (ls ! i) (sources ! i)\<rparr> \<and>
              cps ! i = \<lparr>shape = [b, nat (num_classes d),
                                   if in_channels (ls ! i) = 0 then 0 else ks i * (hs i * ws i)],
                         strides = contiguous_strides
                           [b, nat (num_classes d),
                            if in_channels (ls ! i) = 0 then 0 else ks i * (hs i * ws i)],
                         elems = conv2d_values E (cs ! i) (sources ! i)\<rparr>) \<and>
           contiguous lt = lt \<and> contiguous ct = ct \<and> is_contiguous lt \<and> is_contiguous ct \<and>
           shape lt = [b, 4, \<Sum>i<length sources. if in_channels (ls ! i) = 0 then 0 else ks i * (hs i * ws i)] \<and>
           shape ct = [b, nat (num_classes d),
                       \<Sum>i<length sources. if in_channels (ls ! i) = 0 then 0 else ks i * (hs i * ws i)] \<and>
           elems lt = concat (map (\<lambda>r. concat (map (\<lambda>u. take (shape u ! 2) (drop (r * (shape u ! 2)) (elems u))) lps))
                               [0..<b * 4]) \<and>
           elems ct = concat (map (\<lambda>r. concat (map (\<lambda>u. take (shape u ! 2) (drop (r * (shape u ! 2)) (elems u))) cps))
                               [0..<b * nat (num_classes d)])"
proof -
  let ?n = "length sources"
  let ?m = "\<lambda>i. if in_channels (ls ! i) = 0 then 0 else ks i * (hs i * ws i)"
  from head_loop_convs [of sources ls cs b "num_classes d" hs ws ks E "[]" "[]" s, OF len(1,2) b nc pre]
  obtain lps cps where
    hl: "head_loop E (num_classes d) sources (map Conv2d ls) (map Conv2d cs) [] [] s = (Inr (lps, cps), s)" and
    ln: "length lps = ?n" "length cps = ?n" and
    pcs: "\<forall>i<?n.
            (\<exists>lx cx. conv2d_forward E (ls ! i) (sources ! i) = Inr lx \<and> view lx b 4 = Inr (lps ! i) \<and>
                     conv2d_forward E (cs ! i) (sources ! i) = Inr cx \<and>
                     view cx b (num_classes d) = Inr (cps ! i)) \<and>
            lps ! i = \<lparr>shape = [b, 4, ?m i], strides = contiguous_strides [b, 4, ?m i],
                       elems = conv2d_values E (ls ! i) (sources ! i)\<rparr> \<and>
            cps ! i = \<lparr>shape = [b, nat (num_classes d), ?m i],
                       strides = contiguous_strides [b, nat (num_classes d), ?m i],
                       elems = conv2d_values E (cs ! i) (sources ! i)\<rparr>"
    by auto
  have ne: "lps \<noteq> []" "cps \<noteq> []" using ln len(3) by auto
  have shl: "\<forall>i<?n. shape (lps ! i) = [b, 4, ?m i]" using pcs by simp
  have shc: "\<forall>i<?n. shape (cps ! i) = [b, nat (num_classes d), ?m i]" using pcs by simp
  have lsh: "\<forall>t\<in>set lps. \<exists>k. shape t = [b, 4, k]"
    using shl ln by (auto simp: in_set_conv_nth)
  have csh: "\<forall>t\<in>set cps. \<exists>k. shape t = [b, nat (num_classes d), k]"
    using shc ln by (auto simp: in_set_conv_nth)
  from cat2_rank3 [OF ne(1) lsh] obtain lt where
    lt: "cat2 lps = Inr lt" "shape lt = [b, 4, sum_list (map (\<lambda>u. shape u ! 2) lps)]"
      "strides lt = contiguous_strides [b, 4, sum_list (map (\<lambda>u. shape u ! 2) lps)]"
      "elems lt = concat (map (\<lambda>r. concat (map (\<lambda>u. take (shape u ! 2) (drop (r * (shape u ! 2)) (elems u))) lps))
                               [0..<b * 4])"
    by blast
  from cat2_rank3 [OF ne(2) csh] obtain ct where
    ct: "cat2 cps = Inr ct" "shape ct = [b, nat (num_classes d), sum_list (map (\<lambda>u. shape u ! 2) cps)]"
      "strides ct = contiguous_strides [b, nat (num_classes d), sum_list (map (\<lambda>u. shape u ! 2) cps)]"
      "elems ct = concat (map (\<lambda>r. concat (map (\<lambda>u. take (shape u ! 2) (drop (r * (shape u ! 2)) (elems u))) cps))
                               [0..<b * nat (num_classes d)])"
    by blast
  have sl: "sum_list (map (\<lambda>u. shape u ! 2) lps) = (\<Sum>i<?n. ?m i)"
    using sum_list_nth_fun [of lps "\<lambda>u. shape u ! 2" ?m] shl ln by simp
  have sc: "sum_list (map (\<lambda>u. shape u ! 2) cps) = (\<Sum>i<?n. ?m i)"
    using sum_list_nth_fun [of cps "\<lambda>u. shape u ! 2" ?m] shc ln by simp
  have dl: "is_contiguous lt"
    using is_contiguous_rank3 [of b 4 "sum_list (map (\<lambda>u. shape u ! 2) lps)" "elems lt"] lt(2,3)
    by (cases lt) (simp del: contiguous_strides.simps)
  have dc: "is_contiguous ct"
    using is_contiguous_rank3 [of b "nat (num_classes d)" "sum_list (map (\<lambda>u. shape u ! 2) cps)" "elems ct"] ct(2,3)
    by (cases ct) (simp del: contiguous_strides.simps)
  have fh: "forward_heads E d sources s = (Inr (Heads (contiguous lt) (contiguous ct)), s)"
    using ls cs hl lt(1) ct(1) by (simp add: forward_heads_def bindS_def)
  have slt: "shape lt = [b, 4, \<Sum>i<?n. ?m i]" using lt(2) sl by simp
  have sct: "shape ct = [b, nat (num_classes d), \<Sum>i<?n. ?m i]" using ct(2) sc by simp
  show ?thesis
    apply (rule exI [of _ lps], rule exI [of _ cps], rule exI [of _ lt], rule exI [of _ ct])
    apply (intro conjI)
    apply (rule fh)
    apply (rule lt(1))
    apply (rule ct(1))
    apply (rule ln(1))
    apply (rule ln(2))
    apply (rule pcs)
    apply (rule contiguous_dense [OF dl])
    apply (rule contiguous_dense [OF dc])
    apply (rule dl)
    apply (rule dc)
    apply (rule slt)
    apply (rule sct)
    apply (rule lt(4))
    apply (rule ct(4))
    done
qed

subsection \<open>The sources as outputs of the layers in order\<close>

lemma bindS_assoc: "bindS (bindS m f) g = bindS m (\<lambda>v. bindS (f v) g)"
  by (auto simp: bindS_def fun_eq_iff split: prod.splits sum.splits)

lemma bindS_Pair_Inr [simp]: "bindS (Pair (Inr v)) f = f v"
  by (simp add: bindS_def fun_eq_iff)

lemma bindS_cong_apply:
  assumes "\<And>v s'. m s = (Inr v, s') \<Longrightarrow> f v s' = g v s'"
  shows "bindS m f s = bindS m g s"
  using assms by (auto simp: bindS_def split: prod.splits sum.splits)

text \<open>
  The loops of forward over the base and the extra layers, in terms of the outputs of the
  layers applied one after the other.
\<close>

lemma tapped_shift:
  "map (\<lambda>j. (y # ys) ! (j - k)) (filter P [Suc k..<n]) =
   map (\<lambda>j. ys ! (j - Suc k)) (filter P [Suc k..<n])"
proof (rule map_cong [OF refl])
  fix j assume "j \<in> set (filter P [Suc k..<n])"
  then have "Suc k \<le> j" by simp
  then have "j - k = Suc (j - Suc k)" by simp
  then show "(y # ys) ! (j - k) = ys ! (j - Suc k)" by simp
qed

lemma base_loop_outputs:
  "base_loop E fl ms k x srcs =
   bindS (outputs E ms x) (\<lambda>bs.
     returnS (last (x # bs),
              srcs @ map (\<lambda>j. bs ! (j - k)) (filter (\<lambda>j. Index (int j) \<in> set fl) [k..<k + length ms])))"
proof (induction ms arbitrary: k x srcs)
  case Nil
  show ?case by (simp add: returnS_def)
next
  case (Cons m ms)
  have up: "[k..<k + length (m # ms)] = k # [Suc k..<Suc k + length ms]"
    by (subst upt_rec) simp
  show ?case
  proof (rule ext)
    fix s
    have "base_loop E fl (m # ms) k x srcs s =
          bindS (call E m x) (\<lambda>y. bindS (outputs E ms y) (\<lambda>bs.
            returnS (last (y # bs),
              (if Index (int k) \<in> set fl then srcs @ [y] else srcs) @
              map (\<lambda>j. bs ! (j - Suc k)) (filter (\<lambda>j. Index (int j) \<in> set fl) [Suc k..<Suc k + length ms])))) s"
      by (simp only: base_loop.simps Cons.IH)
    also have "\<dots> =
          bindS (call E m x) (\<lambda>y. bindS (outputs E ms y) (\<lambda>ys.
            returnS (last (x # y # ys),
              srcs @ map (\<lambda>j. (y # ys) ! (j - k))
                (filter (\<lambda>j. Index (int j) \<in> set fl) [k..<k + length (m # ms)])))) s"
    proof (rule bindS_cong_apply, rule bindS_cong_apply)
      fix y s1 ys s2
      show "returnS (last (y # ys),
              (if Index (int k) \<in> set fl then srcs @ [y] else srcs) @
              map (\<lambda>j. ys ! (j - Suc k)) (filter (\<lambda>j. Index (int j) \<in> set fl) [Suc k..<Suc k + length ms])) s2 =
            returnS (last (x # y # ys),
              srcs @ map (\<lambda>j. (y # ys) ! (j - k))
                (filter (\<lambda>j. Index (int j) \<in> set fl) [k..<k + length (m # ms)])) s2"
        unfolding up by (simp add: tapped_shift del: upt_Suc)
    qed
    also have "\<dots> = bindS (outputs E (m # ms) x) (\<lambda>bs.
            returnS (last (x # bs),
              srcs @ map (\<lambda>j. bs ! (j - k))
                (filter (\<lambda>j. Index (int j) \<in> set fl) [k..<k + length (m # ms)]))) s"
      by (simp only: outputs.simps bindS_assoc bindS_returnS)
    finally show "base_loop E fl (m # ms) k x srcs s =
          bindS (outputs E (m # ms) x) (\<lambda>bs.
            returnS (last (x # bs),
              srcs @ map (\<lambda>j. bs ! (j - k))
                (filter (\<lambda>j. Index (int j) \<in> set fl) [k..<k + length (m # ms)]))) s" .
  qed
qed

lemma extras_loop_outputs:
  "extras_loop E vs x srcs = bindS (outputs E vs x) (\<lambda>es. returnS (last (x # es), srcs @ es))"
proof (induction vs arbitrary: x srcs)
  case Nil
  show ?case by (simp add: returnS_def)
next
  case (Cons v vs)
  show ?case by (simp add: Cons.IH bindS_assoc returnS_def)
qed

lemma forward_sources_outputs:
  "forward_sources E d x =
   bindS (outputs E (base d) x) (\<lambda>bs.
   bindS (outputs E (extras d) (last (x # bs))) (\<lambda>es.
     returnS (map (\<lambda>k. bs ! k)
                (filter (\<lambda>k. Index (int k) \<in> set (feature_layer d)) [0..<length (base d)]) @ es)))"
  by (simp add: forward_sources_def base_loop_outputs extras_loop_outputs bindS_assoc returnS_def)

lemma length_outputs:
  "outputs E ms x s = (Inr ys, s') \<Longrightarrow> length ys = length ms"
proof (induction ms arbitrary: x s ys)
  case Nil
  then show ?case by simp
next
  case (Cons m ms)
  from Cons.prems obtain y s1 zs where
    "outputs E ms y s1 = (Inr zs, s')" "ys = y # zs"
    by (auto simp: bindS_Inr_iff)
  with Cons.IH show ?case by auto
qed

subsection \<open>Runs of the small detectors, and detectors made by \<open>build_ssd\<close>\<close>

lemma call_resize:
  "call E (resize ch h w) x s =
     (case shape x of [] \<Rightarrow> Inl RuntimeError
      | b # _ \<Rightarrow> Inr \<lparr>shape = [b, ch, h, w], strides = contiguous_strides [b, ch, h, w],
                        elems = replicate (b * ch * h * w) 0\<rparr>, s)"
  by (simp add: resize_def)

lemma build_sample:
  "build_ssd sample_parser sample_base ([Index 1, Name ''S''], [2, 3]) [1, 2] 2 = Inr sample_ssd"
  by (simp add: build_ssd_def sample_base_def add_extras_def sample_parser_def nn_Conv2d_def
      fits64_def sample_ssd_def)

lemma build_twofold:
  "build_ssd twofold_parser sample_base ([Index 1, Name ''S''], [2, 3]) [1, 2] 2 = Inr twofold_ssd"
  by (simp add: build_ssd_def sample_base_def add_extras_def twofold_parser_def nn_Conv2d_def
      fits64_def twofold_ssd_def)

lemma build_headless:
  "build_ssd sample_parser sample_base ([Index 1], [2]) [] 2 = Inr headless_ssd"
  by (simp add: build_ssd_def sample_base_def add_extras_def headless_ssd_def)

lemma build_fivefold:
  "build_ssd twofold_parser sample_base ([Index 1, Name ''S'', Name ''S''], [2, 3, 4]) [1, 2, 2] 2 =
     Inr fivefold_ssd"
  by (simp add: build_ssd_def sample_base_def add_extras_def twofold_parser_def nn_Conv2d_def
      fits64_def fivefold_ssd_def)

lemma sample_sources:
  "forward_sources zero_engine sample_ssd sample_input s =
     (Inr [\<lparr>shape = [1, 2, 2, 2], strides = [8, 4, 2, 1], elems = replicate 8 0\<rparr>,
           \<lparr>shape = [1, 3, 1, 1], strides = [3, 1, 1, 1], elems = replicate 3 0\<rparr>], s)"
  by (simp add: forward_sources_def sample_ssd_def SSD_init_def bindS_def call_resize sample_input_def)

lemma twofold_sources:
  "forward_sources zero_engine twofold_ssd sample_input s =
     (Inr [\<lparr>shape = [1, 2, 2, 2], strides = [8, 4, 2, 1], elems = replicate 8 0\<rparr>,
           \<lparr>shape = [1, 3, 2, 2], strides = [12, 4, 2, 1], elems = replicate 12 0\<rparr>,
           \<lparr>shape = [1, 3, 1, 1], strides = [3, 1, 1, 1], elems = replicate 3 0\<rparr>], s)"
  by (simp add: forward_sources_def twofold_ssd_def SSD_init_def bindS_def call_resize sample_input_def)

lemma forward_sample_eval:
  "forward zero_engine sample_ssd sample_input ''eval'' 0 =
     (Inr (Heads \<lparr>shape = [1, 4, 6], strides = [24, 6, 1], elems = replicate 24 0\<rparr>
                 \<lparr>shape = [1, 2, 6], strides = [12, 6, 1], elems = replicate 12 0\<rparr>), 0)"
  by code_simp

lemma build_ssd_Inr:
  assumes "build_ssd P base_factory (layers, depths) mbox nc = Inr d"
  shows "\<exists>b ex lo co.
           base_factory () = Inr b \<and>
           add_extras_loop P nc layers depths mbox None ([], [], []) = Inr (ex, lo, co) \<and>
           d = SSD_init b ex (lo, co) (layers, depths) nc"
  using assms by (auto simp: build_ssd_def add_extras_def split: sum.splits)

lemma add_extras_Inr:
  assumes "add_extras P base' (layers, depths) mbox nc = Inr (b, extra_layers, (loc_layers, conf_layers))"
  shows "b = base' \<and> add_extras_loop P nc layers depths mbox None ([], [], []) = Inr (extra_layers, loc_layers, conf_layers)"
  using assms by (auto simp: add_extras_def split: sum.splits)

text \<open>The heads of a detector made by \<open>build_ssd\<close>.\<close>

lemma built_heads:
  assumes "build_ssd P base_factory (layers, depths) mbox nc = Inr d"
    and "n = min (length layers) (min (length depths) (length mbox))"
  shows "loc d = map Conv2d (map (\<lambda>i. \<lparr>in_channels = nat (depths ! i), out_channels = nat (mbox ! i * 4),
                                          kernel_size = 3, padding = 1\<rparr>) [0..<n]) \<and>
         conf d = map Conv2d (map (\<lambda>i. \<lparr>in_channels = nat (depths ! i), out_channels = nat (mbox ! i * nc),
                                          kernel_size = 3, padding = 1\<rparr>) [0..<n]) \<and>
         (\<forall>i<n. channels_ok (depths ! i) \<and> channels_ok (mbox ! i * 4) \<and> channels_ok (mbox ! i * nc)) \<and>
         num_classes d = nc \<and> feature_layer d = layers"
proof -
  from build_ssd_Inr [OF assms(1)] obtain b ex lo co where
    l: "add_extras_loop P nc layers depths mbox None ([], [], []) = Inr (ex, lo, co)" and
    d: "d = SSD_init b ex (lo, co) (layers, depths) nc"
    by blast
  note c = add_extras_loop_Inr [OF l, folded assms(2)]
  show ?thesis using c d by (simp add: SSD_init_def comp_def)
qed

lemma kinds_count:
  "length (base_taps fl) + sum_list (map (\<lambda>l. case l of Index k \<Rightarrow> 0 | Name n \<Rightarrow> Suc 0) fl) = length fl"
  by (induction fl) (auto simp: base_taps_def split: layer.splits)

lemma forward_sources_heads_irrelevant:
  "forward_sources E (d\<lparr>loc := l, conf := c\<rparr>) x = forward_sources E d x"
  by (simp add: forward_sources_def)

lemma forward_heads_softmax_irrelevant:
  "forward_heads E (d\<lparr>softmax := m\<rparr>) sources = forward_heads E d sources"
  by (simp add: forward_heads_def)

lemma forward_sources_softmax_irrelevant:
  "forward_sources E (d\<lparr>softmax := m\<rparr>) x = forward_sources E d x"
  by (simp add: forward_sources_def)

lemma forward_softmax_irrelevant:
  "forward E (d\<lparr>softmax := m\<rparr>) x phase = forward E d x phase"
  by (cases "phase = ''feature''")
    (simp_all add: forward_def forward_sources_softmax_irrelevant forward_heads_softmax_irrelevant)

lemma fits64_classes:
  assumes "0 < box" "0 < nc" "channels_ok (box * nc)"
  shows "fits64 nc"
proof -
  have "1 \<le> box" using assms(1) by simp
  then have "1 * nc \<le> box * nc" using assms(2) by (intro mult_right_mono) simp_all
  then have le: "nc \<le> box * nc" by simp
  have "box * nc < 2 ^ 63" using assms(3) unfolding channels_ok_def by (rule conjunct2)
  with le have u: "nc < 2 ^ 63" by (rule le_less_trans)
  have "- (2 ^ 63) \<le> (0 :: int)" by simp
  also have "0 \<le> nc" using assms(2) by simp
  finally have l: "- (2 ^ 63) \<le> nc" .
  from l u show ?thesis unfolding fits64_def by (rule conjI)
qed

text \<open>Lines 73-80 on a detector made by \<open>build_ssd\<close> from sequences of equal length.\<close>

lemma forward_heads_built:
  assumes build: "build_ssd P base_factory (layers, depths) mbox nc = Inr d"
    and lens: "length layers = length depths" "length depths = length mbox"
    and nc: "0 < nc" and box: "\<forall>box\<in>set mbox. 0 < box" and b: "0 < b"
    and n: "length sources = length mbox" "sources \<noteq> []"
    and shapes: "\<forall>i<length sources.
                   shape (sources ! i) = [b, nat (depths ! i), hs i, ws i] \<and> 0 < hs i \<and> 0 < ws i"
    and dense: "\<forall>i<length sources. depths ! i = 0 \<or>
           \<not> conv2d_channels_last E \<lparr>in_channels = nat (depths ! i), out_channels = nat (mbox ! i * 4),
                                     kernel_size = 3, padding = 1\<rparr> (sources ! i) \<and>
           \<not> conv2d_channels_last E \<lparr>in_channels = nat (depths ! i), out_channels = nat (mbox ! i * nc),
                                     kernel_size = 3, padding = 1\<rparr> (sources ! i)"
  shows "\<exists>lps cps lt ct.
           forward_heads E d sources s = (Inr (Heads (contiguous lt) (contiguous ct)), s) \<and>
           cat2 lps = Inr lt \<and> cat2 cps = Inr ct \<and>
           length lps = length sources \<and> length cps = length sources \<and>
           (\<forall>i<length sources.
              loc d ! i = Conv2d \<lparr>in_channels = nat (depths ! i), out_channels = nat (mbox ! i * 4),
                                   kernel_size = 3, padding = 1\<rparr> \<and>
              conf d ! i = Conv2d \<lparr>in_channels = nat (depths ! i), out_channels = nat (mbox ! i * nc),
                                    kernel_size = 3, padding = 1\<rparr> \<and>
              (\<exists>lx cx. call E (loc d ! i) (sources ! i) s = (Inr lx, s) \<and> view lx b 4 = Inr (lps ! i) \<and>
                       call E (conf d ! i) (sources ! i) s = (Inr cx, s) \<and> view cx b nc = Inr (cps ! i)) \<and>
              lps ! i = \<lparr>shape = [b, 4, if depths ! i = 0 then 0 else nat (mbox ! i) * (hs i * ws i)],
                         strides = contiguous_strides
                           [b, 4, if depths ! i = 0 then 0 else nat (mbox ! i) * (hs i * ws i)],
                         elems = conv2d_values E \<lparr>in_channels = nat (depths ! i), out_channels = nat (mbox ! i * 4),
                                                   kernel_size = 3, padding = 1\<rparr> (sources ! i)\<rparr> \<and>
              cps ! i = \<lparr>shape = [b, nat nc, if depths ! i = 0 then 0 else nat (mbox ! i) * (hs i * ws i)],
                         strides = contiguous_strides
                           [b, nat nc, if depths ! i = 0 then 0 else nat (mbox ! i) * (hs i * ws i)],
                         elems = conv2d_values E \<lparr>in_channels = nat (depths ! i), out_channels = nat (mbox ! i * nc),
                                                   kernel_size = 3, padding = 1\<rparr> (sources ! i)\<rparr>) \<and>
           contiguous lt = lt \<and> contiguous ct = ct \<and> is_contiguous lt \<and> is_contiguous ct \<and>
           shape lt = [b, 4, \<Sum>i<length sources. if depths ! i = 0 then 0 else nat (mbox ! i) * (hs i * ws i)] \<and>
           shape ct = [b, nat nc, \<Sum>i<length sources. if depths ! i = 0 then 0 else nat (mbox ! i) * (hs i * ws i)] \<and>
           elems lt = concat (map (\<lambda>r. concat (map (\<lambda>u. take (shape u ! 2) (drop (r * (shape u ! 2)) (elems u))) lps))
                               [0..<b * 4]) \<and>
           elems ct = concat (map (\<lambda>r. concat (map (\<lambda>u. take (shape u ! 2) (drop (r * (shape u ! 2)) (elems u))) cps))
                               [0..<b * nat nc])"
proof -
  let ?n = "length sources"
  let ?lc = "\<lambda>i. \<lparr>in_channels = nat (depths ! i), out_channels = nat (mbox ! i * 4),
                    kernel_size = 3, padding = 1\<rparr>"
  let ?cc = "\<lambda>i. \<lparr>in_channels = nat (depths ! i), out_channels = nat (mbox ! i * nc),
                    kernel_size = 3, padding = 1\<rparr>"
  let ?ls = "map ?lc [0..<?n]"
  let ?cs = "map ?cc [0..<?n]"
  have m: "?n = min (length layers) (min (length depths) (length mbox))"
    using lens n by simp
  note h = built_heads [OF build m]
  have ncd: "num_classes d = nc" using h by simp
  have ld: "loc d = map Conv2d ?ls" and cd: "conf d = map Conv2d ?cs" using h by simp_all
  have pos: "\<forall>i<?n. 0 < mbox ! i" using box n by simp
  have z: "0 < ?n" using n(2) by simp
  from pos z have p0: "0 < mbox ! 0" by blast
  from h have "\<forall>i<?n. channels_ok (depths ! i) \<and> channels_ok (mbox ! i * 4) \<and> channels_ok (mbox ! i * nc)"
    by blast
  with z have c0: "channels_ok (mbox ! 0 * nc)" by blast
  from fits64_classes [OF p0 nc c0] have f: "fits64 nc" .
  have d0: "\<forall>i<?n. (nat (depths ! i) = 0) = (depths ! i = 0)"
    using h by (auto simp: channels_ok_def)
  have pre: "\<forall>i<length sources.
           shape (sources ! i) = [b, in_channels (?ls ! i), hs i, ws i] \<and> 0 < hs i \<and> 0 < ws i \<and>
           in_channels (?cs ! i) = in_channels (?ls ! i) \<and>
           kernel_size (?ls ! i) = 3 \<and> padding (?ls ! i) = 1 \<and>
           kernel_size (?cs ! i) = 3 \<and> padding (?cs ! i) = 1 \<and>
           0 < nat (mbox ! i) \<and> out_channels (?ls ! i) = nat (mbox ! i) * 4 \<and>
           out_channels (?cs ! i) = nat (mbox ! i) * nat (num_classes d) \<and>
           (in_channels (?ls ! i) = 0 \<or>
            \<not> conv2d_channels_last E (?ls ! i) (sources ! i) \<and>
            \<not> conv2d_channels_last E (?cs ! i) (sources ! i))"
  proof (intro allI impI)
    fix i assume i: "i < length sources"
    from pos i have p: "0 \<le> mbox ! i" "0 < mbox ! i" by auto
    have m4: "nat (mbox ! i * 4) = nat (mbox ! i) * 4"
      using nat_mult_distrib [OF p(1), of 4] by simp
    have mn: "nat (mbox ! i * nc) = nat (mbox ! i) * nat nc"
      by (rule nat_mult_distrib [OF p(1)])
    from shapes [rule_format, OF i] dense [rule_format, OF i] d0 [rule_format, OF i] p(2) i m4 mn ncd
    show "shape (sources ! i) = [b, in_channels (?ls ! i), hs i, ws i] \<and> 0 < hs i \<and> 0 < ws i \<and>
           in_channels (?cs ! i) = in_channels (?ls ! i) \<and>
           kernel_size (?ls ! i) = 3 \<and> padding (?ls ! i) = 1 \<and>
           kernel_size (?cs ! i) = 3 \<and> padding (?cs ! i) = 1 \<and>
           0 < nat (mbox ! i) \<and> out_channels (?ls ! i) = nat (mbox ! i) * 4 \<and>
           out_channels (?cs ! i) = nat (mbox ! i) * nat (num_classes d) \<and>
           (in_channels (?ls ! i) = 0 \<or>
            \<not> conv2d_channels_last E (?ls ! i) (sources ! i) \<and>
            \<not> conv2d_channels_last E (?cs ! i) (sources ! i))"
      by simp
  qed
  have len: "length sources = length ?ls" "length ?ls = length ?cs" by simp_all
  have ncd': "0 < num_classes d" "fits64 (num_classes d)" using nc f ncd by simp_all
  from forward_heads_convs [OF ld cd len n(2) b ncd' pre, of s]
  obtain lps cps lt ct where
    r: "forward_heads E d sources s = (Inr (Heads (contiguous lt) (contiguous ct)), s)"
       "cat2 lps = Inr lt" "cat2 cps = Inr ct"
       "length lps = length sources" "length cps = length sources"
       "contiguous lt = lt" "contiguous ct = ct" "is_contiguous lt" "is_contiguous ct"
       "shape lt = [b, 4, \<Sum>i<?n. if in_channels (?ls ! i) = 0 then 0 else nat (mbox ! i) * (hs i * ws i)]"
       "shape ct = [b, nat (num_classes d),
                    \<Sum>i<?n. if in_channels (?ls ! i) = 0 then 0 else nat (mbox ! i) * (hs i * ws i)]"
       "elems lt = concat (map (\<lambda>r. concat (map (\<lambda>u. take (shape u ! 2) (drop (r * (shape u ! 2)) (elems u))) lps))
                               [0..<b * 4])"
       "elems ct = concat (map (\<lambda>r. concat (map (\<lambda>u. take (shape u ! 2) (drop (r * (shape u ! 2)) (elems u))) cps))
                               [0..<b * nat (num_classes d)])" and
    pcs: "\<forall>i<?n.
              (\<exists>lx cx. conv2d_forward E (?ls ! i) (sources ! i) = Inr lx \<and> view lx b 4 = Inr (lps ! i) \<and>
                       conv2d_forward E (?cs ! i) (sources ! i) = Inr cx \<and>
                       view cx b (num_classes d) = Inr (cps ! i)) \<and>
              lps ! i = \<lparr>shape = [b, 4, if in_channels (?ls ! i) = 0 then 0 else nat (mbox ! i) * (hs i * ws i)],
                         strides = contiguous_strides
                           [b, 4, if in_channels (?ls ! i) = 0 then 0 else nat (mbox ! i) * (hs i * ws i)],
                         elems = conv2d_values E (?ls ! i) (sources ! i)\<rparr> \<and>
              cps ! i = \<lparr>shape = [b, nat (num_classes d),
                                   if in_channels (?ls ! i) = 0 then 0 else nat (mbox ! i) * (hs i * ws i)],
                         strides = contiguous_strides
                           [b, nat (num_classes d),
                            if in_channels (?ls ! i) = 0 then 0 else nat (mbox ! i) * (hs i * ws i)],
                         elems = conv2d_values E (?cs ! i) (sources ! i)\<rparr>"
    by blast
  have sums: "(\<Sum>i<?n. if in_channels (?ls ! i) = 0 then 0 else nat (mbox ! i) * (hs i * ws i)) =
              (\<Sum>i<?n. if depths ! i = 0 then 0 else nat (mbox ! i) * (hs i * ws i))"
    using d0 by (intro sum.cong) simp_all
  have pcs': "\<forall>i<length sources.
              loc d ! i = Conv2d (?lc i) \<and> conf d ! i = Conv2d (?cc i) \<and>
              (\<exists>lx cx. call E (loc d ! i) (sources ! i) s = (Inr lx, s) \<and> view lx b 4 = Inr (lps ! i) \<and>
                       call E (conf d ! i) (sources ! i) s = (Inr cx, s) \<and> view cx b nc = Inr (cps ! i)) \<and>
              lps ! i = \<lparr>shape = [b, 4, if depths ! i = 0 then 0 else nat (mbox ! i) * (hs i * ws i)],
                         strides = contiguous_strides
                           [b, 4, if depths ! i = 0 then 0 else nat (mbox ! i) * (hs i * ws i)],
                         elems = conv2d_values E (?lc i) (sources ! i)\<rparr> \<and>
              cps ! i = \<lparr>shape = [b, nat nc, if depths ! i = 0 then 0 else nat (mbox ! i) * (hs i * ws i)],
                         strides = contiguous_strides
                           [b, nat nc, if depths ! i = 0 then 0 else nat (mbox ! i) * (hs i * ws i)],
                         elems = conv2d_values E (?cc i) (sources ! i)\<rparr>"
  proof (intro allI impI)
    fix i assume i: "i < length sources"
    have li: "?ls ! i = ?lc i" and ci: "?cs ! i = ?cc i" using i by simp_all
    have l: "loc d ! i = Conv2d (?lc i)" unfolding ld using i by simp
    have c: "conf d ! i = Conv2d (?cc i)" unfolding cd using i by simp
    have z: "(in_channels (?ls ! i) = 0) = (depths ! i = 0)"
      unfolding li using d0 [rule_format, OF i] by simp
    note p = pcs [rule_format, OF i, unfolded z, unfolded li ci ncd]
    from p obtain lx cx where
      x: "conv2d_forward E (?lc i) (sources ! i) = Inr lx" "view lx b 4 = Inr (lps ! i)"
         "conv2d_forward E (?cc i) (sources ! i) = Inr cx" "view cx b nc = Inr (cps ! i)"
      by blast
    have cl: "call E (loc d ! i) (sources ! i) s = (Inr lx, s)"
      unfolding l using x(1) by simp
    have cc: "call E (conf d ! i) (sources ! i) s = (Inr cx, s)"
      unfolding c using x(3) by simp
    have e: "\<exists>lx cx. call E (loc d ! i) (sources ! i) s = (Inr lx, s) \<and> view lx b 4 = Inr (lps ! i) \<and>
                       call E (conf d ! i) (sources ! i) s = (Inr cx, s) \<and> view cx b nc = Inr (cps ! i)"
      using cl x(2) cc x(4) by blast
    from p have pl: "lps ! i = \<lparr>shape = [b, 4, if depths ! i = 0 then 0 else nat (mbox ! i) * (hs i * ws i)],
                         strides = contiguous_strides
                           [b, 4, if depths ! i = 0 then 0 else nat (mbox ! i) * (hs i * ws i)],
                         elems = conv2d_values E (?lc i) (sources ! i)\<rparr>"
      by (rule conjunct1 [OF conjunct2])
    from p have pc: "cps ! i = \<lparr>shape = [b, nat nc, if depths ! i = 0 then 0 else nat (mbox ! i) * (hs i * ws i)],
                         strides = contiguous_strides
                           [b, nat nc, if depths ! i = 0 then 0 else nat (mbox ! i) * (hs i * ws i)],
                         elems = conv2d_values E (?cc i) (sources ! i)\<rparr>"
      by (rule conjunct2 [OF conjunct2])
    show "loc d ! i = Conv2d (?lc i) \<and> conf d ! i = Conv2d (?cc i) \<and>
              (\<exists>lx cx. call E (loc d ! i) (sources ! i) s = (Inr lx, s) \<and> view lx b 4 = Inr (lps ! i) \<and>
                       call E (conf d ! i) (sources ! i) s = (Inr cx, s) \<and> view cx b nc = Inr (cps ! i)) \<and>
              lps ! i = \<lparr>shape = [b, 4, if depths ! i = 0 then 0 else nat (mbox ! i) * (hs i * ws i)],
                         strides = contiguous_strides
                           [b, 4, if depths ! i = 0 then 0 else nat (mbox ! i) * (hs i * ws i)],
                         elems = conv2d_values E (?lc i) (sources ! i)\<rparr> \<and>
              cps ! i = \<lparr>shape = [b, nat nc, if depths ! i = 0 then 0 else nat (mbox ! i) * (hs i * ws i)],
                         strides = contiguous_strides
                           [b, nat nc, if depths ! i = 0 then 0 else nat (mbox ! i) * (hs i * ws i)],
                         elems = conv2d_values E (?cc i) (sources ! i)\<rparr>"
      using l c e pl pc by blast
  qed
  show ?thesis
    apply (rule exI [of _ lps], rule exI [of _ cps], rule exI [of _ lt], rule exI [of _ ct])
    apply (intro conjI)
    apply (rule r(1))
    apply (rule r(2))
    apply (rule r(3))
    apply (rule r(4))
    apply (rule r(5))
    apply (rule pcs')
    apply (rule r(6))
    apply (rule r(7))
    apply (rule r(8))
    apply (rule r(9))
    using r(10) sums apply simp
    using r(11) sums ncd apply simp
    apply (rule r(12))
    using r(13) ncd apply simp
    done
qed

subsection \<open>Further facts used below\<close>

lemma nth_map_Conv2d_eq:
  assumes "length ms = n" and "\<forall>i<n. ms ! i = Conv2d (f i)"
  shows "ms = map Conv2d (map f [0..<n])"
  using assms by (intro nth_equalityI) simp_all

lemma sample_modules_keep_state:
  "\<forall>m\<in>set (base sample_ssd) \<union> set (extras sample_ssd) \<union> set (loc sample_ssd) \<union> set (conf sample_ssd).
     \<forall>y s. snd (call zero_engine m y s) = s"
  by (simp add: sample_ssd_def SSD_init_def call_resize)

lemma forward_call_detector:
  "detector (snd (forward_call E x phase h)) = detector h"
  by (simp add: forward_call_def split: prod.splits)

lemma forward_call_state:
  assumes "\<forall>m\<in>set (base (detector h)) \<union> set (extras (detector h)) \<union>
              set (loc (detector h)) \<union> set (conf (detector h)).
             \<forall>y s. snd (call E m y s) = s"
  shows "snd (forward_call E x phase h) = h"
proof -
  obtain r s' where f: "forward E (detector h) x phase (module_state h) = (r, s')"
    by (cases "forward E (detector h) x phase (module_state h)")
  from forward_state [OF assms, of x phase "module_state h"] f
  have "s' = module_state h" by simp
  with f show ?thesis by (simp add: forward_call_def)
qed

lemma forward_heads_nil:
  assumes "min (length sources) (min (length (loc d)) (length (conf d))) = 0"
  shows "forward_heads E d sources s = (Inl ValueError, s)"
proof -
  from assms have "length sources = 0 \<or> length (loc d) = 0 \<or> length (conf d) = 0"
    unfolding min_def by (simp split: if_splits)
  then have "sources = [] \<or> loc d = [] \<or> conf d = []" by simp
  then have "head_loop E (num_classes d) sources (loc d) (conf d) [] [] = returnS ([], [])"
    by (cases sources; cases "loc d"; cases "conf d") auto
  then show ?thesis by (simp add: forward_heads_def bindS_def cat2_def)
qed

section \<open>The claims\<close>

text \<open>
  C1. A detector built by \<open>build_ssd\<close> from parallel sequences of equal length, with
  positive depths, box counts and class count, is run in mode "train" or "eval" on an
  input for which the base and extra layers yield one source per scale, source \<open>i\<close> of
  dimensions \<open>[b, depth i, h i, w i]\<close> with a batch \<open>b > 0\<close>, and the engine lays the
  outputs of the head convolutions out densely. Then forward returns \<open>(loc, conf)\<close>,
  the results of \<open>contiguous\<close> on the concatenations along the third axis of the lists
  \<open>lps\<close> and \<open>cps\<close>, where \<open>lps ! i\<close> is the output of the call of \<open>loc[i]\<close> on
  source \<open>i\<close> viewed as \<open>[b, 4, -1]\<close> and \<open>cps ! i\<close> the output of the call of
  \<open>conf[i]\<close> on it viewed as \<open>[b, num_classes, -1]\<close>, of third dimension
  \<open>box i * (h i * w i)\<close>. loc has dimensions \<open>[b, 4, total]\<close> and conf
  \<open>[b, num_classes, total]\<close> with \<open>total\<close> the sum over the scales of
  \<open>box i * (h i * w i)\<close>; row by row of the two leading dimensions their elements are
  the rows of the per-scale tensors one after the other; both are contiguous.
\<close>

theorem forward_shapes:
  assumes "build_ssd P base_factory (layers, depths) mbox nc = Inr d"
    and "length layers = length depths" and "length depths = length mbox"
    and "0 < nc" and "\<forall>box\<in>set mbox. 0 < box" and "\<forall>depth\<in>set depths. 0 < depth"
    and "phase = ''train'' \<or> phase = ''eval''"
    and "forward_sources E d x s = (Inr sources, s')"
    and "length sources = length mbox" and "sources \<noteq> []"
    and "0 < b"
    and "\<forall>i<length sources.
           shape (sources ! i) = [b, nat (depths ! i), hs i, ws i] \<and> 0 < hs i \<and> 0 < ws i"
    and "\<forall>i<length sources.
           \<not> conv2d_channels_last E \<lparr>in_channels = nat (depths ! i), out_channels = nat (mbox ! i * 4),
                                     kernel_size = 3, padding = 1\<rparr> (sources ! i) \<and>
           \<not> conv2d_channels_last E \<lparr>in_channels = nat (depths ! i), out_channels = nat (mbox ! i * nc),
                                     kernel_size = 3, padding = 1\<rparr> (sources ! i)"
  shows "\<exists>lps cps lt ct.
           forward E d x phase s = (Inr (Heads (contiguous lt) (contiguous ct)), s') \<and>
           cat2 lps = Inr lt \<and> cat2 cps = Inr ct \<and>
           length lps = length sources \<and> length cps = length sources \<and>
           (\<forall>i<length sources.
              (\<exists>lx cx. call E (loc d ! i) (sources ! i) s' = (Inr lx, s') \<and> view lx b 4 = Inr (lps ! i) \<and>
                       call E (conf d ! i) (sources ! i) s' = (Inr cx, s') \<and> view cx b nc = Inr (cps ! i)) \<and>
              shape (lps ! i) = [b, 4, nat (mbox ! i) * (hs i * ws i)] \<and>
              shape (cps ! i) = [b, nat nc, nat (mbox ! i) * (hs i * ws i)]) \<and>
           shape (contiguous lt) = [b, 4, \<Sum>i<length sources. nat (mbox ! i) * (hs i * ws i)] \<and>
           shape (contiguous ct) = [b, nat nc, \<Sum>i<length sources. nat (mbox ! i) * (hs i * ws i)] \<and>
           elems (contiguous lt) =
             concat (map (\<lambda>r. concat (map (\<lambda>u. take (shape u ! 2) (drop (r * (shape u ! 2)) (elems u))) lps))
                       [0..<b * 4]) \<and>
           elems (contiguous ct) =
             concat (map (\<lambda>r. concat (map (\<lambda>u. take (shape u ! 2) (drop (r * (shape u ! 2)) (elems u))) cps))
                       [0..<b * nat nc]) \<and>
           is_contiguous (contiguous lt) \<and> is_contiguous (contiguous ct)"
proof -
  let ?n = "length sources"
  let ?lc = "\<lambda>i. \<lparr>in_channels = nat (depths ! i), out_channels = nat (mbox ! i * 4),
                    kernel_size = 3, padding = 1\<rparr>"
  let ?cc = "\<lambda>i. \<lparr>in_channels = nat (depths ! i), out_channels = nat (mbox ! i * nc),
                    kernel_size = 3, padding = 1\<rparr>"
  have dp: "\<forall>i<?n. depths ! i \<noteq> 0"
  proof (intro allI impI)
    fix i assume "i < ?n"
    with assms(3,9) have "depths ! i \<in> set depths" by simp
    with assms(6) show "depths ! i \<noteq> 0" by auto
  qed
  have dense: "\<forall>i<?n. depths ! i = 0 \<or>
                 \<not> conv2d_channels_last E (?lc i) (sources ! i) \<and>
                 \<not> conv2d_channels_last E (?cc i) (sources ! i)"
    using assms(13) by blast
  from forward_heads_built [OF assms(1,2,3,4,5,11,9,10,12) dense, of s']
  obtain lps cps lt ct where
    fh: "forward_heads E d sources s' = (Inr (Heads (contiguous lt) (contiguous ct)), s')" and
    cat: "cat2 lps = Inr lt" "cat2 cps = Inr ct" and
    len: "length lps = ?n" "length cps = ?n" and
    pcs: "\<forall>i<?n.
            loc d ! i = Conv2d (?lc i) \<and> conf d ! i = Conv2d (?cc i) \<and>
            (\<exists>lx cx. call E (loc d ! i) (sources ! i) s' = (Inr lx, s') \<and> view lx b 4 = Inr (lps ! i) \<and>
                     call E (conf d ! i) (sources ! i) s' = (Inr cx, s') \<and> view cx b nc = Inr (cps ! i)) \<and>
            lps ! i = \<lparr>shape = [b, 4, if depths ! i = 0 then 0 else nat (mbox ! i) * (hs i * ws i)],
                       strides = contiguous_strides
                         [b, 4, if depths ! i = 0 then 0 else nat (mbox ! i) * (hs i * ws i)],
                       elems = conv2d_values E (?lc i) (sources ! i)\<rparr> \<and>
            cps ! i = \<lparr>shape = [b, nat nc, if depths ! i = 0 then 0 else nat (mbox ! i) * (hs i * ws i)],
                       strides = contiguous_strides
                         [b, nat nc, if depths ! i = 0 then 0 else nat (mbox ! i) * (hs i * ws i)],
                       elems = conv2d_values E (?cc i) (sources ! i)\<rparr>" and
    cg: "contiguous lt = lt" "contiguous ct = ct" "is_contiguous lt" "is_contiguous ct" and
    sh: "shape lt = [b, 4, \<Sum>i<?n. if depths ! i = 0 then 0 else nat (mbox ! i) * (hs i * ws i)]"
        "shape ct = [b, nat nc, \<Sum>i<?n. if depths ! i = 0 then 0 else nat (mbox ! i) * (hs i * ws i)]" and
    el: "elems lt = concat (map (\<lambda>r. concat (map (\<lambda>u. take (shape u ! 2) (drop (r * (shape u ! 2)) (elems u))) lps))
                               [0..<b * 4])"
        "elems ct = concat (map (\<lambda>r. concat (map (\<lambda>u. take (shape u ! 2) (drop (r * (shape u ! 2)) (elems u))) cps))
                               [0..<b * nat nc])"
    by blast
  have ph: "phase \<noteq> ''feature''" using assms(7) by auto
  have f: "forward E d x phase s = (Inr (Heads (contiguous lt) (contiguous ct)), s')"
    using assms(8) fh ph by (simp add: forward_def bindS_def)
  have sums: "(\<Sum>i<?n. if depths ! i = 0 then 0 else nat (mbox ! i) * (hs i * ws i)) =
              (\<Sum>i<?n. nat (mbox ! i) * (hs i * ws i))"
    using dp by (intro sum.cong) simp_all
  have pcs': "\<forall>i<?n.
              (\<exists>lx cx. call E (loc d ! i) (sources ! i) s' = (Inr lx, s') \<and> view lx b 4 = Inr (lps ! i) \<and>
                       call E (conf d ! i) (sources ! i) s' = (Inr cx, s') \<and> view cx b nc = Inr (cps ! i)) \<and>
              shape (lps ! i) = [b, 4, nat (mbox ! i) * (hs i * ws i)] \<and>
              shape (cps ! i) = [b, nat nc, nat (mbox ! i) * (hs i * ws i)]"
  proof (intro allI impI)
    fix i assume i: "i < ?n"
    note p = pcs [rule_format, OF i]
    from p have e: "\<exists>lx cx. call E (loc d ! i) (sources ! i) s' = (Inr lx, s') \<and> view lx b 4 = Inr (lps ! i) \<and>
                       call E (conf d ! i) (sources ! i) s' = (Inr cx, s') \<and> view cx b nc = Inr (cps ! i)"
      by blast
    from p have "shape (lps ! i) = [b, 4, if depths ! i = 0 then 0 else nat (mbox ! i) * (hs i * ws i)]"
      by simp
    with dp i have l: "shape (lps ! i) = [b, 4, nat (mbox ! i) * (hs i * ws i)]" by simp
    from p have "shape (cps ! i) = [b, nat nc, if depths ! i = 0 then 0 else nat (mbox ! i) * (hs i * ws i)]"
      by simp
    with dp i have c: "shape (cps ! i) = [b, nat nc, nat (mbox ! i) * (hs i * ws i)]" by simp
    from e l c
    show "(\<exists>lx cx. call E (loc d ! i) (sources ! i) s' = (Inr lx, s') \<and> view lx b 4 = Inr (lps ! i) \<and>
                       call E (conf d ! i) (sources ! i) s' = (Inr cx, s') \<and> view cx b nc = Inr (cps ! i)) \<and>
              shape (lps ! i) = [b, 4, nat (mbox ! i) * (hs i * ws i)] \<and>
              shape (cps ! i) = [b, nat nc, nat (mbox ! i) * (hs i * ws i)]"
      by blast
  qed
  show ?thesis
    apply (rule exI [of _ lps], rule exI [of _ cps], rule exI [of _ lt], rule exI [of _ ct])
    apply (intro conjI)
    apply (rule f)
    apply (rule cat(1))
    apply (rule cat(2))
    apply (rule len(1))
    apply (rule len(2))
    apply (rule pcs')
    using sh(1) sums cg(1) apply simp
    using sh(2) sums cg(2) apply simp
    using el(1) cg(1) apply simp
    using el(2) cg(2) apply simp
    using cg(1,3) apply simp
    using cg(2,4) apply simp
    done
qed

text \<open>The sample detector: sources of 2 by 2 and 1 by 1 positions, 1 and 2 boxes, so 6 anchors.\<close>

theorem forward_shapes_witness:
  "\<exists>lt ct. forward zero_engine sample_ssd sample_input ''eval'' 0 = (Inr (Heads lt ct), 0) \<and>
     shape lt = [1, 4, 6] \<and> shape ct = [1, 2, 6] \<and> is_contiguous lt \<and> is_contiguous ct"
proof -
  let ?srcs = "[\<lparr>shape = [1, 2, 2, 2], strides = [8, 4, 2, 1], elems = replicate 8 (0::nat)\<rparr>,
                \<lparr>shape = [1, 3, 1, 1], strides = [3, 1, 1, 1], elems = replicate 3 0\<rparr>]"
  have sh: "\<forall>i<length ?srcs.
           shape (?srcs ! i) = [1, nat ([2, 3] ! i), [2, 1] ! i, [2, 1] ! i] \<and>
           0 < [2, 1::nat] ! i \<and> 0 < [2, 1::nat] ! i"
    by (simp add: less_Suc_eq)
  have cl: "\<forall>i<length ?srcs.
           \<not> conv2d_channels_last zero_engine
               \<lparr>in_channels = nat ([2, 3] ! i), out_channels = nat ([1, 2] ! i * 4),
                kernel_size = 3, padding = 1\<rparr> (?srcs ! i) \<and>
           \<not> conv2d_channels_last zero_engine
               \<lparr>in_channels = nat ([2, 3] ! i), out_channels = nat ([1, 2] ! i * 2),
                kernel_size = 3, padding = 1\<rparr> (?srcs ! i)"
    by (simp add: zero_engine_def)
  have bx: "\<forall>box\<in>set [1, 2::int]. 0 < box" by simp
  have dx: "\<forall>depth\<in>set [2, 3::int]. 0 < depth" by simp
  have sm: "(\<Sum>i<length ?srcs. nat ([1, 2] ! i) * ([2, 1] ! i * [2, 1] ! i)) = (6::nat)"
    by (simp add: lessThan_Suc)
  have l1: "length [Index 1, Name ''S''] = length [2, 3::int]" by simp
  have l2: "length [2, 3::int] = length [1, 2::int]" by simp
  have nc: "0 < (2::int)" by simp
  have ph: "''eval'' = ''train'' \<or> ''eval'' = ''eval''" by simp
  have ln: "length ?srcs = length [1, 2::int]" by simp
  have ne: "?srcs \<noteq> []" by simp
  have b: "0 < (1::nat)" by simp
  from forward_shapes [where hs = "\<lambda>i. [2, 1] ! i" and ws = "\<lambda>i. [2, 1] ! i",
      OF build_sample l1 l2 nc bx dx ph sample_sources [of 0] ln ne b sh cl]
  obtain lt ct where
    r: "forward zero_engine sample_ssd sample_input ''eval'' 0 = (Inr (Heads (contiguous lt) (contiguous ct)), 0)"
       "shape (contiguous lt) = [1, 4, \<Sum>i<length ?srcs. nat ([1, 2] ! i) * ([2, 1] ! i * [2, 1] ! i)]"
       "shape (contiguous ct) = [1, nat 2, \<Sum>i<length ?srcs. nat ([1, 2] ! i) * ([2, 1] ! i * [2, 1] ! i)]"
       "is_contiguous (contiguous lt)" "is_contiguous (contiguous ct)"
    by blast
  have s1: "shape (contiguous lt) = [1, 4, 6]" using r(2) unfolding sm .
  have s2: "shape (contiguous ct) = [1, 2, 6]" using r(3) unfolding sm by simp
  from r(1) s1 s2 r(4,5) show ?thesis by blast
qed

text \<open>
  C2, as stated: sequences of different lengths, or a box count that is not positive,
  make the builder raise a configuration error before any layer is built. They do not.
  With two descriptors, one depth and three box counts \<open>add_extras\<close> returns, with the
  heads of the first entry. With the box count 0 it returns, with two convolutions
  without output channels. With the box count -1 in the second entry the constructor
  of the convolution raises its RuntimeError, after the parser built the layers of both
  entries and after the heads of the first entry were built: with a parser that raises,
  this same box count gives the exception of the parser.
\<close>

theorem add_extras_mismatched_counterexample:
  "add_extras sample_parser [resize 2 4 4, resize 2 2 2] ([Index 1, Name ''S''], [2]) [1, 2, 2] 2 =
     Inr ([resize 2 4 4, resize 2 2 2], [],
          ([Conv2d \<lparr>in_channels = 2, out_channels = 4, kernel_size = 3, padding = 1\<rparr>],
           [Conv2d \<lparr>in_channels = 2, out_channels = 2, kernel_size = 3, padding = 1\<rparr>])) \<and>
   add_extras sample_parser [resize 2 4 4, resize 2 2 2] ([Index 1], [2]) [0] 2 =
     Inr ([resize 2 4 4, resize 2 2 2], [],
          ([Conv2d \<lparr>in_channels = 2, out_channels = 0, kernel_size = 3, padding = 1\<rparr>],
           [Conv2d \<lparr>in_channels = 2, out_channels = 0, kernel_size = 3, padding = 1\<rparr>])) \<and>
   add_extras sample_parser [resize 2 4 4, resize 2 2 2] ([Index 1, Name ''S''], [2, 3]) [1, - 1] 2 =
     Inl RuntimeError \<and>
   add_extras failing_parser [resize 2 4 4, resize 2 2 2] ([Index 1, Name ''S''], [2, 3]) [1, - 1] 2 =
     Inl (Raised ''parser'')"
  by (simp add: add_extras_def sample_parser_def failing_parser_def nn_Conv2d_def fits64_def)

text \<open>
  C2, amended: \<open>add_extras\<close> checks nothing itself. It walks the entries that \<open>zip\<close>
  pairs up, \<open>n\<close> of them, the shortest of the three lengths; the entries beyond are
  ignored. When the parser returns on each of these entries and the depth, \<open>box * 4\<close>
  and \<open>box * num_classes\<close> of each are sizes the engine takes (from 0 to below
  \<open>2^63\<close>: a box count of 0 is one), it returns the base layers, the layers the parser
  returned, entry after entry, and the \<open>n\<close> pairs of heads. When it raises, some zipped
  entry \<open>j\<close> is the first where the parser or a constructor raises, and that is what it
  raises: the parser returned and the heads were built on the entries before \<open>j\<close>, and on
  entry \<open>j\<close> either the parser raises, or the parser returns and the first constructor
  raises, or the first builds and the second raises. A constructor raises TypeError for a
  channel count beyond 64 bits and else RuntimeError for a negative one.
\<close>

theorem add_extras_truncates:
  fixes P :: "('a, 's) parser"
  assumes "n = min (length layers) (min (length depths) (length mbox))"
  shows "((\<forall>i<n. (\<exists>ms. P (layers ! i) (if i = 0 then None else Some (depths ! (i - 1))) (depths ! i) = Inr ms) \<and>
                 channels_ok (depths ! i) \<and> channels_ok (mbox ! i * 4) \<and> channels_ok (mbox ! i * nc)) \<longrightarrow>
          (\<exists>sts. length sts = n \<and>
             (\<forall>i<n. P (layers ! i) (if i = 0 then None else Some (depths ! (i - 1))) (depths ! i) =
                      Inr (sts ! i)) \<and>
             add_extras P base' (layers, depths) mbox nc =
               Inr (base', concat sts,
                    (map (\<lambda>i. Conv2d \<lparr>in_channels = nat (depths ! i), out_channels = nat (mbox ! i * 4),
                                       kernel_size = 3, padding = 1\<rparr>) [0..<n],
                     map (\<lambda>i. Conv2d \<lparr>in_channels = nat (depths ! i), out_channels = nat (mbox ! i * nc),
                                       kernel_size = 3, padding = 1\<rparr>) [0..<n])))) \<and>
         (\<forall>e. add_extras P base' (layers, depths) mbox nc = Inl e \<longrightarrow>
            (\<exists>j<n.
               (\<forall>i<j. (\<exists>ms. P (layers ! i) (if i = 0 then None else Some (depths ! (i - 1))) (depths ! i) = Inr ms) \<and>
                       channels_ok (depths ! i) \<and> channels_ok (mbox ! i * 4) \<and> channels_ok (mbox ! i * nc)) \<and>
               (P (layers ! j) (if j = 0 then None else Some (depths ! (j - 1))) (depths ! j) = Inl e \<or>
                (\<exists>ms. P (layers ! j) (if j = 0 then None else Some (depths ! (j - 1))) (depths ! j) = Inr ms) \<and>
                ((nn_Conv2d (depths ! j) (mbox ! j * 4) 3 1 :: error + ('a, 's) module) = Inl e \<or>
                 channels_ok (mbox ! j * 4) \<and>
                 (nn_Conv2d (depths ! j) (mbox ! j * nc) 3 1 :: error + ('a, 's) module) = Inl e)))) \<and>
         (\<forall>i out k p e. (nn_Conv2d i out k p :: error + ('a, 's) module) = Inl e \<longleftrightarrow>
            (\<not> fits64 i \<or> \<not> fits64 out) \<and> e = TypeError \<or>
            fits64 i \<and> fits64 out \<and> (i < 0 \<or> out < 0) \<and> e = RuntimeError)"
proof (intro conjI impI allI)
  assume h: "\<forall>i<n. (\<exists>ms. P (layers ! i) (if i = 0 then None else Some (depths ! (i - 1))) (depths ! i) = Inr ms) \<and>
                 channels_ok (depths ! i) \<and> channels_ok (mbox ! i * 4) \<and> channels_ok (mbox ! i * nc)"
  then have "\<forall>i<min (length layers) (min (length depths) (length mbox)).
             (\<exists>ms. P (layers ! i) (in_channels_at None depths i) (depths ! i) = Inr ms) \<and>
             channels_ok (depths ! i) \<and> channels_ok (mbox ! i * 4) \<and> channels_ok (mbox ! i * nc)"
    unfolding assms in_channels_at_def .
  from add_extras_loop_succeeds [OF this, of "([], [], [])"]
  obtain ex lo co where
    l: "add_extras_loop P nc layers depths mbox None ([], [], []) = Inr (ex, lo, co)"
    by (metis prod_cases3)
  note c = add_extras_loop_Inr [OF l, folded assms]
  from c obtain sts where
    sts: "length sts = n" "ex = concat sts"
      "\<forall>i<length sts. P (layers ! i) (in_channels_at None depths i) (depths ! i) = Inr (sts ! i)"
    by auto
  from sts(1,3) have
    p: "\<forall>i<n. P (layers ! i) (if i = 0 then None else Some (depths ! (i - 1))) (depths ! i) = Inr (sts ! i)"
    by (simp add: in_channels_at_def)
  from c have
    lo: "lo = map (\<lambda>i. Conv2d \<lparr>in_channels = nat (depths ! i), out_channels = nat (mbox ! i * 4),
                               kernel_size = 3, padding = 1\<rparr>) [0..<n]" and
    co: "co = map (\<lambda>i. Conv2d \<lparr>in_channels = nat (depths ! i), out_channels = nat (mbox ! i * nc),
                               kernel_size = 3, padding = 1\<rparr>) [0..<n]"
    by simp_all
  have a: "add_extras P base' (layers, depths) mbox nc =
               Inr (base', concat sts,
                    (map (\<lambda>i. Conv2d \<lparr>in_channels = nat (depths ! i), out_channels = nat (mbox ! i * 4),
                                       kernel_size = 3, padding = 1\<rparr>) [0..<n],
                     map (\<lambda>i. Conv2d \<lparr>in_channels = nat (depths ! i), out_channels = nat (mbox ! i * nc),
                                       kernel_size = 3, padding = 1\<rparr>) [0..<n]))"
    using l sts(2) lo co by (simp add: add_extras_def)
  from sts(1) p a
  show "\<exists>sts. length sts = n \<and>
             (\<forall>i<n. P (layers ! i) (if i = 0 then None else Some (depths ! (i - 1))) (depths ! i) =
                      Inr (sts ! i)) \<and>
             add_extras P base' (layers, depths) mbox nc =
               Inr (base', concat sts,
                    (map (\<lambda>i. Conv2d \<lparr>in_channels = nat (depths ! i), out_channels = nat (mbox ! i * 4),
                                       kernel_size = 3, padding = 1\<rparr>) [0..<n],
                     map (\<lambda>i. Conv2d \<lparr>in_channels = nat (depths ! i), out_channels = nat (mbox ! i * nc),
                                       kernel_size = 3, padding = 1\<rparr>) [0..<n]))"
    by blast
next
  fix e assume "add_extras P base' (layers, depths) mbox nc = Inl e"
  then have "add_extras_loop P nc layers depths mbox None ([], [], []) = Inl e"
    by (auto simp: add_extras_def split: sum.splits)
  from add_extras_loop_Inl [OF this, folded assms, unfolded in_channels_at_def]
  show "\<exists>j<n.
               (\<forall>i<j. (\<exists>ms. P (layers ! i) (if i = 0 then None else Some (depths ! (i - 1))) (depths ! i) = Inr ms) \<and>
                       channels_ok (depths ! i) \<and> channels_ok (mbox ! i * 4) \<and> channels_ok (mbox ! i * nc)) \<and>
               (P (layers ! j) (if j = 0 then None else Some (depths ! (j - 1))) (depths ! j) = Inl e \<or>
                (\<exists>ms. P (layers ! j) (if j = 0 then None else Some (depths ! (j - 1))) (depths ! j) = Inr ms) \<and>
                ((nn_Conv2d (depths ! j) (mbox ! j * 4) 3 1 :: error + ('a, 's) module) = Inl e \<or>
                 channels_ok (mbox ! j * 4) \<and>
                 (nn_Conv2d (depths ! j) (mbox ! j * nc) 3 1 :: error + ('a, 's) module) = Inl e))" .
next
  fix i out k p e
  show "((nn_Conv2d i out k p :: error + ('a, 's) module) = Inl e) =
            ((\<not> fits64 i \<or> \<not> fits64 out) \<and> e = TypeError \<or>
            fits64 i \<and> fits64 out \<and> (i < 0 \<or> out < 0) \<and> e = RuntimeError)"
    by (rule nn_Conv2d_Inl)
qed

text \<open>
  Two descriptors, one depth, three box counts: one pair of heads. And the box count -1
  in the second of two entries: entry 1 is where the builder raises.
\<close>

theorem add_extras_truncates_witness:
  "(\<exists>sts. length sts = 1 \<and>
      sample_parser (Index 1) None 2 = Inr (sts ! 0) \<and>
      add_extras sample_parser [resize 2 4 4, resize 2 2 2] ([Index 1, Name ''S''], [2]) [1, 2, 2] 2 =
        Inr ([resize 2 4 4, resize 2 2 2], concat sts,
             ([Conv2d \<lparr>in_channels = 2, out_channels = 4, kernel_size = 3, padding = 1\<rparr>],
              [Conv2d \<lparr>in_channels = 2, out_channels = 2, kernel_size = 3, padding = 1\<rparr>]))) \<and>
   (\<exists>j<2. sample_parser ([Index 1, Name ''S''] ! j) (if j = 0 then None else Some ([2, 3] ! (j - 1))) ([2, 3] ! j) =
             Inl RuntimeError \<or>
           (\<exists>ms. sample_parser ([Index 1, Name ''S''] ! j) (if j = 0 then None else Some ([2, 3] ! (j - 1)))
                    ([2, 3] ! j) = Inr ms) \<and>
           ((nn_Conv2d ([2, 3] ! j) ([1, - 1] ! j * 4) 3 1 :: error + (nat, nat) module) = Inl RuntimeError \<or>
            channels_ok ([1, - 1] ! j * 4) \<and>
            (nn_Conv2d ([2, 3] ! j) ([1, - 1] ! j * 2) 3 1 :: error + (nat, nat) module) = Inl RuntimeError))"
proof -
  have n: "(1::nat) = min (length [Index 1, Name ''S'']) (min (length [2::int]) (length [1, 2, 2::int]))"
    by simp
  have p: "\<forall>i<1::nat. (\<exists>ms. sample_parser ([Index 1, Name ''S''] ! i)
                 (if i = 0 then None else Some ([2] ! (i - 1))) ([2] ! i) = Inr ms) \<and>
                channels_ok ([2::int] ! i) \<and> channels_ok ([1, 2, 2::int] ! i * 4) \<and>
                channels_ok ([1, 2, 2::int] ! i * 2)"
    by (simp add: sample_parser_def channels_ok_def)
  note t = add_extras_truncates [OF n, of sample_parser 2 "[resize 2 4 4, resize 2 2 2]"]
  from t p obtain sts where
    s: "length sts = 1"
       "\<forall>i<1. sample_parser ([Index 1, Name ''S''] ! i) (if i = 0 then None else Some ([2] ! (i - 1))) ([2] ! i) =
                 Inr (sts ! i)"
       "add_extras sample_parser [resize 2 4 4, resize 2 2 2] ([Index 1, Name ''S''], [2]) [1, 2, 2] 2 =
          Inr ([resize 2 4 4, resize 2 2 2], concat sts,
               (map (\<lambda>i. Conv2d \<lparr>in_channels = nat ([2] ! i), out_channels = nat ([1, 2, 2] ! i * 4),
                                  kernel_size = 3, padding = 1\<rparr>) [0..<1],
                map (\<lambda>i. Conv2d \<lparr>in_channels = nat ([2] ! i), out_channels = nat ([1, 2, 2] ! i * 2),
                                  kernel_size = 3, padding = 1\<rparr>) [0..<1]))"
    by blast
  from s(2) [rule_format, of 0] have p0: "sample_parser (Index 1) None 2 = Inr (sts ! 0)" by simp
  from s(3) have a0: "add_extras sample_parser [resize 2 4 4, resize 2 2 2] ([Index 1, Name ''S''], [2]) [1, 2, 2] 2 =
        Inr ([resize 2 4 4, resize 2 2 2], concat sts,
             ([Conv2d \<lparr>in_channels = 2, out_channels = 4, kernel_size = 3, padding = 1\<rparr>],
              [Conv2d \<lparr>in_channels = 2, out_channels = 2, kernel_size = 3, padding = 1\<rparr>]))"
    by simp
  from s(1) p0 a0 have first: "\<exists>sts. length sts = 1 \<and>
      sample_parser (Index 1) None 2 = Inr (sts ! 0) \<and>
      add_extras sample_parser [resize 2 4 4, resize 2 2 2] ([Index 1, Name ''S''], [2]) [1, 2, 2] 2 =
        Inr ([resize 2 4 4, resize 2 2 2], concat sts,
             ([Conv2d \<lparr>in_channels = 2, out_channels = 4, kernel_size = 3, padding = 1\<rparr>],
              [Conv2d \<lparr>in_channels = 2, out_channels = 2, kernel_size = 3, padding = 1\<rparr>]))"
    by blast
  have n2: "(2::nat) = min (length [Index 1, Name ''S'']) (min (length [2, 3::int]) (length [1, - 1::int]))"
    by simp
  have r: "add_extras sample_parser [resize 2 4 4, resize 2 2 2] ([Index 1, Name ''S''], [2, 3]) [1, - 1] 2 =
     Inl RuntimeError"
    by (simp add: add_extras_def sample_parser_def nn_Conv2d_def fits64_def)
  note u = add_extras_truncates [OF n2, of sample_parser 2 "[resize 2 4 4, resize 2 2 2]"]
  from u r have "\<exists>j<2.
       (\<forall>i<j. (\<exists>ms. sample_parser ([Index 1, Name ''S''] ! i) (if i = 0 then None else Some ([2, 3] ! (i - 1)))
                       ([2, 3] ! i) = Inr ms) \<and>
               channels_ok ([2, 3] ! i) \<and> channels_ok ([1, - 1] ! i * 4) \<and> channels_ok ([1, - 1] ! i * 2)) \<and>
       (sample_parser ([Index 1, Name ''S''] ! j) (if j = 0 then None else Some ([2, 3] ! (j - 1))) ([2, 3] ! j) =
             Inl RuntimeError \<or>
           (\<exists>ms. sample_parser ([Index 1, Name ''S''] ! j) (if j = 0 then None else Some ([2, 3] ! (j - 1)))
                    ([2, 3] ! j) = Inr ms) \<and>
           ((nn_Conv2d ([2, 3] ! j) ([1, - 1] ! j * 4) 3 1 :: error + (nat, nat) module) = Inl RuntimeError \<or>
            channels_ok ([1, - 1] ! j * 4) \<and>
            (nn_Conv2d ([2, 3] ! j) ([1, - 1] ! j * 2) 3 1 :: error + (nat, nat) module) = Inl RuntimeError))"
    by blast
  then have second: "\<exists>j<2. sample_parser ([Index 1, Name ''S''] ! j) (if j = 0 then None else Some ([2, 3] ! (j - 1))) ([2, 3] ! j) =
             Inl RuntimeError \<or>
           (\<exists>ms. sample_parser ([Index 1, Name ''S''] ! j) (if j = 0 then None else Some ([2, 3] ! (j - 1)))
                    ([2, 3] ! j) = Inr ms) \<and>
           ((nn_Conv2d ([2, 3] ! j) ([1, - 1] ! j * 4) 3 1 :: error + (nat, nat) module) = Inl RuntimeError \<or>
            channels_ok ([1, - 1] ! j * 4) \<and>
            (nn_Conv2d ([2, 3] ! j) ([1, - 1] ! j * 2) 3 1 :: error + (nat, nat) module) = Inl RuntimeError)"
    by blast
  from first second show ?thesis by (rule conjI)
qed

text \<open>
  C3. In mode "feature" forward applies the base layers one after the other to the
  input, then the extra layers one after the other to the output of the last base layer,
  and returns at once the list made of the outputs of the base layers whose index is in
  \<open>feature_layer\<close>, in the order of the layers, followed by the output of every extra
  layer, in the order of the layers; it raises what the first failing layer raises.
  The heads are not called: with any modules in the place of \<open>loc\<close> and \<open>conf\<close>, also
  ones that raise or that change the state, the result and the state are the same.
\<close>

theorem forward_feature:
  "forward E d x ''feature'' =
     bindS (outputs E (base d) x) (\<lambda>bs.
     bindS (outputs E (extras d) (last (x # bs))) (\<lambda>es.
       returnS (Sources (map (\<lambda>k. bs ! k)
                           (filter (\<lambda>k. Index (int k) \<in> set (feature_layer d)) [0..<length (base d)])
                         @ es)))) \<and>
   forward E (d\<lparr>loc := l, conf := c\<rparr>) x ''feature'' = forward E d x ''feature''"
  by (simp add: forward_def forward_sources_outputs bindS_assoc returnS_def)

text \<open>
  The sample detector with counting modules as heads: the source of the base layer 1,
  then the source of the extra layer, and the counter stays at 0.
\<close>

theorem forward_feature_witness:
  "forward zero_engine (sample_ssd\<lparr>loc := [counting], conf := [counting]\<rparr>) sample_input ''feature'' 0 =
     (Inr (Sources [\<lparr>shape = [1, 2, 2, 2], strides = [8, 4, 2, 1], elems = replicate 8 0\<rparr>,
                    \<lparr>shape = [1, 3, 1, 1], strides = [3, 1, 1, 1], elems = replicate 3 0\<rparr>]), 0)"
proof -
  note t = forward_feature [of zero_engine sample_ssd sample_input "[counting]" "[counting]"]
  from t have "forward zero_engine (sample_ssd\<lparr>loc := [counting], conf := [counting]\<rparr>) sample_input ''feature'' 0 =
      bindS (outputs zero_engine (base sample_ssd) sample_input) (\<lambda>bs.
      bindS (outputs zero_engine (extras sample_ssd) (last (sample_input # bs))) (\<lambda>es.
        returnS (Sources (map (\<lambda>k. bs ! k)
                           (filter (\<lambda>k. Index (int k) \<in> set (feature_layer sample_ssd))
                              [0..<length (base sample_ssd)])
                         @ es)))) 0"
    by simp
  also have "\<dots> = (Inr (Sources [\<lparr>shape = [1, 2, 2, 2], strides = [8, 4, 2, 1], elems = replicate 8 0\<rparr>,
                    \<lparr>shape = [1, 3, 1, 1], strides = [3, 1, 1, 1], elems = replicate 3 0\<rparr>]), 0)"
    by code_simp
  finally show ?thesis .
qed

text \<open>
  C4, as stated: a mode outside "train", "eval" and "feature" makes forward fail with an
  error. It does not: on the sample detector the mode "test" returns the head tensors.
\<close>

theorem forward_unrecognised_phase_counterexample:
  "forward zero_engine sample_ssd sample_input ''test'' 0 =
     (Inr (Heads \<lparr>shape = [1, 4, 6], strides = [24, 6, 1], elems = replicate 24 0\<rparr>
                 \<lparr>shape = [1, 2, 6], strides = [12, 6, 1], elems = replicate 12 0\<rparr>), 0)"
  by code_simp

text \<open>
  C4, amended: forward rejects no mode. With a mode outside "train", "eval" and "feature"
  it does what it does with "eval": it computes the heads.
\<close>

theorem forward_unrecognised_phase:
  assumes "phase \<noteq> ''train''" and "phase \<noteq> ''eval''" and "phase \<noteq> ''feature''"
  shows "forward E d x phase s = forward E d x ''eval'' s"
  using assms by (simp add: forward_def)

text \<open>The mode "test" on the sample detector.\<close>

theorem forward_unrecognised_phase_witness:
  "forward zero_engine sample_ssd sample_input ''test'' 0 =
   forward zero_engine sample_ssd sample_input ''eval'' 0"
  using forward_unrecognised_phase [of "''test''" zero_engine sample_ssd sample_input 0]
  by simp

text \<open>
  C5. When \<open>add_extras\<close> returns, it returns the base layers it was given and, with
  \<open>n\<close> the number of entries \<open>zip\<close> pairs up, exactly \<open>n\<close> convolutions in each
  head list: for entry \<open>i\<close>, in this order, a convolution from \<open>depth i\<close> channels to
  \<open>box i * 4\<close>, kernel 3, padding 1, in the first list and one from \<open>depth i\<close>
  channels to \<open>box i * num_classes\<close>, kernel 3, padding 1, in the second (the channel
  counts are sizes the engine takes). The parser was called for every entry \<open>i\<close> with
  the descriptor, the running input channels (none at the first entry, the depth of the
  entry before otherwise) and \<open>depth i\<close>, and the extra layers are the layers it
  returned, entry after entry; the heads of the entry take \<open>depth i\<close>, the value of
  the running input channels after that call.
\<close>

theorem add_extras_heads:
  assumes "add_extras P base' (layers, depths) mbox nc = Inr (b, extra_layers, (loc_layers, conf_layers))"
    and "n = min (length layers) (min (length depths) (length mbox))"
  shows "b = base' \<and>
         loc_layers = map (\<lambda>i. Conv2d \<lparr>in_channels = nat (depths ! i), out_channels = nat (mbox ! i * 4),
                                        kernel_size = 3, padding = 1\<rparr>) [0..<n] \<and>
         conf_layers = map (\<lambda>i. Conv2d \<lparr>in_channels = nat (depths ! i), out_channels = nat (mbox ! i * nc),
                                         kernel_size = 3, padding = 1\<rparr>) [0..<n] \<and>
         (\<forall>i<n. channels_ok (depths ! i) \<and> channels_ok (mbox ! i * 4) \<and> channels_ok (mbox ! i * nc)) \<and>
         (\<exists>sts. length sts = n \<and> extra_layers = concat sts \<and>
            (\<forall>i<n. P (layers ! i) (if i = 0 then None else Some (depths ! (i - 1))) (depths ! i) =
                     Inr (sts ! i)))"
proof -
  from add_extras_Inr [OF assms(1)] have
    b: "b = base'" and
    l: "add_extras_loop P nc layers depths mbox None ([], [], []) = Inr (extra_layers, loc_layers, conf_layers)"
    by simp_all
  note c = add_extras_loop_Inr [OF l, folded assms(2)]
  from c obtain sts where
    sts: "length sts = n" "extra_layers = concat sts"
      "\<forall>i<length sts. P (layers ! i) (in_channels_at None depths i) (depths ! i) = Inr (sts ! i)"
    by auto
  from sts(1,3) have
    p: "\<forall>i<n. P (layers ! i) (if i = 0 then None else Some (depths ! (i - 1))) (depths ! i) = Inr (sts ! i)"
    by (simp add: in_channels_at_def)
  from sts(1,2) p have
    e: "\<exists>sts. length sts = n \<and> extra_layers = concat sts \<and>
            (\<forall>i<n. P (layers ! i) (if i = 0 then None else Some (depths ! (i - 1))) (depths ! i) =
                     Inr (sts ! i))"
    by blast
  from c have
    lo: "loc_layers = map (\<lambda>i. Conv2d \<lparr>in_channels = nat (depths ! i), out_channels = nat (mbox ! i * 4),
                                        kernel_size = 3, padding = 1\<rparr>) [0..<n]" and
    co: "conf_layers = map (\<lambda>i. Conv2d \<lparr>in_channels = nat (depths ! i), out_channels = nat (mbox ! i * nc),
                                         kernel_size = 3, padding = 1\<rparr>) [0..<n]" and
    ok: "\<forall>i<n. channels_ok (depths ! i) \<and> channels_ok (mbox ! i * 4) \<and> channels_ok (mbox ! i * nc)"
    by simp_all
  from b lo co ok e show ?thesis by blast
qed

text \<open>The sample configuration: two entries, two pairs of heads, one extra layer.\<close>

theorem add_extras_heads_witness:
  "[Conv2d \<lparr>in_channels = 2, out_channels = 4, kernel_size = 3, padding = 1\<rparr>,
    Conv2d \<lparr>in_channels = 3, out_channels = 8, kernel_size = 3, padding = 1\<rparr>] =
     map (\<lambda>i. Conv2d \<lparr>in_channels = nat ([2, 3] ! i), out_channels = nat ([1, 2] ! i * 4),
                       kernel_size = 3, padding = 1\<rparr> :: (nat, nat) module) [0..<2] \<and>
   [Conv2d \<lparr>in_channels = 2, out_channels = 2, kernel_size = 3, padding = 1\<rparr>,
    Conv2d \<lparr>in_channels = 3, out_channels = 4, kernel_size = 3, padding = 1\<rparr>] =
     map (\<lambda>i. Conv2d \<lparr>in_channels = nat ([2, 3] ! i), out_channels = nat ([1, 2] ! i * 2),
                       kernel_size = 3, padding = 1\<rparr> :: (nat, nat) module) [0..<2] \<and>
   (\<exists>sts. length sts = 2 \<and> [resize 3 1 1] = concat sts \<and>
      sample_parser (Index 1) None 2 = Inr (sts ! 0) \<and>
      sample_parser (Name ''S'') (Some 2) 3 = Inr (sts ! 1))"
proof -
  have a: "add_extras sample_parser [resize 2 4 4, resize 2 2 2] ([Index 1, Name ''S''], [2, 3]) [1, 2] 2 =
      Inr ([resize 2 4 4, resize 2 2 2], [resize 3 1 1],
           ([Conv2d \<lparr>in_channels = 2, out_channels = 4, kernel_size = 3, padding = 1\<rparr>,
             Conv2d \<lparr>in_channels = 3, out_channels = 8, kernel_size = 3, padding = 1\<rparr>],
            [Conv2d \<lparr>in_channels = 2, out_channels = 2, kernel_size = 3, padding = 1\<rparr>,
             Conv2d \<lparr>in_channels = 3, out_channels = 4, kernel_size = 3, padding = 1\<rparr>]))"
    by (simp add: add_extras_def sample_parser_def nn_Conv2d_def fits64_def)
  have n: "(2::nat) = min (length [Index 1, Name ''S'']) (min (length [2, 3::int]) (length [1, 2::int]))"
    by simp
  note t = add_extras_heads [OF a n]
  from t obtain sts where
    s: "length sts = 2" "[resize 3 1 1] = concat sts"
       "\<forall>i<2. sample_parser ([Index 1, Name ''S''] ! i) (if i = 0 then None else Some ([2, 3] ! (i - 1))) ([2, 3] ! i) =
                 Inr (sts ! i)"
    by blast
  from s(3) [rule_format, of 0] have p0: "sample_parser (Index 1) None 2 = Inr (sts ! 0)" by simp
  from s(3) [rule_format, of 1] have p1: "sample_parser (Name ''S'') (Some 2) 3 = Inr (sts ! 1)" by simp
  from s(1,2) p0 p1 have e: "\<exists>sts. length sts = 2 \<and> [resize 3 1 1] = concat sts \<and>
      sample_parser (Index 1) None 2 = Inr (sts ! 0) \<and>
      sample_parser (Name ''S'') (Some 2) 3 = Inr (sts ! 1)"
    by blast
  from t e show ?thesis by blast
qed

text \<open>
  C6. A valid configuration: the three sequences have the same length, the base indices
  among the descriptors are distinct indices of base layers, and the parser returns no
  layer for an index and one layer for a name. For the detector \<open>build_ssd\<close> makes of
  it, whenever the base and extra layers run through, the number of sources is the
  number of \<open>loc\<close> convolutions, of \<open>conf\<close> convolutions and of box counts.
\<close>

theorem sources_match_heads:
  assumes "build_ssd P base_factory (layers, depths) mbox nc = Inr d"
    and "length layers = length depths" and "length depths = length mbox"
    and "\<forall>l i dp ms. P l i dp = Inr ms \<longrightarrow> length ms = (case l of Index k \<Rightarrow> 0 | Name n \<Rightarrow> 1)"
    and "distinct (base_taps layers)"
    and "\<forall>k\<in>set (base_taps layers). 0 \<le> k \<and> k < int (length (base d))"
    and "forward_sources E d x s = (Inr sources, s')"
  shows "length sources = length (loc d) \<and> length (loc d) = length (conf d) \<and>
         length (conf d) = length mbox"
proof -
  from build_ssd_Inr [OF assms(1)] obtain b ex lo co where
    l: "add_extras_loop P nc layers depths mbox None ([], [], []) = Inr (ex, lo, co)" and
    d: "d = SSD_init b ex (lo, co) (layers, depths) nc"
    by blast
  have fields: "extras d = ex" "loc d = lo" "conf d = co" "feature_layer d = layers"
    using d by (simp_all add: SSD_init_def)
  have m: "min (length layers) (min (length depths) (length mbox)) = length mbox"
    using assms(2,3) by simp
  note c = add_extras_loop_Inr [OF l, unfolded m]
  from c obtain sts where
    sts: "length sts = length mbox" "ex = concat sts"
      "\<forall>i<length sts. P (layers ! i) (in_channels_at None depths i) (depths ! i) = Inr (sts ! i)"
    by auto
  from c have hl: "length lo = length mbox" "length co = length mbox" by simp_all
  have "map length sts = map (\<lambda>l. case l of Index k \<Rightarrow> 0 | Name n \<Rightarrow> Suc 0) layers"
  proof (rule nth_equalityI)
    show "length (map length sts) = length (map (\<lambda>l. case l of Index k \<Rightarrow> 0 | Name n \<Rightarrow> Suc 0) layers)"
      using sts(1) assms(2,3) by simp
    fix i assume "i < length (map length sts)"
    then have i: "i < length sts" by simp
    with sts(3) have "P (layers ! i) (in_channels_at None depths i) (depths ! i) = Inr (sts ! i)"
      by simp
    with assms(4) have "length (sts ! i) = (case layers ! i of Index k \<Rightarrow> 0 | Name n \<Rightarrow> 1)"
      by blast
    with i sts(1) assms(2,3)
    show "map length sts ! i = map (\<lambda>l. case l of Index k \<Rightarrow> 0 | Name n \<Rightarrow> Suc 0) layers ! i"
      by (simp split: layer.splits)
  qed
  then have ex: "length ex = sum_list (map (\<lambda>l. case l of Index k \<Rightarrow> 0 | Name n \<Rightarrow> Suc 0) layers)"
    using sts(2) by (simp add: length_concat_stages)
  have taps: "length (filter (\<lambda>j. Index (int j) \<in> set layers) [0..<length (base d)]) = length (base_taps layers)"
    using assms(5,6) by (rule tapped_count)
  have "length sources = length (base_taps layers) + length ex"
    using forward_sources_length [OF assms(7)] taps fields by simp
  also have "\<dots> = length layers" using ex kinds_count [of layers] by simp
  finally have "length sources = length mbox" using assms(2,3) by simp
  with hl fields show ?thesis by simp
qed

text \<open>The sample configuration: one base index, one named layer, two sources.\<close>

theorem sources_match_heads_witness:
  "length [\<lparr>shape = [1, 2, 2, 2], strides = [8, 4, 2, 1], elems = replicate 8 (0::nat)\<rparr>,
           \<lparr>shape = [1, 3, 1, 1], strides = [3, 1, 1, 1], elems = replicate 3 0\<rparr>] = length (loc sample_ssd) \<and>
   length (loc sample_ssd) = length (conf sample_ssd) \<and>
   length (conf sample_ssd) = length [1, 2::int]"
proof -
  have p: "\<forall>l i dp ms. sample_parser l i dp = Inr ms \<longrightarrow>
             length ms = (case l of Index k \<Rightarrow> 0 | Name n \<Rightarrow> 1)"
  proof (intro allI impI)
    fix l i dp ms assume "sample_parser l i dp = Inr ms"
    then show "length ms = (case l of Index k \<Rightarrow> 0 | Name n \<Rightarrow> 1)"
      by (cases l) (auto simp: sample_parser_def split: if_splits)
  qed
  have t: "distinct (base_taps [Index 1, Name ''S''])"
    by (simp add: base_taps_def)
  have r: "\<forall>k\<in>set (base_taps [Index 1, Name ''S'']). 0 \<le> k \<and> k < int (length (base sample_ssd))"
    by (simp add: base_taps_def sample_ssd_def SSD_init_def)
  have l1: "length [Index 1, Name ''S''] = length [2, 3::int]" by simp
  have l2: "length [2, 3::int] = length [1, 2::int]" by simp
  from sources_match_heads [OF build_sample l1 l2 p t r sample_sources [of 0]]
  show ?thesis .
qed



text \<open>
  C8. The softmax module stored at construction is not used by forward: with any module
  in its place, also one that raises or changes the state, forward does the same. For
  a built detector run in mode "train" or "eval" as in C1 (a depth may be 0 here), the
  tensors that are concatenated hold, scale by scale, the very elements the \<open>loc\<close> and
  \<open>conf\<close> convolutions computed on the source; nothing is applied to them but \<open>view\<close>.
\<close>

theorem forward_no_softmax:
  assumes "build_ssd P base_factory (layers, depths) mbox nc = Inr d"
    and "length layers = length depths" and "length depths = length mbox"
    and "0 < nc" and "\<forall>box\<in>set mbox. 0 < box"
    and "phase = ''train'' \<or> phase = ''eval''"
    and "forward_sources E d x s = (Inr sources, s')"
    and "length sources = length mbox" and "sources \<noteq> []"
    and "0 < b"
    and "\<forall>i<length sources.
           shape (sources ! i) = [b, nat (depths ! i), hs i, ws i] \<and> 0 < hs i \<and> 0 < ws i"
    and "\<forall>i<length sources. depths ! i = 0 \<or>
           \<not> conv2d_channels_last E \<lparr>in_channels = nat (depths ! i), out_channels = nat (mbox ! i * 4),
                                     kernel_size = 3, padding = 1\<rparr> (sources ! i) \<and>
           \<not> conv2d_channels_last E \<lparr>in_channels = nat (depths ! i), out_channels = nat (mbox ! i * nc),
                                     kernel_size = 3, padding = 1\<rparr> (sources ! i)"
  shows "forward E (d\<lparr>softmax := m\<rparr>) x phase s = forward E d x phase s \<and>
         (\<exists>lps cps lt ct.
            forward E d x phase s = (Inr (Heads (contiguous lt) (contiguous ct)), s') \<and>
            cat2 lps = Inr lt \<and> cat2 cps = Inr ct \<and>
            length lps = length sources \<and> length cps = length sources \<and>
            (\<forall>i<length sources.
               loc d ! i = Conv2d \<lparr>in_channels = nat (depths ! i), out_channels = nat (mbox ! i * 4),
                                    kernel_size = 3, padding = 1\<rparr> \<and>
               conf d ! i = Conv2d \<lparr>in_channels = nat (depths ! i), out_channels = nat (mbox ! i * nc),
                                     kernel_size = 3, padding = 1\<rparr> \<and>
               elems (lps ! i) =
                 conv2d_values E \<lparr>in_channels = nat (depths ! i), out_channels = nat (mbox ! i * 4),
                                   kernel_size = 3, padding = 1\<rparr> (sources ! i) \<and>
               elems (cps ! i) =
                 conv2d_values E \<lparr>in_channels = nat (depths ! i), out_channels = nat (mbox ! i * nc),
                                   kernel_size = 3, padding = 1\<rparr> (sources ! i)))"
proof -
  let ?n = "length sources"
  let ?lc = "\<lambda>i. \<lparr>in_channels = nat (depths ! i), out_channels = nat (mbox ! i * 4),
                    kernel_size = 3, padding = 1\<rparr>"
  let ?cc = "\<lambda>i. \<lparr>in_channels = nat (depths ! i), out_channels = nat (mbox ! i * nc),
                    kernel_size = 3, padding = 1\<rparr>"
  from forward_heads_built [OF assms(1,2,3,4,5,10,8,9,11,12), of s']
  obtain lps cps lt ct where
    fh: "forward_heads E d sources s' = (Inr (Heads (contiguous lt) (contiguous ct)), s')" and
    cat: "cat2 lps = Inr lt" "cat2 cps = Inr ct" and
    len: "length lps = ?n" "length cps = ?n" and
    pcs: "\<forall>i<?n.
            loc d ! i = Conv2d (?lc i) \<and> conf d ! i = Conv2d (?cc i) \<and>
            (\<exists>lx cx. call E (loc d ! i) (sources ! i) s' = (Inr lx, s') \<and> view lx b 4 = Inr (lps ! i) \<and>
                     call E (conf d ! i) (sources ! i) s' = (Inr cx, s') \<and> view cx b nc = Inr (cps ! i)) \<and>
            lps ! i = \<lparr>shape = [b, 4, if depths ! i = 0 then 0 else nat (mbox ! i) * (hs i * ws i)],
                       strides = contiguous_strides
                         [b, 4, if depths ! i = 0 then 0 else nat (mbox ! i) * (hs i * ws i)],
                       elems = conv2d_values E (?lc i) (sources ! i)\<rparr> \<and>
            cps ! i = \<lparr>shape = [b, nat nc, if depths ! i = 0 then 0 else nat (mbox ! i) * (hs i * ws i)],
                       strides = contiguous_strides
                         [b, nat nc, if depths ! i = 0 then 0 else nat (mbox ! i) * (hs i * ws i)],
                       elems = conv2d_values E (?cc i) (sources ! i)\<rparr>"
    by blast
  have ph: "phase \<noteq> ''feature''" using assms(6) by auto
  have f: "forward E d x phase s = (Inr (Heads (contiguous lt) (contiguous ct)), s')"
    using assms(7) fh ph by (simp add: forward_def bindS_def)
  have pcs': "\<forall>i<?n.
               loc d ! i = Conv2d (?lc i) \<and> conf d ! i = Conv2d (?cc i) \<and>
               elems (lps ! i) = conv2d_values E (?lc i) (sources ! i) \<and>
               elems (cps ! i) = conv2d_values E (?cc i) (sources ! i)"
  proof (intro allI impI)
    fix i assume i: "i < ?n"
    note p = pcs [rule_format, OF i]
    from p have l: "loc d ! i = Conv2d (?lc i)" and c: "conf d ! i = Conv2d (?cc i)" by blast+
    from p have "lps ! i = \<lparr>shape = [b, 4, if depths ! i = 0 then 0 else nat (mbox ! i) * (hs i * ws i)],
                       strides = contiguous_strides
                         [b, 4, if depths ! i = 0 then 0 else nat (mbox ! i) * (hs i * ws i)],
                       elems = conv2d_values E (?lc i) (sources ! i)\<rparr>"
      by blast
    then have el: "elems (lps ! i) = conv2d_values E (?lc i) (sources ! i)" by simp
    from p have "cps ! i = \<lparr>shape = [b, nat nc, if depths ! i = 0 then 0 else nat (mbox ! i) * (hs i * ws i)],
                       strides = contiguous_strides
                         [b, nat nc, if depths ! i = 0 then 0 else nat (mbox ! i) * (hs i * ws i)],
                       elems = conv2d_values E (?cc i) (sources ! i)\<rparr>"
      by blast
    then have ec: "elems (cps ! i) = conv2d_values E (?cc i) (sources ! i)" by simp
    from l c el ec
    show "loc d ! i = Conv2d (?lc i) \<and> conf d ! i = Conv2d (?cc i) \<and>
               elems (lps ! i) = conv2d_values E (?lc i) (sources ! i) \<and>
               elems (cps ! i) = conv2d_values E (?cc i) (sources ! i)"
      by blast
  qed
  have e: "\<exists>lps cps lt ct.
            forward E d x phase s = (Inr (Heads (contiguous lt) (contiguous ct)), s') \<and>
            cat2 lps = Inr lt \<and> cat2 cps = Inr ct \<and>
            length lps = length sources \<and> length cps = length sources \<and>
            (\<forall>i<length sources.
               loc d ! i = Conv2d (?lc i) \<and> conf d ! i = Conv2d (?cc i) \<and>
               elems (lps ! i) = conv2d_values E (?lc i) (sources ! i) \<and>
               elems (cps ! i) = conv2d_values E (?cc i) (sources ! i))"
    apply (rule exI [of _ lps], rule exI [of _ cps], rule exI [of _ lt], rule exI [of _ ct])
    apply (intro conjI)
    apply (rule f)
    apply (rule cat(1))
    apply (rule cat(2))
    apply (rule len(1))
    apply (rule len(2))
    apply (rule pcs')
    done
  have sm: "forward E (d\<lparr>softmax := m\<rparr>) x phase s = forward E d x phase s"
    by (simp add: forward_softmax_irrelevant)
  from sm e show ?thesis by (rule conjI)
qed

text \<open>The sample detector with a counting module in the place of the softmax.\<close>

theorem forward_no_softmax_witness:
  "forward zero_engine (sample_ssd\<lparr>softmax := counting\<rparr>) sample_input ''eval'' 0 =
     forward zero_engine sample_ssd sample_input ''eval'' 0 \<and>
   (\<exists>lt ct. forward zero_engine sample_ssd sample_input ''eval'' 0 = (Inr (Heads lt ct), 0))"
proof -
  let ?srcs = "[\<lparr>shape = [1, 2, 2, 2], strides = [8, 4, 2, 1], elems = replicate 8 (0::nat)\<rparr>,
                \<lparr>shape = [1, 3, 1, 1], strides = [3, 1, 1, 1], elems = replicate 3 0\<rparr>]"
  have sh: "\<forall>i<length ?srcs.
           shape (?srcs ! i) = [1, nat ([2, 3] ! i), [2, 1] ! i, [2, 1] ! i] \<and>
           0 < [2, 1::nat] ! i \<and> 0 < [2, 1::nat] ! i"
    by (simp add: less_Suc_eq)
  have cl: "\<forall>i<length ?srcs. [2, 3::int] ! i = 0 \<or>
           \<not> conv2d_channels_last zero_engine
               \<lparr>in_channels = nat ([2, 3] ! i), out_channels = nat ([1, 2] ! i * 4),
                kernel_size = 3, padding = 1\<rparr> (?srcs ! i) \<and>
           \<not> conv2d_channels_last zero_engine
               \<lparr>in_channels = nat ([2, 3] ! i), out_channels = nat ([1, 2] ! i * 2),
                kernel_size = 3, padding = 1\<rparr> (?srcs ! i)"
    by (simp add: zero_engine_def)
  have bx: "\<forall>box\<in>set [1, 2::int]. 0 < box" by simp
  have l1: "length [Index 1, Name ''S''] = length [2, 3::int]" by simp
  have l2: "length [2, 3::int] = length [1, 2::int]" by simp
  have nc: "0 < (2::int)" by simp
  have ph: "''eval'' = ''train'' \<or> ''eval'' = ''eval''" by simp
  have ln: "length ?srcs = length [1, 2::int]" by simp
  have ne: "?srcs \<noteq> []" by simp
  have b: "0 < (1::nat)" by simp
  note t = forward_no_softmax [where hs = "\<lambda>i. [2, 1] ! i" and ws = "\<lambda>i. [2, 1] ! i" and m = counting,
      OF build_sample l1 l2 nc bx ph sample_sources [of 0] ln ne b sh cl]
  from t have a: "forward zero_engine (sample_ssd\<lparr>softmax := counting\<rparr>) sample_input ''eval'' 0 =
     forward zero_engine sample_ssd sample_input ''eval'' 0"
    by (rule conjunct1)
  from t obtain lt ct where
    "forward zero_engine sample_ssd sample_input ''eval'' 0 = (Inr (Heads (contiguous lt) (contiguous ct)), 0)"
    by blast
  then have "\<exists>lt ct. forward zero_engine sample_ssd sample_input ''eval'' 0 = (Inr (Heads lt ct), 0)"
    by blast
  with a show ?thesis by (rule conjI)
qed

text \<open>
  C9. For two modes that both differ from "feature", recognised or not, forward is the same
  computation: the sources, then the heads. For any mode, forward is the computation of
  "feature" when the mode equals "feature" and that of the other modes when it does not:
  the mode enters through this one test.
\<close>

theorem forward_phase_only_feature:
  assumes "p1 \<noteq> ''feature''" and "p2 \<noteq> ''feature''"
  shows "forward E d x p1 = forward E d x p2 \<and>
         forward E d x p1 = bindS (forward_sources E d x) (forward_heads E d) \<and>
         forward E d x p = (if p = ''feature'' then forward E d x ''feature'' else forward E d x p1)"
  using assms by (simp add: forward_def)

text \<open>The modes "train" and "bogus" on the sample detector.\<close>

theorem forward_phase_only_feature_witness:
  "forward zero_engine sample_ssd sample_input ''train'' = forward zero_engine sample_ssd sample_input ''bogus'' \<and>
   forward zero_engine sample_ssd sample_input ''train'' =
     bindS (forward_sources zero_engine sample_ssd sample_input) (forward_heads zero_engine sample_ssd) \<and>
   forward zero_engine sample_ssd sample_input ''eval'' = forward zero_engine sample_ssd sample_input ''train''"
proof -
  have h: "''train'' \<noteq> ''feature''" "''bogus'' \<noteq> ''feature''" by simp_all
  note t = forward_phase_only_feature [OF h, of zero_engine sample_ssd sample_input "''eval''"]
  have e: "''eval'' \<noteq> ''feature''" by simp
  from t have "forward zero_engine sample_ssd sample_input ''eval'' =
      (if ''eval'' = ''feature'' then forward zero_engine sample_ssd sample_input ''feature''
       else forward zero_engine sample_ssd sample_input ''train'')"
    by blast
  with e have "forward zero_engine sample_ssd sample_input ''eval'' =
      forward zero_engine sample_ssd sample_input ''train''"
    by (simp only: if_False)
  with t show ?thesis by blast
qed

text \<open>
  C10, as stated: when the sources and the heads differ in number, forward raises no
  error in mode "train" or "eval". It can. The detector built with the parser that
  returns two layers for a name, from three entries, has five sources and three pairs of
  heads; the third pair, made for 4 channels, meets the second output of the first named
  layer, of 3 channels, and the convolution raises. The detector built from one entry and
  no box count has one source and no heads, and \<open>torch.cat\<close> raises on the empty list.
\<close>

theorem forward_zip_truncates_counterexample:
  "build_ssd twofold_parser sample_base ([Index 1, Name ''S'', Name ''S''], [2, 3, 4]) [1, 2, 2] 2 =
     Inr fivefold_ssd \<and>
   forward zero_engine fivefold_ssd sample_input ''feature'' 0 =
     (Inr (Sources [\<lparr>shape = [1, 2, 2, 2], strides = [8, 4, 2, 1], elems = replicate 8 0\<rparr>,
                    \<lparr>shape = [1, 3, 2, 2], strides = [12, 4, 2, 1], elems = replicate 12 0\<rparr>,
                    \<lparr>shape = [1, 3, 1, 1], strides = [3, 1, 1, 1], elems = replicate 3 0\<rparr>,
                    \<lparr>shape = [1, 4, 2, 2], strides = [16, 4, 2, 1], elems = replicate 16 0\<rparr>,
                    \<lparr>shape = [1, 4, 1, 1], strides = [4, 1, 1, 1], elems = replicate 4 0\<rparr>]), 0) \<and>
   length (loc fivefold_ssd) = 3 \<and> length (conf fivefold_ssd) = 3 \<and>
   forward zero_engine fivefold_ssd sample_input ''eval'' 0 = (Inl RuntimeError, 0) \<and>
   build_ssd sample_parser sample_base ([Index 1], [2]) [] 2 = Inr headless_ssd \<and>
   forward zero_engine headless_ssd sample_input ''feature'' 0 =
     (Inr (Sources [\<lparr>shape = [1, 2, 2, 2], strides = [8, 4, 2, 1], elems = replicate 8 0\<rparr>]), 0) \<and>
   length (loc headless_ssd) = 0 \<and> length (conf headless_ssd) = 0 \<and>
   forward zero_engine headless_ssd sample_input ''eval'' 0 = (Inl ValueError, 0)"
proof -
  have a: "forward zero_engine fivefold_ssd sample_input ''feature'' 0 =
     (Inr (Sources [\<lparr>shape = [1, 2, 2, 2], strides = [8, 4, 2, 1], elems = replicate 8 0\<rparr>,
                    \<lparr>shape = [1, 3, 2, 2], strides = [12, 4, 2, 1], elems = replicate 12 0\<rparr>,
                    \<lparr>shape = [1, 3, 1, 1], strides = [3, 1, 1, 1], elems = replicate 3 0\<rparr>,
                    \<lparr>shape = [1, 4, 2, 2], strides = [16, 4, 2, 1], elems = replicate 16 0\<rparr>,
                    \<lparr>shape = [1, 4, 1, 1], strides = [4, 1, 1, 1], elems = replicate 4 0\<rparr>]), 0)"
    by code_simp
  have b: "length (loc fivefold_ssd) = 3" "length (conf fivefold_ssd) = 3"
    by (simp_all add: fivefold_ssd_def SSD_init_def)
  have c: "forward zero_engine fivefold_ssd sample_input ''eval'' 0 = (Inl RuntimeError, 0)"
    by code_simp
  have d: "forward zero_engine headless_ssd sample_input ''feature'' 0 =
     (Inr (Sources [\<lparr>shape = [1, 2, 2, 2], strides = [8, 4, 2, 1], elems = replicate 8 0\<rparr>]), 0)"
    by code_simp
  have e: "length (loc headless_ssd) = 0" "length (conf headless_ssd) = 0"
    by (simp_all add: headless_ssd_def SSD_init_def)
  have f: "forward zero_engine headless_ssd sample_input ''eval'' 0 = (Inl ValueError, 0)"
    by code_simp
  from build_fivefold a b c build_headless d e f show ?thesis by blast
qed

text \<open>
  C10, amended: in a mode other than "feature" the heads run over
  \<open>zip(sources, loc, conf)\<close>. With \<open>n\<close> the shortest of the three lengths, forward does
  exactly what it does on the first \<open>n\<close> sources with the first \<open>n\<close> heads: the
  entries beyond are dropped without an error of their own, and the lists that are
  concatenated hold \<open>n\<close> tensors each. When \<open>n\<close> is 0, forward raises the ValueError
  of \<open>torch.cat\<close> on an empty list. When \<open>n\<close> is not 0 and the first \<open>n\<close> heads are
  convolutions of kernel 3 and padding 1 that fit the first \<open>n\<close> sources (source \<open>i\<close>
  of dimensions \<open>[b, c i, h i, w i]\<close>, \<open>b > 0\<close>, \<open>c i > 0\<close>, heads from \<open>c i\<close>
  channels to \<open>k i * 4\<close> and \<open>k i * num_classes\<close> with \<open>k i > 0\<close>, outputs laid out
  densely), forward raises nothing, whatever the three lengths are, and returns
  contiguous tensors of dimensions \<open>[b, 4, total]\<close> and \<open>[b, num_classes, total]\<close> with
  \<open>total\<close> the sum of \<open>k i * (h i * w i)\<close> over the first \<open>n\<close> scales only.
\<close>

theorem forward_zip_truncates:
  assumes "phase \<noteq> ''feature''"
    and "forward_sources E d x s = (Inr sources, s1)"
    and "n = min (length sources) (min (length (loc d)) (length (conf d)))"
  shows "forward E d x phase s =
           forward_heads E (d\<lparr>loc := take n (loc d), conf := take n (conf d)\<rparr>) (take n sources) s1 \<and>
         (\<forall>lo co s2. head_loop E (num_classes d) sources (loc d) (conf d) [] [] s1 = (Inr (lo, co), s2) \<longrightarrow>
            length lo = n \<and> length co = n) \<and>
         (n = 0 \<longrightarrow> forward E d x phase s = (Inl ValueError, s1)) \<and>
         (0 < n \<and> 0 < b \<and> 0 < num_classes d \<and> fits64 (num_classes d) \<and>
          (\<forall>i<n. loc d ! i = Conv2d (lc i) \<and> conf d ! i = Conv2d (cc i) \<and>
             shape (sources ! i) = [b, in_channels (lc i), hs i, ws i] \<and> 0 < hs i \<and> 0 < ws i \<and>
             0 < in_channels (lc i) \<and> in_channels (cc i) = in_channels (lc i) \<and>
             kernel_size (lc i) = 3 \<and> padding (lc i) = 1 \<and>
             kernel_size (cc i) = 3 \<and> padding (cc i) = 1 \<and>
             0 < ks i \<and> out_channels (lc i) = ks i * 4 \<and>
             out_channels (cc i) = ks i * nat (num_classes d) \<and>
             \<not> conv2d_channels_last E (lc i) (sources ! i) \<and>
             \<not> conv2d_channels_last E (cc i) (sources ! i)) \<longrightarrow>
          (\<exists>lt ct. forward E d x phase s = (Inr (Heads lt ct), s1) \<and>
             shape lt = [b, 4, \<Sum>i<n. ks i * (hs i * ws i)] \<and>
             shape ct = [b, nat (num_classes d), \<Sum>i<n. ks i * (hs i * ws i)] \<and>
             is_contiguous lt \<and> is_contiguous ct))"
proof -
  let ?d = "d\<lparr>loc := take n (loc d), conf := take n (conf d)\<rparr>"
  have f0: "forward E d x phase s = forward_heads E d sources s1"
    using assms(1,2) by (simp add: forward_def bindS_def)
  also have "\<dots> = forward_heads E ?d (take n sources) s1"
    unfolding forward_heads_def assms(3)
    by (subst head_loop_take) simp
  finally have a: "forward E d x phase s = forward_heads E ?d (take n sources) s1" .
  have l: "\<forall>lo co s2. head_loop E (num_classes d) sources (loc d) (conf d) [] [] s1 = (Inr (lo, co), s2) \<longrightarrow>
          length lo = n \<and> length co = n"
    using head_loop_length [of E "num_classes d" sources "loc d" "conf d" "[]" "[]" s1] assms(3)
    by auto
  have z: "n = 0 \<longrightarrow> forward E d x phase s = (Inl ValueError, s1)"
  proof
    assume "n = 0"
    with assms(3) have "min (length sources) (min (length (loc d)) (length (conf d))) = 0" by simp
    from forward_heads_nil [OF this] f0 show "forward E d x phase s = (Inl ValueError, s1)" by simp
  qed
  have c: "\<exists>lt ct. forward E d x phase s = (Inr (Heads lt ct), s1) \<and>
             shape lt = [b, 4, \<Sum>i<n. ks i * (hs i * ws i)] \<and>
             shape ct = [b, nat (num_classes d), \<Sum>i<n. ks i * (hs i * ws i)] \<and>
             is_contiguous lt \<and> is_contiguous ct"
    if n: "0 < n" and b: "0 < b" and nc: "0 < num_classes d" "fits64 (num_classes d)"
      and h: "\<forall>i<n. loc d ! i = Conv2d (lc i) \<and> conf d ! i = Conv2d (cc i) \<and>
             shape (sources ! i) = [b, in_channels (lc i), hs i, ws i] \<and> 0 < hs i \<and> 0 < ws i \<and>
             0 < in_channels (lc i) \<and> in_channels (cc i) = in_channels (lc i) \<and>
             kernel_size (lc i) = 3 \<and> padding (lc i) = 1 \<and>
             kernel_size (cc i) = 3 \<and> padding (cc i) = 1 \<and>
             0 < ks i \<and> out_channels (lc i) = ks i * 4 \<and>
             out_channels (cc i) = ks i * nat (num_classes d) \<and>
             \<not> conv2d_channels_last E (lc i) (sources ! i) \<and>
             \<not> conv2d_channels_last E (cc i) (sources ! i)"
  proof -
    have le: "n \<le> length sources" "n \<le> length (loc d)" "n \<le> length (conf d)"
      using assms(3) by simp_all
    have ls: "loc ?d = map Conv2d (map lc [0..<n])"
      using le h by (intro nth_map_Conv2d_eq) simp_all
    have cs: "conf ?d = map Conv2d (map cc [0..<n])"
      using le h by (intro nth_map_Conv2d_eq) simp_all
    have ln: "length (take n sources) = length (map lc [0..<n])"
      "length (map lc [0..<n]) = length (map cc [0..<n])" "take n sources \<noteq> []"
      using le n by auto
    have tn: "length (take n sources) = n" using le by simp
    have pre: "\<forall>i<length (take n sources).
           shape (take n sources ! i) = [b, in_channels (map lc [0..<n] ! i), hs i, ws i] \<and> 0 < hs i \<and> 0 < ws i \<and>
           in_channels (map cc [0..<n] ! i) = in_channels (map lc [0..<n] ! i) \<and>
           kernel_size (map lc [0..<n] ! i) = 3 \<and> padding (map lc [0..<n] ! i) = 1 \<and>
           kernel_size (map cc [0..<n] ! i) = 3 \<and> padding (map cc [0..<n] ! i) = 1 \<and>
           0 < ks i \<and> out_channels (map lc [0..<n] ! i) = ks i * 4 \<and>
           out_channels (map cc [0..<n] ! i) = ks i * nat (num_classes ?d) \<and>
           (in_channels (map lc [0..<n] ! i) = 0 \<or>
            \<not> conv2d_channels_last E (map lc [0..<n] ! i) (take n sources ! i) \<and>
            \<not> conv2d_channels_last E (map cc [0..<n] ! i) (take n sources ! i))"
      unfolding tn using h by simp
    have nc': "0 < num_classes ?d" "fits64 (num_classes ?d)" using nc by simp_all
    from forward_heads_convs [OF ls cs ln b nc' pre, of s1]
    obtain lt ct where
      r: "forward_heads E ?d (take n sources) s1 = (Inr (Heads (contiguous lt) (contiguous ct)), s1)"
         "contiguous lt = lt" "contiguous ct = ct" "is_contiguous lt" "is_contiguous ct"
         "shape lt = [b, 4, \<Sum>i<length (take n sources).
                              if in_channels (map lc [0..<n] ! i) = 0 then 0 else ks i * (hs i * ws i)]"
         "shape ct = [b, nat (num_classes ?d),
                      \<Sum>i<length (take n sources).
                         if in_channels (map lc [0..<n] ! i) = 0 then 0 else ks i * (hs i * ws i)]"
      by blast
    have sums: "(\<Sum>i<length (take n sources).
                   if in_channels (map lc [0..<n] ! i) = 0 then 0 else ks i * (hs i * ws i)) =
                (\<Sum>i<n. ks i * (hs i * ws i))"
    proof (unfold tn, rule sum.cong [OF refl])
      fix i assume "i \<in> {..<n}"
      then have i: "i < n" by simp
      with h have "0 < in_channels (lc i)" by blast
      with i show "(if in_channels (map lc [0..<n] ! i) = 0 then 0 else ks i * (hs i * ws i)) =
                   ks i * (hs i * ws i)"
        by simp
    qed
    have f: "forward E d x phase s = (Inr (Heads lt ct), s1)"
      using a r(1,2,3) by simp
    have s1: "shape lt = [b, 4, \<Sum>i<n. ks i * (hs i * ws i)]"
      using r(6) unfolding sums .
    have s2: "shape ct = [b, nat (num_classes d), \<Sum>i<n. ks i * (hs i * ws i)]"
      using r(7) unfolding sums by simp
    from f s1 s2 r(4,5) show ?thesis by blast
  qed
  from a l z c show ?thesis by blast
qed

text \<open>
  The detector of the parser that returns two layers for a name: three sources and two
  pairs of heads; forward returns the tensors of the first two scales (4 + 8 anchors).
  And the detector with one source and no heads: \<open>n\<close> is 0.
\<close>

theorem forward_zip_truncates_witness:
  "forward zero_engine twofold_ssd sample_input ''eval'' 0 =
     forward_heads zero_engine
       (twofold_ssd\<lparr>loc := take 2 (loc twofold_ssd), conf := take 2 (conf twofold_ssd)\<rparr>)
       (take 2 [\<lparr>shape = [1, 2, 2, 2], strides = [8, 4, 2, 1], elems = replicate 8 0\<rparr>,
                \<lparr>shape = [1, 3, 2, 2], strides = [12, 4, 2, 1], elems = replicate 12 0\<rparr>,
                \<lparr>shape = [1, 3, 1, 1], strides = [3, 1, 1, 1], elems = replicate 3 0\<rparr>]) 0 \<and>
   (\<exists>lt ct. forward zero_engine twofold_ssd sample_input ''eval'' 0 = (Inr (Heads lt ct), 0) \<and>
      shape lt = [1, 4, 12] \<and> shape ct = [1, 2, 12] \<and> is_contiguous lt \<and> is_contiguous ct) \<and>
   forward zero_engine headless_ssd sample_input ''eval'' 0 = (Inl ValueError, 0)"
proof -
  let ?srcs = "[\<lparr>shape = [1, 2, 2, 2], strides = [8, 4, 2, 1], elems = replicate 8 (0::nat)\<rparr>,
                \<lparr>shape = [1, 3, 2, 2], strides = [12, 4, 2, 1], elems = replicate 12 0\<rparr>,
                \<lparr>shape = [1, 3, 1, 1], strides = [3, 1, 1, 1], elems = replicate 3 0\<rparr>]"
  let ?lc = "\<lambda>i. [\<lparr>in_channels = 2, out_channels = 4, kernel_size = 3, padding = 1\<rparr>,
                    \<lparr>in_channels = 3, out_channels = 8, kernel_size = 3, padding = 1\<rparr>] ! i"
  let ?cc = "\<lambda>i. [\<lparr>in_channels = 2, out_channels = 2, kernel_size = 3, padding = 1\<rparr>,
                    \<lparr>in_channels = 3, out_channels = 4, kernel_size = 3, padding = 1\<rparr>] ! i"
  let ?ks = "\<lambda>i. [1, 2::nat] ! i"
  let ?hs = "\<lambda>i. [2, 2::nat] ! i"
  have p: "''eval'' \<noteq> ''feature''" by simp
  have n: "Suc (Suc 0) = min (length ?srcs) (min (length (loc twofold_ssd)) (length (conf twofold_ssd)))"
    by (simp add: twofold_ssd_def SSD_init_def)
  have nc: "num_classes twofold_ssd = 2" by (simp add: twofold_ssd_def SSD_init_def)
  have h: "\<forall>i<Suc (Suc 0). loc twofold_ssd ! i = Conv2d (?lc i) \<and> conf twofold_ssd ! i = Conv2d (?cc i) \<and>
             shape (?srcs ! i) = [1, in_channels (?lc i), ?hs i, ?hs i] \<and> 0 < ?hs i \<and> 0 < ?hs i \<and>
             0 < in_channels (?lc i) \<and> in_channels (?cc i) = in_channels (?lc i) \<and>
             kernel_size (?lc i) = 3 \<and> padding (?lc i) = 1 \<and>
             kernel_size (?cc i) = 3 \<and> padding (?cc i) = 1 \<and>
             0 < ?ks i \<and> out_channels (?lc i) = ?ks i * 4 \<and>
             out_channels (?cc i) = ?ks i * nat (num_classes twofold_ssd) \<and>
             \<not> conv2d_channels_last zero_engine (?lc i) (?srcs ! i) \<and>
             \<not> conv2d_channels_last zero_engine (?cc i) (?srcs ! i)"
    by (simp add: less_Suc_eq twofold_ssd_def SSD_init_def zero_engine_def)
  have g: "0 < Suc (Suc 0) \<and> 0 < (1::nat) \<and> 0 < num_classes twofold_ssd \<and> fits64 (num_classes twofold_ssd)"
    by (simp add: nc fits64_def)
  have sm: "(\<Sum>i<Suc (Suc 0). ?ks i * (?hs i * ?hs i)) = 12"
    by (simp add: lessThan_Suc)
  note t = forward_zip_truncates [OF p twofold_sources [of 0] n,
      where b = 1 and lc = ?lc and cc = ?cc and hs = ?hs and ws = ?hs and ks = ?ks]
  from t have a: "forward zero_engine twofold_ssd sample_input ''eval'' 0 =
     forward_heads zero_engine
       (twofold_ssd\<lparr>loc := take (Suc (Suc 0)) (loc twofold_ssd), conf := take (Suc (Suc 0)) (conf twofold_ssd)\<rparr>)
       (take (Suc (Suc 0)) ?srcs) 0"
    by blast
  have two: "Suc (Suc 0) = 2" by simp
  from t g h obtain lt ct where
    r: "forward zero_engine twofold_ssd sample_input ''eval'' 0 = (Inr (Heads lt ct), 0)"
       "shape lt = [1, 4, \<Sum>i<Suc (Suc 0). ?ks i * (?hs i * ?hs i)]"
       "shape ct = [1, nat (num_classes twofold_ssd), \<Sum>i<Suc (Suc 0). ?ks i * (?hs i * ?hs i)]"
       "is_contiguous lt" "is_contiguous ct"
    by blast
  have s1: "shape lt = [1, 4, 12]" using r(2) unfolding sm .
  have s2: "shape ct = [1, 2, 12]" using r(3) unfolding sm nc by simp
  from r(1) s1 s2 r(4,5) have b: "\<exists>lt ct. forward zero_engine twofold_ssd sample_input ''eval'' 0 = (Inr (Heads lt ct), 0) \<and>
      shape lt = [1, 4, 12] \<and> shape ct = [1, 2, 12] \<and> is_contiguous lt \<and> is_contiguous ct"
    by blast
  have hs: "forward_sources zero_engine headless_ssd sample_input 0 =
      (Inr [\<lparr>shape = [1, 2, 2, 2], strides = [8, 4, 2, 1], elems = replicate 8 0\<rparr>], 0)"
    by code_simp
  have n0: "(0::nat) = min (length [\<lparr>shape = [1, 2, 2, 2], strides = [8, 4, 2, 1], elems = replicate 8 (0::nat)\<rparr>])
                         (min (length (loc headless_ssd)) (length (conf headless_ssd)))"
    by (simp add: headless_ssd_def SSD_init_def)
  note u = forward_zip_truncates [OF p hs n0]
  from u have c: "forward zero_engine headless_ssd sample_input ''eval'' 0 = (Inl ValueError, 0)"
    by blast
  from a [unfolded two] b c show ?thesis by blast
qed

end
